(* ===== verification/Prelude.thy ===== *)
theory Prelude
  imports Main "HOL-Library.Word" "HOL-Library.Monad_Syntax"
begin

text \<open>
  Shared vocabulary of the development: the machine types of the i386 build, the checked
  array accesses, and the generic facts on lists, options and words that the component
  theories use.

  A C function that may dereference NULL, index outside an array, or follow list links that
  are not part of the list is modelled in the option monad: \<open>None\<close> is that undefined
  behaviour, and the error codes the source returns are ordinary integers.
\<close>

type_synonym u32 = "32 word"
type_synonym u16 = "16 word"
type_synonym addr = nat

named_theorems klist_simps \<open>equations of the linked-list primitives\<close>
named_theorems kinv_intro \<open>rules that establish a component's invariant\<close>
named_theorems kop_defs \<open>definitions of kernel operations, for unfolding\<close>

section \<open>Checked array accesses\<close>

definition aget :: "'a list \<Rightarrow> nat \<Rightarrow> 'a option" where
  "aget xs i = (if i < length xs then Some (xs ! i) else None)"

definition aput :: "'a list \<Rightarrow> nat \<Rightarrow> 'a \<Rightarrow> 'a list option" where
  "aput xs i v = (if i < length xs then Some (xs[i := v]) else None)"

definition check :: "bool \<Rightarrow> unit option" where
  "check b = (if b then Some () else None)"

lemma aget_Some_iff [simp]: "aget xs i = Some v \<longleftrightarrow> i < length xs \<and> v = xs ! i"
  by (auto simp: aget_def)

lemma aput_Some_iff [simp]: "aput xs i v = Some ys \<longleftrightarrow> i < length xs \<and> ys = xs[i := v]"
  by (auto simp: aput_def)

lemma check_Some_iff [simp]: "check b = Some u \<longleftrightarrow> b"
  by (auto simp: check_def)

lemma aget_in_range [simp]: "i < length xs \<Longrightarrow> aget xs i = Some (xs ! i)"
  by simp

lemma aput_in_range [simp]: "i < length xs \<Longrightarrow> aput xs i v = Some (xs[i := v])"
  by simp

lemma check_True [simp]: "check True = Some ()"
  by (simp add: check_def)

lemma check_False [simp]: "check False = None"
  by (simp add: check_def)

lemmas bind_Some = Option.bind_eq_Some_conv

section \<open>C integer division\<close>

text \<open>C divides towards zero.\<close>

definition cdiv :: "int \<Rightarrow> int \<Rightarrow> int" where
  "cdiv a b = sgn a * sgn b * (\<bar>a\<bar> div \<bar>b\<bar>)"

definition cmod :: "int \<Rightarrow> int \<Rightarrow> int" where
  "cmod a b = a - b * cdiv a b"

lemma cdiv_nonneg: "0 \<le> a \<Longrightarrow> 0 < b \<Longrightarrow> cdiv a b = a div b"
  by (cases "a = 0") (auto simp: cdiv_def)

lemma cmod_nonneg: "0 \<le> a \<Longrightarrow> 0 < b \<Longrightarrow> cmod a b = a mod b"
  by (simp add: cmod_def cdiv_nonneg minus_mult_div_eq_mod)

section \<open>Lists\<close>

lemma remove1_mem_iff: "distinct xs \<Longrightarrow> y \<in> set (remove1 x xs) \<longleftrightarrow> y \<in> set xs \<and> y \<noteq> x"
  by (auto simp: set_remove1_eq)

lemma butlast_distinct: "distinct xs \<Longrightarrow> distinct (butlast xs)"
  by (cases xs rule: rev_cases) auto

lemma last_notin_butlast: "distinct xs \<Longrightarrow> xs \<noteq> [] \<Longrightarrow> last xs \<notin> set (butlast xs)"
  by (cases xs rule: rev_cases) auto

lemma set_butlast_distinct:
  "distinct xs \<Longrightarrow> xs \<noteq> [] \<Longrightarrow> set (butlast xs) = set xs - {last xs}"
  by (cases xs rule: rev_cases) auto

lemma find_Some_least:
  "find P [0..<n] = Some i \<longleftrightarrow> i < n \<and> P i \<and> (\<forall>j<i. \<not> P j)"
  by (auto simp: find_Some_iff)

lemma find_rev_Some_greatest:
  "find P (rev [0..<n]) = Some i \<longleftrightarrow> i < n \<and> P i \<and> (\<forall>j. i < j \<and> j < n \<longrightarrow> \<not> P j)"
proof (induction n)
  case 0
  then show ?case by simp
next
  case (Suc n)
  show ?case
  proof (cases "P n")
    case True
    then show ?thesis by (auto simp: less_Suc_eq)
  next
    case False
    then show ?thesis using Suc.IH by (auto simp: less_Suc_eq)
  qed
qed

end
