(* ===== verification/Machine.thy ===== *)
theory Machine
  imports Prelude
begin

unbundle bit_operations_syntax

text \<open>
  The i386 primitives the kernel is written with: the bit-scan and bit-set instructions of
  \<^verbatim>\<open>include/i386/asm/asm.h\<close>, the page arithmetic of
  \<^verbatim>\<open>include/i386/asm/vm_param.h\<close>, and the hash function of
  \<^verbatim>\<open>include/kernel/scheduling.h\<close>.
\<close>

section \<open>Bit instructions\<close>

text \<open>
  \<^verbatim>\<open>btsl\<close> and \<^verbatim>\<open>btrl\<close> with a memory operand and a
  register bit offset address a bit string: an offset outside 0..31 changes another word of
  memory. The model covers the offsets inside the word.
\<close>

definition set_bit_k :: "u32 \<Rightarrow> nat \<Rightarrow> u32 option" where
  "set_bit_k w i = (if i < 32 then Some (set_bit i w) else None)"

definition clear_bit_k :: "u32 \<Rightarrow> nat \<Rightarrow> u32 option" where
  "clear_bit_k w i = (if i < 32 then Some (unset_bit i w) else None)"

text \<open>
  \<^verbatim>\<open>btl\<close> on a register takes the offset modulo 32, and
  \<^verbatim>\<open>sbbl\<close> turns the carry into 0 or -1.
\<close>

definition check_set :: "u32 \<Rightarrow> int \<Rightarrow> int" where
  "check_set bitmap index = (if bit bitmap (nat (index mod 32)) then - 1 else 0)"

text \<open>
  \<^verbatim>\<open>bsfl\<close> leaves its destination undefined when the source is zero: \<open>None\<close>.
\<close>

definition ffs :: "u32 \<Rightarrow> nat option" where
  "ffs x = find (bit x) [0..<32]"

definition ffc :: "u32 \<Rightarrow> nat option" where
  "ffc x = find (bit (NOT x)) [0..<32]"

definition frs :: "u32 \<Rightarrow> int" where
  "frs x = (if x = 0 then - 1 else
     (case find (bit x) (rev [0..<32]) of Some i \<Rightarrow> int i | None \<Rightarrow> - 1))"

lemma set_bit_k_Some [simp]: "i < 32 \<Longrightarrow> set_bit_k w i = Some (set_bit i w)"
  by (simp add: set_bit_k_def)

lemma clear_bit_k_Some [simp]: "i < 32 \<Longrightarrow> clear_bit_k w i = Some (unset_bit i w)"
  by (simp add: clear_bit_k_def)

lemma bit_u32_lt: "bit (x :: u32) j \<Longrightarrow> j < 32"
  using bit_imp_le_length [of x j] by simp

lemma bit_set_u32 [simp]: "bit (set_bit i (w :: u32)) j \<longleftrightarrow> bit w j \<or> (j = i \<and> j < 32)"
  by (auto simp: bit_set_bit_iff)

lemma bit_unset_u32 [simp]: "bit (unset_bit i (w :: u32)) j \<longleftrightarrow> bit w j \<and> j \<noteq> i"
  by (auto simp: bit_unset_bit_iff)

lemma u32_zero_iff: "x = (0 :: u32) \<longleftrightarrow> (\<forall>i<32. \<not> bit x i)"
  by (auto simp: bit_eq_iff)

lemma u32_full_iff: "x = (- 1 :: u32) \<longleftrightarrow> (\<forall>i<32. bit x i)"
  by (auto simp: bit_eq_iff)

lemma ffc_Some_iff: "ffc x = Some i \<longleftrightarrow> i < 32 \<and> \<not> bit x i \<and> (\<forall>j<i. bit x j)"
  by (auto simp: ffc_def find_Some_least bit_not_iff)

lemma ffc_None_iff: "ffc x = None \<longleftrightarrow> x = - 1"
  by (auto simp: ffc_def find_None_iff bit_not_iff u32_full_iff)

lemma ffs_Some_iff: "ffs x = Some i \<longleftrightarrow> i < 32 \<and> bit x i \<and> (\<forall>j<i. \<not> bit x j)"
  by (auto simp: ffs_def find_Some_least)

lemma frs_neg_iff: "frs x < 0 \<longleftrightarrow> x = 0"
proof -
  have "find (bit x) (rev [0..<32]) = None \<Longrightarrow> x = 0"
    by (auto simp: find_None_iff u32_zero_iff)
  then show ?thesis
    by (auto simp: frs_def split: option.splits)
qed

lemma frs_nonneg: "x \<noteq> 0 \<Longrightarrow>
  \<exists>i<32. frs x = int i \<and> bit x i \<and> (\<forall>j. i < j \<longrightarrow> \<not> bit x j)"
proof -
  assume x: "x \<noteq> 0"
  then have "find (bit x) (rev [0..<32]) \<noteq> None"
    by (auto simp: find_None_iff u32_zero_iff)
  then obtain i where i: "find (bit x) (rev [0..<32]) = Some i"
    by auto
  then have "i < 32" "bit x i" and hi: "\<And>j. i < j \<Longrightarrow> j < 32 \<Longrightarrow> \<not> bit x j"
    by (auto simp: find_rev_Some_greatest)
  moreover have "\<forall>j. i < j \<longrightarrow> \<not> bit x j"
    using hi bit_u32_lt by blast
  moreover have "frs x = int i"
    using x i by (simp add: frs_def)
  ultimately show ?thesis by blast
qed

section \<open>Pages\<close>

definition PAGE_SIZE :: u32 where "PAGE_SIZE = 0x1000"
definition PAGE_RW :: u32 where "PAGE_RW = 2"
definition PAGE_USER :: u32 where "PAGE_USER = 4"
definition KERNEL_BASE :: u32 where "KERNEL_BASE = 0xE0000000"

text \<open>
  The macros assign to their argument and yield the value assigned, so a use of them is an
  update of the variable and these functions are what it is updated to. Addresses are 32-bit
  unsigned, and \<open>align_page\<close> wraps in the last page.
\<close>

definition align_page :: "u32 \<Rightarrow> u32" where
  "align_page a = (a + (PAGE_SIZE - 1)) AND NOT (PAGE_SIZE - 1)"

definition page_base :: "u32 \<Rightarrow> u32" where
  "page_base a = a AND NOT (PAGE_SIZE - 1)"

definition addr_to_pdenum :: "u32 \<Rightarrow> nat" where
  "addr_to_pdenum a = unat (drop_bit 22 a AND 0x3FF)"

definition addr_to_ptenum :: "u32 \<Rightarrow> nat" where
  "addr_to_ptenum a = unat (drop_bit 12 a AND 0x3FF)"

definition addr_to_pte :: "u32 \<Rightarrow> u32" where
  "addr_to_pte a = a AND 0xfffff000"

definition addr_to_page :: "u32 \<Rightarrow> u32" where
  "addr_to_page a = drop_bit 12 a"

section \<open>The hash function of the id tables\<close>

definition hash_fn :: "int \<Rightarrow> nat" where
  "hash_fn x = nat ((drop_bit 8 x XOR x) AND (4096 div 4 - 1))"

lemma hash_fn_bound [simp]: "hash_fn x < 1024"
proof -
  have "0 \<le> (drop_bit 8 x XOR x) AND 1023" by simp
  moreover have "(drop_bit 8 x XOR x) AND 1023 \<le> (1023 :: int)"
    by (rule AND_upper2) simp
  ultimately show ?thesis by (simp add: hash_fn_def nat_less_iff)
qed

lemma addr_to_pdenum_bound [simp]: "addr_to_pdenum a < 1024"
proof -
  have "unat (drop_bit 22 a AND 0x3FF) \<le> unat (0x3FF :: u32)"
    by (rule word_and_le1 [THEN word_le_nat_alt [THEN iffD1]])
  then show ?thesis by (simp add: addr_to_pdenum_def)
qed

lemma addr_to_ptenum_bound [simp]: "addr_to_ptenum a < 1024"
proof -
  have "unat (drop_bit 12 a AND 0x3FF) \<le> unat (0x3FF :: u32)"
    by (rule word_and_le1 [THEN word_le_nat_alt [THEN iffD1]])
  then show ?thesis by (simp add: addr_to_ptenum_def)
qed

lemma page_mask: "NOT (PAGE_SIZE - 1) = (NOT (mask 12) :: u32)"
  by (simp add: PAGE_SIZE_def mask_eq_decr_exp)

lemma unat_page_base: "unat (page_base a) = unat a - unat a mod 4096"
proof -
  have eq: "page_base a = push_bit 12 (drop_bit 12 a)"
    unfolding page_base_def page_mask
    by (simp add: bit_eq_iff bit_simps)
      (auto dest: bit_u32_lt)
  have "unat a div 4096 * 4096 < 2 ^ 32"
    using unsigned_less [of a, where ?'a = nat] div_times_less_eq_dividend [of "unat a" 4096]
    by simp
  then show ?thesis
    unfolding eq
    by (simp add: push_bit_eq_mult drop_bit_eq_div unat_word_ariths unat_div
        minus_mod_eq_div_mult)
qed

lemma align_page_base: "align_page a = page_base (a + (PAGE_SIZE - 1))"
  by (simp add: align_page_def page_base_def)

lemma unat_align_page:
  assumes "unat a + 4095 < 2 ^ 32"
  shows "unat (align_page a) = (unat a + 4095) - (unat a + 4095) mod 4096"
proof -
  have "unat (a + (PAGE_SIZE - 1)) = unat a + 4095"
    using assms by (simp add: PAGE_SIZE_def unat_word_ariths)
  then show ?thesis by (simp add: align_page_base unat_page_base)
qed

text \<open>
  Page arithmetic: \<open>page_base\<close> rounds down to a multiple of 4096 and
  \<open>align_page\<close> rounds up to the least multiple of 4096 that is not below the address, for
  every address whose rounding does not leave the 32-bit space.
\<close>

theorem page_rounding:
  assumes "unat a + 4095 < 2 ^ 32"
  shows "4096 dvd unat (page_base a) \<and> unat (page_base a) \<le> unat a \<and>
         unat a < unat (page_base a) + 4096 \<and>
         4096 dvd unat (align_page a) \<and> unat a \<le> unat (align_page a) \<and>
         unat (align_page a) < unat a + 4096"
proof -
  have down: "4096 dvd n - n mod 4096" "n - n mod 4096 \<le> n" "n < (n - n mod 4096) + 4096"
    for n :: nat
    by (simp_all add: minus_mod_eq_mult_div)
  show ?thesis
    unfolding unat_page_base unat_align_page [OF assms]
    using down [of "unat a"] down [of "unat a + 4095"] by (intro conjI) (assumption | linarith)+
qed

theorem page_rounding_witness:
  "unat (0x1234 :: u32) + 4095 < 2 ^ 32 \<and> unat (align_page 0x1234) = 0x2000 \<and>
   unat (page_base 0x1234) = 0x1000 \<and> 4096 dvd unat (align_page 0x1234)"
  using page_rounding [of "0x1234"]
  by (simp add: unat_page_base unat_align_page)

end
