(* ===== verification/KList.thy ===== *)
theory KList
  imports Machine
begin

text \<open>
  The intrusive doubly linked lists of \<^verbatim>\<open>include/kernel/list.h\<close>, on an explicit
  heap with one \<open>next\<close> and one \<open>prev\<close> cell per address. A list is a head and the ring of
  items behind it; an address stands for the link cell of the head or of an item (the macros
  decide by comparing with the head which of the two a pointer is).

  \<open>dll h head xs\<close> says that the ring at \<open>head\<close> holds the items \<open>xs\<close>, in
  \<open>next\<close> order. Every primitive is shown to implement its operation on \<open>xs\<close>; the
  other theories model the kernel's queues by these lists, with \<open>None\<close> where the macro is
  applied outside its domain (an item that is already linked, or not linked at all).
\<close>

section \<open>The primitives\<close>

record lheap =
  lnext :: "addr \<Rightarrow> addr"
  lprev :: "addr \<Rightarrow> addr"

definition set_next :: "addr \<Rightarrow> addr \<Rightarrow> lheap \<Rightarrow> lheap" where
  "set_next a v h = h\<lparr>lnext := (lnext h)(a := v)\<rparr>"

definition set_prev :: "addr \<Rightarrow> addr \<Rightarrow> lheap \<Rightarrow> lheap" where
  "set_prev a v h = h\<lparr>lprev := (lprev h)(a := v)\<rparr>"

definition list_init :: "addr \<Rightarrow> lheap \<Rightarrow> lheap" where
  "list_init l h = set_prev l l (set_next l l h)"

definition list_isempty :: "addr \<Rightarrow> lheap \<Rightarrow> bool" where
  "list_isempty l h \<longleftrightarrow> lnext h l = l"

definition last_entry :: "addr \<Rightarrow> lheap \<Rightarrow> addr" where
  "last_entry head h = lprev h head"

definition first_entry :: "addr \<Rightarrow> lheap \<Rightarrow> addr" where
  "first_entry head h = lnext h head"

definition list_enqueue :: "addr \<Rightarrow> addr \<Rightarrow> lheap \<Rightarrow> lheap" where
  "list_enqueue head pointer h =
     (let nxt = lnext h head;
          h = set_next head pointer h;
          h = set_prev pointer head h;
          h = set_next pointer nxt h
      in if nxt = head then set_prev head pointer h else set_prev nxt pointer h)"

definition list_dequeue :: "addr \<Rightarrow> lheap \<Rightarrow> addr \<times> lheap" where
  "list_dequeue head h =
     (let pointer = lprev h head;
          nxt = lprev h pointer;
          h = set_prev head nxt h
      in (pointer, if nxt = head then set_next head head h else set_next nxt head h))"

definition list_add :: "addr \<Rightarrow> addr \<Rightarrow> lheap \<Rightarrow> lheap" where
  "list_add head pointer h =
     (let nxt = lnext h head;
          h = set_next head pointer h;
          h = set_prev pointer head h;
          h = set_next pointer nxt h
      in if nxt = head then set_prev head pointer h else set_prev nxt pointer h)"

definition list_remove :: "addr \<Rightarrow> lheap \<Rightarrow> addr \<times> lheap" where
  "list_remove head h =
     (let pointer = lnext h head;
          nxt = lnext h pointer;
          h = set_next head nxt h
      in (pointer, if nxt = head then set_prev head head h else set_prev nxt head h))"

definition list_del :: "addr \<Rightarrow> addr \<Rightarrow> lheap \<Rightarrow> lheap" where
  "list_del head item h =
     (let prev = lprev h item;
          next = lnext h item;
          h = (if prev = head then set_next head next h else set_next prev next h)
      in if next = head then set_prev head prev h else set_prev next prev h)"

definition list_add_next :: "addr \<Rightarrow> addr \<Rightarrow> lheap \<Rightarrow> lheap" where
  "list_add_next prv item h =
     (let nxt = lnext h prv;
          h = set_next prv item h;
          h = set_prev item prv h
      in set_next item nxt h)"

lemma set_next_simps [simp]:
  "lnext (set_next a v h) = (lnext h)(a := v)" "lprev (set_next a v h) = lprev h"
  by (simp_all add: set_next_def)

lemma set_prev_simps [simp]:
  "lprev (set_prev a v h) = (lprev h)(a := v)" "lnext (set_prev a v h) = lnext h"
  by (simp_all add: set_prev_def)

lemmas list_op_defs = list_init_def list_isempty_def last_entry_def first_entry_def
  list_enqueue_def list_dequeue_def list_add_def list_remove_def list_del_def
  list_add_next_def Let_def

section \<open>Representation\<close>

fun dseg :: "lheap \<Rightarrow> addr \<Rightarrow> addr list \<Rightarrow> addr \<Rightarrow> bool" where
  "dseg h p [] q \<longleftrightarrow> lnext h p = q \<and> lprev h q = p"
| "dseg h p (x # xs) q \<longleftrightarrow> lnext h p = x \<and> lprev h x = p \<and> dseg h x xs q"

definition dll :: "lheap \<Rightarrow> addr \<Rightarrow> addr list \<Rightarrow> bool" where
  "dll h head xs \<longleftrightarrow> distinct (head # xs) \<and> dseg h head xs head"

text \<open>The items reached by following \<open>next\<close> only.\<close>

fun fseg :: "lheap \<Rightarrow> addr \<Rightarrow> addr list \<Rightarrow> addr \<Rightarrow> bool" where
  "fseg h p [] q \<longleftrightarrow> lnext h p = q"
| "fseg h p (x # xs) q \<longleftrightarrow> lnext h p = x \<and> fseg h x xs q"

lemma dseg_append:
  "dseg h p (xs @ y # ys) q \<longleftrightarrow> dseg h p xs y \<and> dseg h y ys q"
  by (induction xs arbitrary: p) auto

lemma fseg_append:
  "fseg h p (xs @ y # ys) q \<longleftrightarrow> fseg h p xs y \<and> fseg h y ys q"
  by (induction xs arbitrary: p) auto

lemma dseg_imp_fseg: "dseg h p xs q \<Longrightarrow> fseg h p xs q"
  by (induction xs arbitrary: p) auto

lemma dseg_set_next [simp]:
  "a \<noteq> p \<Longrightarrow> a \<notin> set xs \<Longrightarrow> dseg (set_next a v h) p xs q = dseg h p xs q"
  by (induction xs arbitrary: p) auto

lemma dseg_set_prev [simp]:
  "a \<noteq> q \<Longrightarrow> a \<notin> set xs \<Longrightarrow> dseg (set_prev a v h) p xs q = dseg h p xs q"
  by (induction xs arbitrary: p) auto

lemma fseg_set_next [simp]:
  "a \<noteq> p \<Longrightarrow> a \<notin> set xs \<Longrightarrow> fseg (set_next a v h) p xs q = fseg h p xs q"
  by (induction xs arbitrary: p) auto

lemma fseg_set_prev [simp]: "fseg (set_prev a v h) p xs q = fseg h p xs q"
  by (induction xs arbitrary: p) auto

text \<open>Moving the two ends of a segment.\<close>

lemma dseg_move_last:
  "dseg h p xs q \<Longrightarrow> distinct (p # xs) \<Longrightarrow> q' \<notin> set xs \<Longrightarrow>
   dseg (set_prev q' (last (p # xs)) (set_next (last (p # xs)) q' h)) p xs q'"
proof (induction xs arbitrary: p)
  case Nil
  then show ?case by simp
next
  case (Cons x xs)
  then have "dseg (set_prev q' (last (x # xs)) (set_next (last (x # xs)) q' h)) x xs q'"
    by auto
  moreover have "last (x # xs) \<noteq> p"
    using Cons.prems(2) by (metis distinct.simps(2) last_in_set list.distinct(1))
  ultimately show ?case using Cons.prems by auto
qed

text \<open>Unlinking the item between two segments.\<close>

lemma dseg_unlink:
  assumes "dseg h p xs x" "dseg h x ys q" "distinct (p # xs @ x # ys)" "q = p \<or> q \<notin> set (p # xs @ x # ys)"
  defines "a \<equiv> last (p # xs)" and "b \<equiv> hd (ys @ [q])"
  shows "dseg (set_prev b a (set_next a b h)) p (xs @ ys) q"
proof (cases ys)
  case Nil
  then show ?thesis
    using dseg_move_last [OF assms(1), of q] assms by auto
next
  case (Cons y ys')
  have "dseg (set_prev y a (set_next a y h)) p xs y"
    using dseg_move_last [OF assms(1), of y] assms(3) Cons unfolding a_def by auto
  moreover have "a \<in> set (p # xs)" unfolding a_def by (rule last_in_set) simp
  then have "dseg h y ys' q" "a \<noteq> y" "a \<notin> set ys'" "y \<noteq> q" "y \<notin> set ys'"
    using assms(2-4) Cons by auto
  then have "dseg (set_prev y a (set_next a y h)) y ys' q" by simp
  ultimately show ?thesis
    using Cons by (simp add: dseg_append b_def)
qed

lemma dll_distinct: "dll h head xs \<Longrightarrow> distinct xs \<and> head \<notin> set xs"
  by (simp add: dll_def)

lemma list_init_dll: "dll (list_init l h) l []"
  by (simp add: dll_def list_op_defs)

lemma dll_isempty: "dll h head xs \<Longrightarrow> list_isempty head h \<longleftrightarrow> xs = []"
  by (cases xs) (auto simp: dll_def list_op_defs)

lemma list_enqueue_dll:
  "dll h head xs \<Longrightarrow> p \<noteq> head \<Longrightarrow> p \<notin> set xs \<Longrightarrow> dll (list_enqueue head p h) head (p # xs)"
  by (cases xs) (auto simp: dll_def list_op_defs)

lemma list_add_dll:
  "dll h head xs \<Longrightarrow> p \<noteq> head \<Longrightarrow> p \<notin> set xs \<Longrightarrow> dll (list_add head p h) head (p # xs)"
  by (cases xs) (auto simp: dll_def list_op_defs)

lemma dseg_first: "dseg h p xs q \<Longrightarrow> lnext h p = (case xs of [] \<Rightarrow> q | x # _ \<Rightarrow> x)"
  by (cases xs) auto

lemma dseg_last: "dseg h p xs q \<Longrightarrow> lprev h q = last (p # xs)"
  by (induction xs arbitrary: p) auto

lemma dll_last_entry: "dll h head xs \<Longrightarrow> xs \<noteq> [] \<Longrightarrow> last_entry head h = last xs"
  by (auto simp: dll_def list_op_defs dest: dseg_last)

lemma dll_first_entry: "dll h head xs \<Longrightarrow> xs \<noteq> [] \<Longrightarrow> first_entry head h = hd xs"
  by (cases xs) (auto simp: dll_def list_op_defs)

lemma list_remove_dll:
  "dll h head (x # xs) \<Longrightarrow>
   fst (list_remove head h) = x \<and> dll (snd (list_remove head h)) head xs"
  by (cases xs) (auto simp: dll_def list_op_defs)

lemma list_del_dll:
  assumes "dll h head (xs @ x # ys)"
  shows "dll (list_del head x h) head (xs @ ys)"
proof -
  have d: "dseg h head xs x" "dseg h x ys head" "distinct (head # xs @ x # ys)"
    using assms by (auto simp: dll_def dseg_append)
  have "lprev h x = last (head # xs)" "lnext h x = hd (ys @ [head])"
    using dseg_last [OF d(1)] dseg_first [OF d(2)] by (auto split: list.splits)
  then have "list_del head x h =
      set_prev (hd (ys @ [head])) (last (head # xs)) (set_next (last (head # xs)) (hd (ys @ [head])) h)"
    unfolding list_del_def Let_def by presburger
  then show ?thesis
    using dseg_unlink [OF d(1,2,3)] d(3) by (auto simp: dll_def)
qed

lemma list_dequeue_dll:
  assumes "dll h head (xs @ [x])"
  shows "fst (list_dequeue head h) = x \<and> dll (snd (list_dequeue head h)) head xs"
proof -
  have d: "dseg h head xs x" "dseg h x [] head" "distinct (head # xs @ [x])"
    using assms by (auto simp: dll_def dseg_append)
  have p: "lprev h head = x" "lprev h x = last (head # xs)"
    using dseg_last [OF d(1)] d(2) by auto
  then have fst: "fst (list_dequeue head h) = x" and snd: "snd (list_dequeue head h) =
      set_prev head (last (head # xs)) (set_next (last (head # xs)) head h)"
    by (simp_all add: list_dequeue_def Let_def set_next_def set_prev_def)
  have "dseg (snd (list_dequeue head h)) head xs head"
    using dseg_unlink [OF d] unfolding snd by simp
  then show ?thesis using fst d(3) by (simp add: dll_def)
qed

lemma list_add_next_fseg:
  "fseg h head (xs @ prv # ys) q \<Longrightarrow> distinct (head # xs @ prv # ys) \<Longrightarrow>
   item \<notin> set (head # xs @ prv # ys) \<Longrightarrow>
   fseg (list_add_next prv item h) head (xs @ prv # item # ys) q"
  by (cases ys) (auto simp: list_op_defs fseg_append)

text \<open>Cells outside a ring are left alone by the operations on it.\<close>

lemma dseg_cong:
  "(\<And>a. a \<in> set (p # xs) \<Longrightarrow> lnext h' a = lnext h a) \<Longrightarrow> (\<And>a. a \<in> set (q # xs) \<Longrightarrow> lprev h' a = lprev h a) \<Longrightarrow>
   dseg h' p xs q = dseg h p xs q"
  by (induction xs arbitrary: p) auto

lemma dll_transfer:
  assumes "dll h head xs" "\<And>a. a \<in> set (head # xs) \<Longrightarrow> lnext h' a = lnext h a \<and> lprev h' a = lprev h a"
  shows "dll h' head xs"
proof -
  have "dseg h' head xs head = dseg h head xs head" by (rule dseg_cong) (use assms(2) in blast)+
  then show ?thesis using assms(1) by (simp add: dll_def)
qed

lemma list_init_other: "dll h head xs \<Longrightarrow> p \<notin> set (head # xs) \<Longrightarrow> dll (list_init p h) head xs"
  by (erule dll_transfer) (auto simp: list_init_def)

lemma dll_ends: "dll h head xs \<Longrightarrow> lnext h head \<in> set (head # xs) \<and> lprev h head \<in> set (head # xs)"
proof -
  assume d: "dll h head xs"
  have "lprev h head = last (head # xs)" using d dseg_last [of h head xs head] by (simp add: dll_def)
  moreover have "lnext h head \<in> set (head # xs)" using d dseg_first [of h head xs head] by (auto simp: dll_def split: list.splits)
  ultimately show ?thesis using last_in_set [of "head # xs"] by simp
qed

lemma dll_item_ends:
  assumes "dll h head xs" "x \<in> set xs"
  shows "lnext h x \<in> set (head # xs) \<and> lprev h x \<in> set (head # xs)"
proof -
  from split_list [OF assms(2)] obtain us vs where xs: "xs = us @ x # vs" by blast
  then have d: "dseg h head us x" "dseg h x vs head" using assms(1) by (auto simp: dll_def dseg_append)
  have "lprev h x \<in> set (head # us)" using dseg_last [OF d(1)] last_in_set [of "head # us"] by simp
  moreover have "lnext h x \<in> set (head # vs)" using dseg_first [OF d(2)] by (auto split: list.splits)
  ultimately show ?thesis using xs by auto
qed

lemma ring_frame:
  assumes "dll h head xs" "a \<notin> set (head # xs)"
  shows "a \<noteq> p \<Longrightarrow> lnext (list_add head p h) a = lnext h a \<and> lprev (list_add head p h) a = lprev h a"
    "a \<noteq> p \<Longrightarrow> lnext (list_enqueue head p h) a = lnext h a \<and> lprev (list_enqueue head p h) a = lprev h a"
    "xs \<noteq> [] \<Longrightarrow> lnext (snd (list_dequeue head h)) a = lnext h a \<and> lprev (snd (list_dequeue head h)) a = lprev h a"
    "xs \<noteq> [] \<Longrightarrow> lnext (snd (list_remove head h)) a = lnext h a \<and> lprev (snd (list_remove head h)) a = lprev h a"
    "x \<in> set xs \<Longrightarrow> lnext (list_del head x h) a = lnext h a \<and> lprev (list_del head x h) a = lprev h a"
    "a \<noteq> p \<Longrightarrow> lnext (list_init p h) a = lnext h a \<and> lprev (list_init p h) a = lprev h a"
proof -
  note e = dll_ends [OF assms(1)] dll_item_ends [OF assms(1)]
  have ne: "lnext h head \<noteq> a" "lprev h head \<noteq> a" "a \<noteq> head" using e(1) assms(2) by auto
  have last: "lprev h (lprev h head) \<noteq> a" "lnext h (lnext h head) \<noteq> a" if "xs \<noteq> []"
  proof -
    have "lprev h head \<in> set xs" "lnext h head \<in> set xs"
      using that assms(1) dll_last_entry [OF assms(1)] dll_first_entry [OF assms(1)] by (auto simp: last_entry_def first_entry_def)
    then show "lprev h (lprev h head) \<noteq> a" "lnext h (lnext h head) \<noteq> a" using e(2) assms(2) by blast+
  qed
  have item: "lprev h x \<noteq> a \<and> lnext h x \<noteq> a" if "x \<in> set xs" for x using e(2) [OF that] assms(2) by blast
  show "a \<noteq> p \<Longrightarrow> lnext (list_add head p h) a = lnext h a \<and> lprev (list_add head p h) a = lprev h a"
    "a \<noteq> p \<Longrightarrow> lnext (list_enqueue head p h) a = lnext h a \<and> lprev (list_enqueue head p h) a = lprev h a"
    using ne by (auto simp: list_op_defs)
  show "xs \<noteq> [] \<Longrightarrow> lnext (snd (list_dequeue head h)) a = lnext h a \<and> lprev (snd (list_dequeue head h)) a = lprev h a"
    "xs \<noteq> [] \<Longrightarrow> lnext (snd (list_remove head h)) a = lnext h a \<and> lprev (snd (list_remove head h)) a = lprev h a"
    using ne last by (auto simp: list_op_defs)
  show "x \<in> set xs \<Longrightarrow> lnext (list_del head x h) a = lnext h a \<and> lprev (list_del head x h) a = lprev h a"
    using ne item [of x] by (auto simp: list_op_defs)
  show "a \<noteq> p \<Longrightarrow> lnext (list_init p h) a = lnext h a \<and> lprev (list_init p h) a = lprev h a"
    by (auto simp: list_op_defs)
qed

lemma dll_other:
  assumes "dll h head xs" "dll h head' ys" "set (head # xs) \<inter> set (head' # ys) = {}"
  shows "p \<notin> set (head' # ys) \<Longrightarrow> dll (list_add head p h) head' ys"
    "p \<notin> set (head' # ys) \<Longrightarrow> dll (list_enqueue head p h) head' ys"
    "xs \<noteq> [] \<Longrightarrow> dll (snd (list_dequeue head h)) head' ys"
    "xs \<noteq> [] \<Longrightarrow> dll (snd (list_remove head h)) head' ys"
    "x \<in> set xs \<Longrightarrow> dll (list_del head x h) head' ys"
    "p \<notin> set (head' # ys) \<Longrightarrow> dll (list_init p h) head' ys"
proof -
  have out: "a \<notin> set (head # xs)" if "a \<in> set (head' # ys)" for a using that assms(3) by blast
  note f = ring_frame [OF assms(1) out] and t = dll_transfer [OF assms(2)]
  show "p \<notin> set (head' # ys) \<Longrightarrow> dll (list_add head p h) head' ys" by (rule t, rule f(1)) auto
  show "p \<notin> set (head' # ys) \<Longrightarrow> dll (list_enqueue head p h) head' ys" by (rule t, rule f(2)) auto
  show "xs \<noteq> [] \<Longrightarrow> dll (snd (list_dequeue head h)) head' ys" by (rule t, rule f(3)) auto
  show "xs \<noteq> [] \<Longrightarrow> dll (snd (list_remove head h)) head' ys" by (rule t, rule f(4)) auto
  show "x \<in> set xs \<Longrightarrow> dll (list_del head x h) head' ys" by (rule t, rule f(5)) auto
  show "p \<notin> set (head' # ys) \<Longrightarrow> dll (list_init p h) head' ys" by (rule t, rule f(6)) auto
qed

section \<open>Lists as the model of the rings\<close>

text \<open>
  The operations on item lists that the other theories use. \<open>None\<close> marks a use of the
  macro outside its domain: linking an item that is linked already, unlinking one that is not,
  or taking an item from an empty list.
\<close>

definition ll_enqueue :: "'a \<Rightarrow> 'a list \<Rightarrow> 'a list option" where
  "ll_enqueue p xs = (if p \<in> set xs then None else Some (p # xs))"

definition ll_dequeue :: "'a list \<Rightarrow> ('a \<times> 'a list) option" where
  "ll_dequeue xs = (if xs = [] then None else Some (last xs, butlast xs))"

definition ll_add :: "'a \<Rightarrow> 'a list \<Rightarrow> 'a list option" where
  "ll_add p xs = (if p \<in> set xs then None else Some (p # xs))"

definition ll_remove :: "'a list \<Rightarrow> ('a \<times> 'a list) option" where
  "ll_remove xs = (case xs of [] \<Rightarrow> None | x # ys \<Rightarrow> Some (x, ys))"

definition ll_del :: "'a \<Rightarrow> 'a list \<Rightarrow> 'a list option" where
  "ll_del p xs = (if p \<in> set xs then Some (remove1 p xs) else None)"

lemma ll_enqueue_Some [klist_simps]:
  "ll_enqueue p xs = Some ys \<longleftrightarrow> p \<notin> set xs \<and> ys = p # xs"
  by (auto simp: ll_enqueue_def)

lemma ll_add_Some [klist_simps]: "ll_add p xs = Some ys \<longleftrightarrow> p \<notin> set xs \<and> ys = p # xs"
  by (auto simp: ll_add_def)

lemma ll_dequeue_Some [klist_simps]: "ll_dequeue xs = Some (p, ys) \<longleftrightarrow> xs = ys @ [p]"
  by (cases xs rule: rev_cases) (auto simp: ll_dequeue_def)

lemma ll_remove_Some [klist_simps]: "ll_remove xs = Some (p, ys) \<longleftrightarrow> xs = p # ys"
  by (auto simp: ll_remove_def split: list.splits)

lemma ll_del_Some [klist_simps]: "ll_del p xs = Some ys \<longleftrightarrow> p \<in> set xs \<and> ys = remove1 p xs"
  by (auto simp: ll_del_def)

lemma ll_del_dll:
  assumes "dll h head xs" "ll_del p xs = Some ys"
  shows "dll (list_del head p h) head ys"
proof -
  from assms(2) obtain us vs where xs: "xs = us @ p # vs" "p \<notin> set us" and ys: "ys = us @ vs"
    by (auto simp: ll_del_Some remove1_append dest!: split_list_first)
  then show ?thesis using list_del_dll assms(1) by simp
qed

text \<open>Unlinking an item again directly after it was dequeued changes nothing.\<close>

lemma list_del_dequeued:
  assumes "dll h head xs" "xs \<noteq> []"
  shows "list_del head (fst (list_dequeue head h)) (snd (list_dequeue head h)) =
    snd (list_dequeue head h)"
proof -
  obtain ys p where xs: "xs = ys @ [p]" using assms(2) by (cases xs rule: rev_cases) auto
  then have "lnext h p = head" "lprev h head = p" "p \<noteq> head" "lprev h p \<noteq> p"
    using assms(1) by (cases ys rule: rev_cases; auto simp: dll_def dseg_append)+
  then show ?thesis by (simp add: list_op_defs set_next_def set_prev_def)
qed

section \<open>The queue contract\<close>

fun drain :: "('q \<Rightarrow> 'x \<times> 'q) \<Rightarrow> nat \<Rightarrow> 'q \<Rightarrow> 'x list" where
  "drain deq 0 q = []"
| "drain deq (Suc n) q = (let (x, q') = deq q in x # drain deq n q')"

locale kqueue =
  fixes enq :: "'x \<Rightarrow> 'q \<Rightarrow> 'q"
    and deq :: "'q \<Rightarrow> 'x \<times> 'q"
    and repr :: "'q \<Rightarrow> 'x list \<Rightarrow> bool"
    and item :: "'x \<Rightarrow> bool"
  assumes enq_repr: "repr q xs \<Longrightarrow> item x \<Longrightarrow> x \<notin> set xs \<Longrightarrow> repr (enq x q) (x # xs)"
    and deq_repr: "repr q (xs @ [x]) \<Longrightarrow> fst (deq q) = x \<and> repr (snd (deq q)) xs"
begin

lemma fold_enq_repr:
  "repr q ys \<Longrightarrow> \<forall>x \<in> set xs. item x \<Longrightarrow> distinct (xs @ ys) \<Longrightarrow>
   repr (fold enq xs q) (rev xs @ ys)"
proof (induction xs arbitrary: q ys)
  case Nil
  then show ?case by simp
next
  case (Cons x xs)
  then have "repr (enq x q) (x # ys)" by (auto intro: enq_repr)
  then have "repr (fold enq xs (enq x q)) (rev xs @ x # ys)"
    using Cons by (intro Cons.IH) auto
  then show ?case by simp
qed

lemma drain_repr: "repr q (rev xs) \<Longrightarrow> drain deq (length xs) q = xs"
proof (induction xs arbitrary: q)
  case Nil
  then show ?case by simp
next
  case (Cons x xs)
  then have "fst (deq q) = x" "repr (snd (deq q)) (rev xs)"
    using deq_repr [of q "rev xs" x] by auto
  then show ?case
    using Cons.IH by (simp add: split_beta)
qed

lemma fifo_order:
  "repr q [] \<Longrightarrow> \<forall>x \<in> set xs. item x \<Longrightarrow> distinct xs \<Longrightarrow>
   drain deq (length xs) (fold enq xs q) = xs"
  using fold_enq_repr [of q "[]" xs] by (simp add: drain_repr)

end

interpretation dlq: kqueue "list_enqueue head" "list_dequeue head" "\<lambda>h xs. dll h head xs"
    "\<lambda>p. p \<noteq> head" for head
  by unfold_locales (auto simp: list_enqueue_dll list_dequeue_dll)

interpretation llq: kqueue "\<lambda>p xs. the (ll_enqueue p xs)" "\<lambda>xs. the (ll_dequeue xs)"
    "\<lambda>q xs. q = xs" "\<lambda>_. True"
  by unfold_locales (auto simp: ll_enqueue_def ll_dequeue_def)

section \<open>Properties\<close>

text \<open>
  C14. Refinement of the list primitives: on a ring that represents \<open>xs\<close>, every macro of
  \<^verbatim>\<open>list.h\<close> leaves a ring that represents the result of the list operation, whenever
  it is applied inside its domain, and takes out the item the list operation takes out.
\<close>

theorem list_ops_refine:
  assumes "dll h head xs"
  shows "(p \<noteq> head \<and> ll_enqueue p xs = Some ys \<longrightarrow> dll (list_enqueue head p h) head ys) \<and>
         (p \<noteq> head \<and> ll_add p xs = Some ys \<longrightarrow> dll (list_add head p h) head ys) \<and>
         (ll_dequeue xs = Some (p, ys) \<longrightarrow>
            fst (list_dequeue head h) = p \<and> dll (snd (list_dequeue head h)) head ys) \<and>
         (ll_remove xs = Some (p, ys) \<longrightarrow>
            fst (list_remove head h) = p \<and> dll (snd (list_remove head h)) head ys) \<and>
         (ll_del p xs = Some ys \<longrightarrow> dll (list_del head p h) head ys) \<and>
         (list_isempty head h \<longleftrightarrow> xs = [])"
  using assms
  by (auto simp: klist_simps list_enqueue_dll list_add_dll list_dequeue_dll list_remove_dll
      dll_isempty intro: ll_del_dll [unfolded ll_del_Some])

theorem list_ops_refine_witness:
  "dll (list_enqueue 0 2 (list_enqueue 0 1 (list_init 0 \<lparr>lnext = id, lprev = id\<rparr>))) 0 [2, 1] \<and>
   dll (list_del 0 2 (list_enqueue 0 2 (list_enqueue 0 1 (list_init 0 \<lparr>lnext = id, lprev = id\<rparr>)))) 0 [1]"
proof -
  let ?h = "list_enqueue 0 2 (list_enqueue 0 1 (list_init 0 \<lparr>lnext = id, lprev = id\<rparr>))"
  have d: "dll ?h 0 [2, 1]"
    by (simp add: dll_def list_op_defs)
  show ?thesis
    using d list_ops_refine [OF d, of 2 "[1]"] by (simp add: ll_del_def)
qed

text \<open>
  C30. The rings are FIFO queues: items enqueued one after the other with
  \<open>list_enqueue\<close> come out of \<open>list_dequeue\<close> in the order they went in.
\<close>

theorem list_fifo:
  assumes "distinct xs" "head \<notin> set xs"
  shows "drain (list_dequeue head) (length xs) (fold (list_enqueue head) xs (list_init head h)) = xs"
  using assms by (intro dlq.fifo_order list_init_dll) auto

theorem list_fifo_witness:
  "drain (list_dequeue 0) 3 (fold (list_enqueue 0) [5, 3, 9] (list_init 0 \<lparr>lnext = id, lprev = id\<rparr>))
   = [5, 3, 9]"
  using list_fifo [of "[5, 3, 9]" 0 "\<lparr>lnext = id, lprev = id\<rparr>"] by (simp add: numeral_3_eq_3)

text \<open>
  \<open>list_add_next\<close> does not set the \<open>prev\<close> link of the item that follows the new
  one. Deleting that following item afterwards therefore unlinks the new item too: from
  \<open>xs, a, b, ys\<close>, adding \<open>n\<close> after \<open>a\<close> and then deleting \<open>b\<close> leaves
  \<open>xs, a, ys\<close> and \<open>n\<close> is lost.
\<close>

theorem list_add_next_then_del_loses_item:
  assumes "dll h head (xs @ a # b # ys)" "n \<notin> set (head # xs @ a # b # ys)"
  shows "fseg (list_add_next a n h) head (xs @ a # n # b # ys) head \<and>
         fseg (list_del head b (list_add_next a n h)) head (xs @ a # ys) head"
proof -
  have d: "dseg h head (xs @ [a]) b" "dseg h b ys head" "distinct (head # xs @ a # b # ys)"
    using assms(1) dseg_append [of h head "xs @ [a]" b ys head] by (auto simp: dll_def)
  have a: "lprev h b = a" "lnext h b = hd (ys @ [head])" "a \<noteq> head"
    using dseg_last [OF d(1)] dseg_first [OF d(2)] d(3) by (auto split: list.splits)
  have f: "fseg h head (xs @ a # b # ys) head"
    using assms(1) by (auto simp: dll_def intro: dseg_imp_fseg)
  then have "fseg h head xs a" "fseg h b ys head"
    by (auto simp: fseg_append)
  then have "fseg (list_del head b (list_add_next a n h)) head (xs @ a # ys) head"
    using a assms(2) d(3) by (cases ys) (auto simp: fseg_append list_op_defs)
  then show ?thesis
    using list_add_next_fseg [OF f] d(3) assms(2) by simp
qed

theorem list_add_next_then_del_loses_item_witness:
  "fseg (list_del 0 2 (list_add_next 1 7 (list_enqueue 0 1 (list_enqueue 0 2
     (list_init 0 \<lparr>lnext = id, lprev = id\<rparr>))))) 0 [1] 0"
proof -
  let ?h = "list_enqueue 0 1 (list_enqueue 0 2 (list_init 0 \<lparr>lnext = id, lprev = id\<rparr>))"
  have "dll ?h 0 ([] @ 1 # 2 # [])"
    by (simp add: dll_def list_op_defs)
  from list_add_next_then_del_loses_item [OF this, of 7] show ?thesis by simp
qed

end
