(* ===== verification/KId.thy ===== *)
theory KId
  imports Machine
begin

text \<open>
  The identifier allocator of \<^verbatim>\<open>kernel/id.c\<close>: one page-sized bitmap with a hint for
  each of process ids, thread ids and timer ids. The allocator is shown to implement a set of
  ids in use, from which an allocation takes an unused one.
\<close>

section \<open>The allocator\<close>

definition MAX_INT_VAL :: u32 where "MAX_INT_VAL = 0xFFFFFFFF"
definition FIRST_USER_PID :: int where "FIRST_USER_PID = 500"
definition FIRST_USER_TID :: int where "FIRST_USER_TID = 500"

text \<open>The loop that skips the full words. Running past the page is \<open>None\<close>.\<close>

function scan_full :: "u32 list \<Rightarrow> nat \<Rightarrow> nat option" where
  "scan_full bitmap hint =
     (if hint < length bitmap
      then if bitmap ! hint = MAX_INT_VAL then scan_full bitmap (Suc hint) else Some hint
      else None)"
  by pat_completeness auto
termination
  by (relation "measure (\<lambda>(bm, i). length bm - i)") auto

declare scan_full.simps [simp del]

definition alloc_id :: "u32 list \<Rightarrow> nat \<Rightarrow> (int \<times> u32 list \<times> nat) option" where
  "alloc_id bitmap hint0 = do {
     w0 \<leftarrow> aget bitmap hint0;
     hint \<leftarrow> (if w0 = MAX_INT_VAL then scan_full bitmap 0 else Some hint0);
     if w0 = MAX_INT_VAL \<and> hint > 4096 div 32 then Some (- 1, bitmap, hint0)
     else do {
       w \<leftarrow> aget bitmap hint;
       index \<leftarrow> ffc w;
       w' \<leftarrow> set_bit_k w index;
       bitmap' \<leftarrow> aput bitmap hint w';
       Some (int index + int hint * 32, bitmap', hint)
     }
   }"

definition dealloc_id :: "int \<Rightarrow> u32 list \<Rightarrow> (u32 list \<times> nat) option" where
  "dealloc_id idn bitmap = do {
     check (0 \<le> idn);
     let hint = nat (cdiv idn 32);
     let index = nat (cmod idn 32);
     w \<leftarrow> aget bitmap hint;
     w' \<leftarrow> clear_bit_k w index;
     bitmap' \<leftarrow> aput bitmap hint w';
     Some (bitmap', hint)
   }"

text \<open>A bitmap is one page of 32-bit words.\<close>

definition NWORDS :: nat where "NWORDS = 4096 div 4"

record idstate =
  pidbitmap :: "u32 list"
  tidbitmap :: "u32 list"
  timeridbitmap :: "u32 list"
  pidhint :: nat
  tidhint :: nat
  timeridhint :: nat

definition id_init :: idstate where
  "id_init = \<lparr>pidbitmap = replicate NWORDS 0, tidbitmap = replicate NWORDS 0,
     timeridbitmap = replicate NWORDS 0, pidhint = 0, tidhint = 0, timeridhint = 0\<rparr>"

definition alloc_pid :: "idstate \<Rightarrow> (int \<times> idstate) option" where
  "alloc_pid s = do {
     (r, bm, h) \<leftarrow> alloc_id (pidbitmap s) (pidhint s);
     Some (FIRST_USER_PID + r, s\<lparr>pidbitmap := bm, pidhint := h\<rparr>)
   }"

definition alloc_tid :: "idstate \<Rightarrow> (int \<times> idstate) option" where
  "alloc_tid s = do {
     (r, bm, h) \<leftarrow> alloc_id (tidbitmap s) (tidhint s);
     Some (FIRST_USER_TID + r, s\<lparr>tidbitmap := bm, tidhint := h\<rparr>)
   }"

definition alloc_timerid :: "idstate \<Rightarrow> (int \<times> idstate) option" where
  "alloc_timerid s = do {
     (r, bm, h) \<leftarrow> alloc_id (timeridbitmap s) (timeridhint s);
     Some (1 + r, s\<lparr>timeridbitmap := bm, timeridhint := h\<rparr>)
   }"

definition dealloc_pid :: "int \<Rightarrow> idstate \<Rightarrow> idstate option" where
  "dealloc_pid pid s = do {
     (bm, h) \<leftarrow> dealloc_id (pid - FIRST_USER_PID) (pidbitmap s);
     Some (s\<lparr>pidbitmap := bm, pidhint := h\<rparr>)
   }"

definition dealloc_tid :: "int \<Rightarrow> idstate \<Rightarrow> idstate option" where
  "dealloc_tid tid s = do {
     (bm, h) \<leftarrow> dealloc_id (tid - FIRST_USER_TID) (tidbitmap s);
     Some (s\<lparr>tidbitmap := bm, tidhint := h\<rparr>)
   }"

definition dealloc_timerid :: "int \<Rightarrow> idstate \<Rightarrow> idstate option" where
  "dealloc_timerid timer_id s = do {
     (bm, h) \<leftarrow> dealloc_id (timer_id - 1) (timeridbitmap s);
     Some (s\<lparr>timeridbitmap := bm, timeridhint := h\<rparr>)
   }"

section \<open>Abstraction to the set of ids in use\<close>

definition ids_of :: "u32 list \<Rightarrow> nat set" where
  "ids_of bm = {i. i div 32 < length bm \<and> bit (bm ! (i div 32)) (i mod 32)}"

text \<open>
  The bitmap is one page, and only its first 129 words are ever allocated from: the bound
  check of \<open>alloc_id\<close> admits word 128.
\<close>

definition NIDS :: nat where "NIDS = 129 * 32"

definition id_wf :: "u32 list \<Rightarrow> nat \<Rightarrow> bool" where
  "id_wf bm hint \<longleftrightarrow> length bm = 1024 \<and> hint \<le> 128 \<and> ids_of bm \<subseteq> {..<NIDS}"

lemma MAX_INT_VAL_eq: "MAX_INT_VAL = - 1"
  by (simp add: MAX_INT_VAL_def)

lemma scan_full_Some:
  "scan_full bm i = Some k \<Longrightarrow>
   i \<le> k \<and> k < length bm \<and> bm ! k \<noteq> - 1 \<and> (\<forall>j. i \<le> j \<and> j < k \<longrightarrow> bm ! j = - 1)"
proof (induction bm i rule: scan_full.induct)
  case (1 bm i)
  show ?case
  proof (cases "i < length bm \<and> bm ! i = MAX_INT_VAL")
    case True
    then have "scan_full bm (Suc i) = Some k"
      using "1.prems" by (simp add: scan_full.simps [of bm i])
    then show ?thesis
      using "1.IH" True by (auto simp: MAX_INT_VAL_eq) (metis Suc_leI le_neq_implies_less)
  next
    case False
    then show ?thesis
      using "1.prems" by (auto simp: scan_full.simps [of bm i] MAX_INT_VAL_eq split: if_splits)
  qed
qed

lemma scan_full_total:
  "i \<le> k \<Longrightarrow> k < length bm \<Longrightarrow> bm ! k \<noteq> - 1 \<Longrightarrow> \<exists>j. scan_full bm i = Some j"
proof (induction bm i rule: scan_full.induct)
  case (1 bm i)
  then show ?case
    by (cases "i = k") (auto simp: scan_full.simps [of bm k] scan_full.simps [of bm i] MAX_INT_VAL_eq)
qed

lemma ids_of_word: "j < 32 \<Longrightarrow> i < length bm \<Longrightarrow> i * 32 + j \<in> ids_of bm \<longleftrightarrow> bit (bm ! i) j"
  by (simp add: ids_of_def)

lemma id_split: "\<exists>i j. (n::nat) = i * 32 + j \<and> j < 32 \<and> i = n div 32 \<and> j = n mod 32"
  by (intro exI [of _ "n div 32"] exI [of _ "n mod 32"]) simp

lemma ids_of_set:
  assumes "i < length bm" "j < 32"
  shows "ids_of (bm[i := set_bit j (bm ! i)]) = insert (i * 32 + j) (ids_of bm)"
proof (intro set_eqI)
  fix n :: nat
  obtain a b where n: "n = a * 32 + b" "b < 32" using id_split by blast
  then show "n \<in> ids_of (bm[i := set_bit j (bm ! i)]) \<longleftrightarrow> n \<in> insert (i * 32 + j) (ids_of bm)"
    using assms by (cases "a = i") (auto simp: ids_of_def)
qed

lemma ids_of_unset:
  assumes "i < length bm" "j < 32"
  shows "ids_of (bm[i := unset_bit j (bm ! i)]) = ids_of bm - {i * 32 + j}"
proof (intro set_eqI)
  fix n :: nat
  obtain a b where n: "n = a * 32 + b" "b < 32" using id_split by blast
  then show "n \<in> ids_of (bm[i := unset_bit j (bm ! i)]) \<longleftrightarrow> n \<in> ids_of bm - {i * 32 + j}"
    using assms by (cases "a = i") (auto simp: ids_of_def)
qed

lemma id_wf_high_word:
  assumes "id_wf bm h" "129 \<le> i" "i < 1024"
  shows "bm ! i = 0"
proof -
  have "\<not> bit (bm ! i) j" if "j < 32" for j
  proof
    assume "bit (bm ! i) j"
    then have "i * 32 + j \<in> ids_of bm"
      using that assms ids_of_word [of j i bm] by (simp add: id_wf_def)
    then have "i * 32 + j < 129 * 32"
      using assms(1) by (auto simp: id_wf_def NIDS_def)
    then show False using assms(2) by simp
  qed
  then show ?thesis by (simp add: u32_zero_iff)
qed

lemma ids_of_word_full: "id_wf bm h \<Longrightarrow> i < 1024 \<Longrightarrow> bm ! i = - 1 \<Longrightarrow> i \<le> 128"
  using id_wf_high_word [of bm h i] by (cases "129 \<le> i") auto

lemma alloc_word:
  assumes "id_wf bm h" "k \<le> 128" "bm ! k \<noteq> - 1"
  obtains j where "ffc (bm ! k) = Some j" "j < 32" "k * 32 + j < NIDS" "k * 32 + j \<notin> ids_of bm"
    "ids_of (bm[k := set_bit j (bm ! k)]) = insert (k * 32 + j) (ids_of bm)"
    "id_wf (bm[k := set_bit j (bm ! k)]) k"
proof -
  have k: "k < length bm" using assms by (simp add: id_wf_def)
  from assms(3) obtain j where f: "ffc (bm ! k) = Some j"
    using ffc_None_iff by blast
  then have j: "j < 32" "\<not> bit (bm ! k) j" by (auto simp: ffc_Some_iff)
  have eq: "ids_of (bm[k := set_bit j (bm ! k)]) = insert (k * 32 + j) (ids_of bm)"
    using ids_of_set [OF k j(1)] .
  have lt: "k * 32 + j < NIDS" using assms(2) j(1) by (simp add: NIDS_def)
  have "id_wf (bm[k := set_bit j (bm ! k)]) k"
    using assms eq lt by (simp add: id_wf_def)
  then show ?thesis
    using that [OF f j(1) lt _ eq] j k by (simp add: ids_of_word)
qed

lemma alloc_id_fresh:
  assumes wf: "id_wf bm h" and free: "ids_of bm \<noteq> {..<NIDS}"
  shows "\<exists>n bm' h'. alloc_id bm h = Some (int n, bm', h') \<and> n < NIDS \<and> n \<notin> ids_of bm \<and>
           ids_of bm' = insert n (ids_of bm) \<and> id_wf bm' h'"
proof -
  have len: "length bm = 1024" and h: "h \<le> 128" using wf by (auto simp: id_wf_def)
  obtain k where k: "k \<le> 128" "bm ! k \<noteq> - 1"
    and ka: "if bm ! h = - 1 then scan_full bm 0 = Some k else k = h"
  proof (cases "bm ! h = - 1")
    case True
    obtain n where n: "n < NIDS" "n \<notin> ids_of bm"
      using free wf by (auto simp: id_wf_def)
    have "n div 32 < 129" using n(1) by (simp add: NIDS_def less_mult_imp_div_less)
    moreover have "bm ! (n div 32) \<noteq> - 1"
      using n(2) \<open>n div 32 < 129\<close> len by (auto simp: ids_of_def)
    ultimately obtain k where s: "scan_full bm 0 = Some k"
      using scan_full_total [of 0 "n div 32" bm] len by auto
    have "k \<le> n div 32"
      using scan_full_Some [OF s] \<open>bm ! (n div 32) \<noteq> - 1\<close> by (meson le0 not_le)
    then show ?thesis
      using that [of k] s scan_full_Some [OF s] True \<open>n div 32 < 129\<close> by simp
  next
    case False
    then show ?thesis using that h by simp
  qed
  obtain j where j: "ffc (bm ! k) = Some j" "j < 32" "k * 32 + j < NIDS" "k * 32 + j \<notin> ids_of bm"
    "ids_of (bm[k := set_bit j (bm ! k)]) = insert (k * 32 + j) (ids_of bm)"
    "id_wf (bm[k := set_bit j (bm ! k)]) k"
    using alloc_word [OF wf k] .
  have "alloc_id bm h = Some (int (k * 32 + j), bm[k := set_bit j (bm ! k)], k)"
    using ka k j(1,2) len h by (auto simp: alloc_id_def MAX_INT_VAL_eq split: if_splits)
  then show ?thesis using j by blast
qed

lemma alloc_id_exhausted:
  assumes wf: "id_wf bm h" and full: "ids_of bm = {..<NIDS}"
  shows "alloc_id bm h = Some (- 1, bm, h)"
proof -
  have len: "length bm = 1024" and h: "h \<le> 128" using wf by (auto simp: id_wf_def)
  have all: "bm ! i = - 1" if "i \<le> 128" for i
  proof -
    have "i * 32 + j \<in> ids_of bm" if "j < 32" for j
      using full that \<open>i \<le> 128\<close> by (simp add: NIDS_def)
    then show ?thesis
      using ids_of_word len that by (simp add: u32_full_iff)
  qed
  obtain k where s: "scan_full bm 0 = Some k"
    using scan_full_total [of 0 129 bm] id_wf_high_word [OF wf, of 129] len by auto
  then have "k > 128"
    using scan_full_Some [OF s] all by (metis not_le)
  then show ?thesis
    using all [OF h] s h len by (simp add: alloc_id_def MAX_INT_VAL_eq)
qed

lemma dealloc_id_in_use:
  assumes wf: "id_wf bm h" and n: "n \<in> ids_of bm"
  shows "\<exists>bm' h'. dealloc_id (int n) bm = Some (bm', h') \<and> ids_of bm' = ids_of bm - {n} \<and> id_wf bm' h'"
proof -
  let ?bm = "bm[n div 32 := unset_bit (n mod 32) (bm ! (n div 32))]"
  have lt: "n div 32 < 129" "length bm = 1024"
    using wf n by (auto simp: id_wf_def NIDS_def less_mult_imp_div_less)
  have "nat (cdiv (int n) 32) = n div 32" "nat (cmod (int n) 32) = n mod 32"
    by (simp_all add: cdiv_nonneg cmod_nonneg nat_div_distrib nat_mod_distrib)
  then have "dealloc_id (int n) bm = Some (?bm, n div 32)"
    using lt by (simp add: dealloc_id_def Let_def)
  moreover have "ids_of ?bm = ids_of bm - {n}"
    using ids_of_unset [of "n div 32" bm "n mod 32"] lt by simp
  ultimately show ?thesis
    using wf lt by (auto simp: id_wf_def)
qed

section \<open>The contract of an id space\<close>

datatype id_op = Alloc | Free int

text \<open>
  A client's run over an id space: it keeps the ids it holds, and frees only those. The
  value below the first id is what the allocators return when no id is left.
\<close>

fun id_run :: "('s \<Rightarrow> (int \<times> 's) option) \<Rightarrow> (int \<Rightarrow> 's \<Rightarrow> 's option) \<Rightarrow> int \<Rightarrow>
    's \<Rightarrow> int list \<Rightarrow> id_op list \<Rightarrow> ('s \<times> int list) option" where
  "id_run alloc dealloc base s held [] = Some (s, held)"
| "id_run alloc dealloc base s held (Alloc # ops) = do {
     (i, s) \<leftarrow> alloc s;
     id_run alloc dealloc base s (if i < base then held else i # held) ops
   }"
| "id_run alloc dealloc base s held (Free i # ops) =
     (if i \<in> set held then do {
        s \<leftarrow> dealloc i s;
        id_run alloc dealloc base s (remove1 i held) ops
      }
      else id_run alloc dealloc base s held ops)"

locale id_space =
  fixes alloc :: "'s \<Rightarrow> (int \<times> 's) option"
    and dealloc :: "int \<Rightarrow> 's \<Rightarrow> 's option"
    and used :: "'s \<Rightarrow> int set"
    and inv :: "'s \<Rightarrow> bool"
    and base :: int
  assumes alloc_fresh: "inv s \<Longrightarrow> used s \<noteq> {base..<base + int NIDS} \<Longrightarrow>
      \<exists>i s'. alloc s = Some (i, s') \<and> base \<le> i \<and> i \<notin> used s \<and> used s' = insert i (used s) \<and> inv s'"
    and alloc_full: "inv s \<Longrightarrow> used s = {base..<base + int NIDS} \<Longrightarrow> alloc s = Some (base - 1, s)"
    and dealloc_held: "inv s \<Longrightarrow> i \<in> used s \<Longrightarrow>
      \<exists>s'. dealloc i s = Some s' \<and> used s' = used s - {i} \<and> inv s'"
begin

lemma run_distinct:
  "inv s \<Longrightarrow> distinct held \<Longrightarrow> used s = set held \<Longrightarrow>
   \<exists>s' held'. id_run alloc dealloc base s held ops = Some (s', held') \<and>
     distinct held' \<and> used s' = set held' \<and> inv s'"
proof (induction ops arbitrary: s held)
  case Nil
  then show ?case by simp
next
  case (Cons op ops)
  show ?case
  proof (cases op)
    case Alloc
    show ?thesis
    proof (cases "used s = {base..<base + int NIDS}")
      case True
      then show ?thesis
        using Alloc Cons alloc_full by simp
    next
      case False
      from alloc_fresh [OF Cons.prems(1) False] obtain i s' where
        "alloc s = Some (i, s')" "base \<le> i" "i \<notin> used s" "used s' = insert i (used s)" "inv s'"
        by blast
      then show ?thesis
        using Alloc Cons.prems Cons.IH [of s' "i # held"] by simp
    qed
  next
    case (Free i)
    show ?thesis
    proof (cases "i \<in> set held")
      case True
      with dealloc_held [OF Cons.prems(1), of i] Cons.prems obtain s' where
        "dealloc i s = Some s'" "used s' = used s - {i}" "inv s'" by auto
      then show ?thesis
        using Free True Cons.prems Cons.IH [of s' "remove1 i held"] by simp
    next
      case False
      then show ?thesis using Free Cons by simp
    qed
  qed
qed

lemma alloc_dealloc_restores:
  assumes "inv s" "used s \<noteq> {base..<base + int NIDS}"
  shows "\<exists>i s1 s2. alloc s = Some (i, s1) \<and> dealloc i s1 = Some s2 \<and> used s2 = used s"
  using alloc_fresh [OF assms] dealloc_held by (metis Diff_insert_absorb insertI1)

end

definition used_ids :: "int \<Rightarrow> u32 list \<Rightarrow> int set" where
  "used_ids base bm = (\<lambda>n. base + int n) ` ids_of bm"

lemma used_ids_range: "used_ids b bm = {b..<b + int NIDS} \<longleftrightarrow> ids_of bm = {..<NIDS}"
proof -
  have "{b..<b + int NIDS} = (\<lambda>n. b + int n) ` {..<NIDS}"
  proof (intro set_eqI iffI)
    fix x assume "x \<in> {b..<b + int NIDS}"
    then show "x \<in> (\<lambda>n. b + int n) ` {..<NIDS}"
      by (intro image_eqI [of _ _ "nat (x - b)"]) auto
  qed auto
  moreover have "inj (\<lambda>n. b + int n)" by (simp add: inj_def)
  ultimately show ?thesis
    by (simp add: used_ids_def inj_image_eq_iff)
qed

lemma alloc_used:
  assumes "id_wf bm h" "used_ids b bm \<noteq> {b..<b + int NIDS}"
  obtains n bm' h' where "alloc_id bm h = Some (int n, bm', h')" "b + int n \<notin> used_ids b bm"
    "used_ids b bm' = insert (b + int n) (used_ids b bm)" "id_wf bm' h'"
proof -
  have "ids_of bm \<noteq> {..<NIDS}" using assms(2) by (simp add: used_ids_range)
  from alloc_id_fresh [OF assms(1) this] obtain n bm' h' where
    "alloc_id bm h = Some (int n, bm', h')" "n \<notin> ids_of bm" "ids_of bm' = insert n (ids_of bm)"
    "id_wf bm' h'" by blast
  then show ?thesis
    using that [of n bm' h'] by (force simp: used_ids_def)
qed

lemma alloc_used_full:
  "id_wf bm h \<Longrightarrow> used_ids b bm = {b..<b + int NIDS} \<Longrightarrow> alloc_id bm h = Some (- 1, bm, h)"
  using alloc_id_exhausted by (simp add: used_ids_range)

lemma dealloc_used:
  assumes "id_wf bm h" "i \<in> used_ids b bm"
  obtains bm' h' where "dealloc_id (i - b) bm = Some (bm', h')"
    "used_ids b bm' = used_ids b bm - {i}" "id_wf bm' h'"
proof -
  from assms(2) obtain n where n: "i = b + int n" "n \<in> ids_of bm" by (auto simp: used_ids_def)
  from dealloc_id_in_use [OF assms(1) n(2)] obtain bm' h' where
    d: "dealloc_id (int n) bm = Some (bm', h')" "ids_of bm' = ids_of bm - {n}" "id_wf bm' h'" by blast
  moreover have "used_ids b bm' = used_ids b bm - {i}"
    unfolding used_ids_def d(2) n(1) by (simp add: image_set_diff inj_def)
  ultimately show ?thesis
    using that [of bm' h'] n(1) by simp
qed

lemma id_space_of_bitmap:
  assumes alloc: "\<And>s. alloc s = do {
       (r, bm, h) \<leftarrow> alloc_id (bm_of s) (hint_of s); Some (base + r, upd s bm h) }"
    and dealloc: "\<And>i s. dealloc i s = do { (bm, h) \<leftarrow> dealloc_id (i - base) (bm_of s); Some (upd s bm h) }"
    and upd: "\<And>s bm h. bm_of (upd s bm h) = bm" "\<And>s bm h. hint_of (upd s bm h) = h"
      "\<And>s. upd s (bm_of s) (hint_of s) = s"
  shows "id_space alloc dealloc (\<lambda>s. used_ids base (bm_of s)) (\<lambda>s. id_wf (bm_of s) (hint_of s)) base"
proof
  fix s
  assume wf: "id_wf (bm_of s) (hint_of s)"
  show "\<exists>i s'. alloc s = Some (i, s') \<and> base \<le> i \<and> i \<notin> used_ids base (bm_of s) \<and>
      used_ids base (bm_of s') = insert i (used_ids base (bm_of s)) \<and> id_wf (bm_of s') (hint_of s')"
    if free: "used_ids base (bm_of s) \<noteq> {base..<base + int NIDS}"
  proof -
    obtain n bm' h' where "alloc_id (bm_of s) (hint_of s) = Some (int n, bm', h')"
      "base + int n \<notin> used_ids base (bm_of s)"
      "used_ids base bm' = insert (base + int n) (used_ids base (bm_of s))" "id_wf bm' h'"
      using alloc_used [OF wf free] .
    then show ?thesis by (simp add: alloc upd)
  qed
  show "alloc s = Some (base - 1, s)" if "used_ids base (bm_of s) = {base..<base + int NIDS}"
    using alloc_used_full [OF wf that] by (simp add: alloc upd)
  show "\<exists>s'. dealloc i s = Some s' \<and> used_ids base (bm_of s') = used_ids base (bm_of s) - {i} \<and>
      id_wf (bm_of s') (hint_of s')" if held: "i \<in> used_ids base (bm_of s)" for i
  proof -
    obtain bm' h' where "dealloc_id (i - base) (bm_of s) = Some (bm', h')"
      "used_ids base bm' = used_ids base (bm_of s) - {i}" "id_wf bm' h'"
      using dealloc_used [OF wf held] .
    then show ?thesis by (simp add: dealloc upd)
  qed
qed

interpretation pid: id_space alloc_pid dealloc_pid
    "\<lambda>s. used_ids FIRST_USER_PID (pidbitmap s)" "\<lambda>s. id_wf (pidbitmap s) (pidhint s)" FIRST_USER_PID
  by (rule id_space_of_bitmap [where upd = "\<lambda>s bm h. s\<lparr>pidbitmap := bm, pidhint := h\<rparr>"])
    (simp_all add: alloc_pid_def dealloc_pid_def)

interpretation tid: id_space alloc_tid dealloc_tid
    "\<lambda>s. used_ids FIRST_USER_TID (tidbitmap s)" "\<lambda>s. id_wf (tidbitmap s) (tidhint s)" FIRST_USER_TID
  by (rule id_space_of_bitmap [where upd = "\<lambda>s bm h. s\<lparr>tidbitmap := bm, tidhint := h\<rparr>"])
    (simp_all add: alloc_tid_def dealloc_tid_def)

interpretation timerid: id_space alloc_timerid dealloc_timerid
    "\<lambda>s. used_ids 1 (timeridbitmap s)" "\<lambda>s. id_wf (timeridbitmap s) (timeridhint s)" 1
  by (rule id_space_of_bitmap [where upd = "\<lambda>s bm h. s\<lparr>timeridbitmap := bm, timeridhint := h\<rparr>"])
    (simp_all add: alloc_timerid_def dealloc_timerid_def)

lemma id_init_wf:
  "ids_of (replicate NWORDS 0) = {}" "id_wf (replicate NWORDS 0) 0"
  by (auto simp: ids_of_def id_wf_def NWORDS_def [symmetric]) (simp add: NWORDS_def)

section \<open>Properties\<close>

text \<open>
  C27. Process ids are unique. From the state \<open>id_init\<close> sets up, every sequence of
  \<open>alloc_pid\<close> and \<open>dealloc_pid\<close> calls (freeing only ids that are held) runs without
  leaving the bitmap, hands out no id that is still held, and leaves in the bitmap exactly the
  ids that are held.
\<close>

theorem pids_unique:
  "\<exists>s held. id_run alloc_pid dealloc_pid FIRST_USER_PID id_init [] ops = Some (s, held) \<and>
     distinct held \<and> used_ids FIRST_USER_PID (pidbitmap s) = set held"
  using pid.run_distinct [of id_init "[]" ops]
  by (auto simp: id_init_def id_init_wf used_ids_def)

text \<open>
  C18. Allocation and release of a single id space word by word: with an unused id left,
  \<open>alloc_id\<close> succeeds with an id that is not in use and adds exactly that id to the
  bitmap; with none left it returns -1 and changes nothing; and \<open>dealloc_id\<close> takes exactly
  the given id out.
\<close>

theorem alloc_id_refines_set:
  assumes "id_wf bm h"
  shows "(ids_of bm \<noteq> {..<NIDS} \<longrightarrow> (\<exists>n bm' h'. alloc_id bm h = Some (int n, bm', h') \<and>
            n \<notin> ids_of bm \<and> ids_of bm' = insert n (ids_of bm) \<and> id_wf bm' h')) \<and>
         (ids_of bm = {..<NIDS} \<longrightarrow> alloc_id bm h = Some (- 1, bm, h)) \<and>
         (n \<in> ids_of bm \<longrightarrow> (\<exists>bm' h'. dealloc_id (int n) bm = Some (bm', h') \<and>
            ids_of bm' = ids_of bm - {n} \<and> id_wf bm' h'))"
  using alloc_id_fresh [OF assms] alloc_id_exhausted [OF assms] dealloc_id_in_use [OF assms]
  by blast

theorem alloc_id_refines_set_witness:
  "id_wf (replicate NWORDS 0) 0 \<and>
   (\<exists>n bm' h'. alloc_id (replicate NWORDS 0) 0 = Some (int n, bm', h') \<and> ids_of bm' = {n})"
proof -
  have "{..<NIDS} \<noteq> {}" unfolding NIDS_def by (simp add: lessThan_empty_iff)
  then show ?thesis
    using alloc_id_refines_set [OF id_init_wf(2)] id_init_wf by fastforce
qed

text \<open>
  Running out of process ids is not reported as an error: when every id is in use,
  \<open>alloc_pid\<close> returns 499, a positive number below the first user pid, because the -1 of
  \<open>alloc_id\<close> is added to \<open>FIRST_USER_PID\<close> without a test.
\<close>

theorem alloc_pid_exhausted:
  assumes "id_wf (pidbitmap s) (pidhint s)" "ids_of (pidbitmap s) = {..<NIDS}"
  shows "alloc_pid s = Some (499, s)"
  using pid.alloc_full [of s] assms by (simp add: used_ids_range FIRST_USER_PID_def)

theorem alloc_pid_exhausted_witness:
  "alloc_pid (id_init\<lparr>pidbitmap := map (\<lambda>i. if i < 129 then - 1 else 0) [0..<NWORDS]\<rparr>) =
   Some (499, id_init\<lparr>pidbitmap := map (\<lambda>i. if i < 129 then - 1 else 0) [0..<NWORDS]\<rparr>)"
proof -
  let ?bm = "map (\<lambda>i. if i < 129 then - 1 else (0 :: u32)) [0..<NWORDS]"
  have div: "n div 32 < 129 \<longleftrightarrow> n < NIDS" for n :: nat
    by (simp add: NIDS_def div_less_iff_less_mult)
  have lt: "n div 32 < NWORDS" if "n < NIDS" for n :: nat
    using that by (simp add: NIDS_def NWORDS_def less_mult_imp_div_less)
  have full: "ids_of ?bm = {..<NIDS}"
    using lt by (auto simp: ids_of_def div split: if_splits)
  have wf: "id_wf ?bm 0"
    unfolding id_wf_def full by (simp add: NWORDS_def)
  show ?thesis
    by (rule alloc_pid_exhausted) (use full wf in \<open>simp_all add: id_init_def\<close>)
qed

end
