(* ===== verification/KHash.thy ===== *)
theory KHash
  imports KId
begin

text \<open>
  The chained hash tables of the kernel: a page of bucket heads and a \<open>next\<close> link in every
  object. Threads, processes, interrupt handlers and synchronisation objects have such a table.
  \<open>chain\<close> relates the links to the list of the objects of a bucket; inserting and unlinking
  are shown to act on these lists, and the locale \<open>bucket_dir\<close> gives the laws of a
  directory that a table with unique keys obeys.
\<close>

section \<open>Tables\<close>

record htab =
  heads :: "addr option list"
  links :: "addr \<Rightarrow> addr option"

definition htab_empty :: htab where
  "htab_empty = \<lparr>heads = replicate NWORDS None, links = Map.empty\<rparr>"

definition hash_insert :: "nat \<Rightarrow> addr \<Rightarrow> htab \<Rightarrow> htab option" where
  "hash_insert i p h = do {
     first \<leftarrow> aget (heads h) i;
     hs \<leftarrow> aput (heads h) i (Some p);
     Some \<lparr>heads = hs, links = (links h)(p := first)\<rparr>
   }"

text \<open>
  The loop that unlinks \<open>p\<close> behind every link that points to it, up to the end of the
  chain. It has no result on a chain with a cycle.
\<close>

partial_function (option) unlink_walk ::
  "addr \<Rightarrow> addr option \<Rightarrow> (addr \<Rightarrow> addr option) \<Rightarrow> (addr \<Rightarrow> addr option) option" where
  "unlink_walk p link nx =
     (case link of
        None \<Rightarrow> Some nx
      | Some a \<Rightarrow>
          (let nx' = (if nx a = Some p then nx(a := nx p) else nx)
           in unlink_walk p (nx' a) nx'))"

definition hash_remove :: "nat \<Rightarrow> addr \<Rightarrow> htab \<Rightarrow> htab option" where
  "hash_remove i p h = do {
     first \<leftarrow> aget (heads h) i;
     if first = Some p then do {
       hs \<leftarrow> aput (heads h) i (links h p);
       Some (h\<lparr>heads := hs\<rparr>)
     } else do {
       nx \<leftarrow> unlink_walk p first (links h);
       Some (h\<lparr>links := nx\<rparr>)
     }
   }"

section \<open>Chains\<close>

fun chain :: "(addr \<Rightarrow> addr option) \<Rightarrow> addr option \<Rightarrow> addr list \<Rightarrow> bool" where
  "chain nx p [] \<longleftrightarrow> p = None"
| "chain nx p (x # xs) \<longleftrightarrow> p = Some x \<and> chain nx (nx x) xs"

lemma chain_None [simp]: "chain nx None xs \<longleftrightarrow> xs = []"
  by (cases xs) auto

lemma chain_Some: "chain nx (Some a) xs \<longleftrightarrow> (\<exists>ys. xs = a # ys \<and> chain nx (nx a) ys)"
  by (cases xs) auto

lemma chain_upd [simp]: "a \<notin> set xs \<Longrightarrow> chain (nx(a := v)) p xs \<longleftrightarrow> chain nx p xs"
  by (induction xs arbitrary: p) auto

lemma chain_unique: "chain nx p xs \<Longrightarrow> chain nx p ys \<Longrightarrow> xs = ys"
  by (induction xs arbitrary: p ys) (auto simp: chain_Some)

lemma chain_distinct_next: "chain nx p (a # xs) \<Longrightarrow> nx a = None \<or> nx a = Some (hd xs)"
  by (cases xs) auto

lemma unlink_walk_absent:
  "chain nx l xs \<Longrightarrow> p \<notin> set xs \<Longrightarrow> unlink_walk p l nx = Some nx"
proof (induction xs arbitrary: l)
  case Nil
  then show ?case by (simp add: unlink_walk.simps)
next
  case (Cons a xs)
  then have "nx a \<noteq> Some p" by (cases xs) auto
  then show ?case using Cons by (simp add: unlink_walk.simps)
qed

lemma unlink_walk_present:
  assumes "chain nx l (a # xs)" "distinct (a # xs)" "p \<in> set xs"
  shows "\<exists>nx'. unlink_walk p l nx = Some nx' \<and> chain nx' l (a # remove1 p xs) \<and>
    (\<forall>q. q \<notin> set (a # xs) \<longrightarrow> nx' q = nx q)"
  using assms
proof (induction xs arbitrary: l a)
  case (Cons b xs)
  show ?case
  proof (cases "b = p")
    case True
    let ?nx = "nx(a := nx p)"
    have "chain ?nx (nx p) xs" "p \<notin> set xs" using Cons.prems True by auto
    then have "unlink_walk p (nx p) ?nx = Some ?nx" by (rule unlink_walk_absent)
    then have "unlink_walk p l nx = Some ?nx" using Cons.prems True
      by (subst unlink_walk.simps) simp
    then show ?thesis using Cons.prems True by auto
  next
    case False
    then have "p \<in> set xs" using Cons.prems by simp
    then obtain nx' where nx': "unlink_walk p (nx a) nx = Some nx'"
      "chain nx' (nx a) (b # remove1 p xs)" "\<forall>q. q \<notin> set (b # xs) \<longrightarrow> nx' q = nx q"
      using Cons.IH [of "nx a" b] Cons.prems by auto
    have "unlink_walk p l nx = Some nx'" using Cons.prems False nx'(1)
      by (subst unlink_walk.simps) simp
    moreover have "nx' a = nx a" using nx'(3) Cons.prems(2) by simp
    ultimately show ?thesis using nx' Cons.prems False by auto
  qed
qed simp

section \<open>Representation of a table\<close>

definition htab_rep :: "htab \<Rightarrow> (nat \<Rightarrow> addr list) \<Rightarrow> bool" where
  "htab_rep h B \<longleftrightarrow> length (heads h) = NWORDS \<and>
     (\<forall>i<NWORDS. chain (links h) (heads h ! i) (B i) \<and> distinct (B i)) \<and>
     (\<forall>i<NWORDS. \<forall>j<NWORDS. i \<noteq> j \<longrightarrow> set (B i) \<inter> set (B j) = {})"

lemma htab_repD:
  assumes "htab_rep h B"
  shows "length (heads h) = NWORDS"
    and "\<And>i. i < NWORDS \<Longrightarrow> chain (links h) (heads h ! i) (B i)"
    and "\<And>i. i < NWORDS \<Longrightarrow> distinct (B i)"
    and "\<And>i j p. i < NWORDS \<Longrightarrow> j < NWORDS \<Longrightarrow> p \<in> set (B i) \<Longrightarrow> p \<in> set (B j) \<Longrightarrow> i = j"
  using assms by (auto simp: htab_rep_def)

lemma htab_rep_empty: "htab_rep htab_empty (\<lambda>_. [])"
  by (simp add: htab_rep_def htab_empty_def)

lemma hash_insert_rep:
  assumes "htab_rep h B" "i < NWORDS" "\<forall>j<NWORDS. p \<notin> set (B j)"
  obtains h' where "hash_insert i p h = Some h'" "htab_rep h' (B(i := p # B i))"
proof
  let ?h = "\<lparr>heads = (heads h)[i := Some p], links = (links h)(p := heads h ! i)\<rparr>"
  show "hash_insert i p h = Some ?h"
    using assms(2) htab_repD(1) [OF assms(1)] by (simp add: hash_insert_def)
  show "htab_rep ?h (B(i := p # B i))"
    using assms htab_repD [OF assms(1)] by (auto simp: htab_rep_def nth_list_update)
qed

lemma htab_rep_shrink:
  assumes "htab_rep h B" "i < NWORDS" "length (heads h') = NWORDS"
    "chain (links h') (heads h' ! i) ys" "distinct ys" "set ys \<subseteq> set (B i)"
    "\<And>j. j < NWORDS \<Longrightarrow> j \<noteq> i \<Longrightarrow> chain (links h') (heads h' ! j) (B j)"
  shows "htab_rep h' (B(i := ys))"
proof -
  have "set ((B(i := ys)) j) \<subseteq> set (B j)" for j using assms(6) by simp
  then have "set ((B(i := ys)) j) \<inter> set ((B(i := ys)) k) = {}"
    if "j < NWORDS" "k < NWORDS" "j \<noteq> k" for j k
    using that htab_repD(4) [OF assms(1)] by blast
  moreover have "chain (links h') (heads h' ! j) ((B(i := ys)) j) \<and> distinct ((B(i := ys)) j)"
    if "j < NWORDS" for j
    using that assms(4,5,7) htab_repD(3) [OF assms(1)] by simp
  ultimately show ?thesis using assms(3) by (simp add: htab_rep_def)
qed

lemma hash_remove_rep:
  assumes "htab_rep h B" "i < NWORDS" "p \<in> set (B i)"
  obtains h' where "hash_remove i p h = Some h'" "htab_rep h' (B(i := remove1 p (B i)))"
proof -
  note rep = htab_repD [OF assms(1)]
  from assms(3) obtain a xs where B: "B i = a # xs" by (cases "B i") auto
  have ch: "chain (links h) (heads h ! i) (a # xs)" and d: "distinct (a # xs)"
    using rep(2,3) [OF assms(2)] B by auto
  show ?thesis
  proof (cases "a = p")
    case True
    let ?h = "h\<lparr>heads := (heads h)[i := links h p]\<rparr>"
    have "htab_rep ?h (B(i := remove1 p (B i)))"
      using rep(1,2) ch d True B assms(2) by (intro htab_rep_shrink [OF assms(1,2)]) auto
    moreover have "hash_remove i p h = Some ?h"
      using ch True assms(2) rep(1) by (simp add: hash_remove_def)
    ultimately show ?thesis using that by blast
  next
    case False
    then have p: "p \<in> set xs" using assms(3) B by simp
    obtain nx where nx: "unlink_walk p (heads h ! i) (links h) = Some nx"
      "chain nx (heads h ! i) (a # remove1 p xs)" "\<forall>q. q \<notin> set (a # xs) \<longrightarrow> nx q = links h q"
      using unlink_walk_present [OF ch d p] by blast
    have "chain nx l ys \<longleftrightarrow> chain (links h) l ys" if "set ys \<inter> set (a # xs) = {}" for l ys
      using that nx(3) by (induction ys arbitrary: l) auto
    then have other: "chain nx (heads h ! j) (B j)" if "j < NWORDS" "j \<noteq> i" for j
      using that rep(2,4) B assms(2) by (metis disjoint_iff)
    have "hash_remove i p h = Some (h\<lparr>links := nx\<rparr>)"
      using ch False assms(2) rep(1) nx(1) by (simp add: hash_remove_def)
    moreover have "htab_rep (h\<lparr>links := nx\<rparr>) (B(i := remove1 p (B i)))"
      using rep(1) nx(2) other d False B
      by (intro htab_rep_shrink [OF assms(1,2)]) (auto dest: notin_set_remove1)
    ultimately show ?thesis using that by blast
  qed
qed

text \<open>The objects of a bucket have keys that hash to it, and no two objects share a key.\<close>

definition keyed :: "('k \<Rightarrow> nat) \<Rightarrow> (addr \<Rightarrow> 'k option) \<Rightarrow> (nat \<Rightarrow> addr list) \<Rightarrow> bool" where
  "keyed H key B \<longleftrightarrow>
     (\<forall>i<NWORDS. \<forall>p \<in> set (B i). \<exists>k. key p = Some k \<and> H k = i) \<and>
     (\<forall>i<NWORDS. inj_on key (set (B i)))"

definition in_table :: "addr \<Rightarrow> (nat \<Rightarrow> addr list) \<Rightarrow> bool" where
  "in_table p B \<longleftrightarrow> (\<exists>i<NWORDS. p \<in> set (B i))"

lemma keyed_cong:
  assumes "\<And>p. in_table p B \<Longrightarrow> key p = key' p"
  shows "keyed H key B \<longleftrightarrow> keyed H key' B"
proof -
  have eq: "key p = key' p" if "i < NWORDS" "p \<in> set (B i)" for i p
    using that assms by (auto simp: in_table_def)
  have "inj_on key (set (B i)) \<longleftrightarrow> inj_on key' (set (B i))" if "i < NWORDS" for i
    using eq [OF that] by (rule inj_on_cong)
  then show ?thesis unfolding keyed_def using eq by (metis (no_types, lifting))
qed

lemma keyed_bucket:
  "keyed H key B \<Longrightarrow> in_table p B \<Longrightarrow> key p = Some k \<Longrightarrow> p \<in> set (B (H k))"
  unfolding keyed_def in_table_def by force

lemma in_table_insert [simp]:
  assumes "i < NWORDS"
  shows "in_table q (B(i := p # B i)) \<longleftrightarrow> q = p \<or> in_table q B"
proof -
  have eq: "set ((B(i := p # B i)) j) = set (B j) \<union> (if j = i then {p} else {})" for j by auto
  show ?thesis by (simp only: in_table_def eq) (use assms in auto)
qed

lemma in_table_remove:
  assumes "htab_rep h B" "i < NWORDS" "p \<in> set (B i)"
  shows "in_table q (B(i := remove1 p (B i))) \<longleftrightarrow> q \<noteq> p \<and> in_table q B"
proof -
  have eq: "set ((B(i := remove1 p (B i))) j) = set (B j) - {p}" if "j < NWORDS" for j
    using that htab_repD(3,4) [OF assms(1)] assms(2,3) by auto
  show ?thesis by (simp only: in_table_def eq cong: conj_cong) auto
qed

section \<open>The directory contract\<close>

locale bucket_dir =
  fixes H :: "'k \<Rightarrow> nat"
    and find :: "htab \<Rightarrow> (addr \<Rightarrow> 'k option) \<Rightarrow> 'k \<Rightarrow> addr option option"
  assumes H_bound: "H k < NWORDS"
    and find_first: "length (heads h) = NWORDS \<Longrightarrow>
      chain (links h) (heads h ! H k) (xs @ p # ys) \<Longrightarrow>
      (\<And>q. q \<in> set xs \<Longrightarrow> \<exists>k'. key q = Some k' \<and> k' \<noteq> k) \<Longrightarrow> key p = Some k \<Longrightarrow>
      find h key k = Some (Some p)"
begin

lemma find_member:
  assumes "htab_rep h B" "keyed H key B" "p \<in> set (B (H k))" "key p = Some k"
  shows "find h key k = Some (Some p)"
proof -
  from split_list [OF assms(3)] obtain xs ys where B: "B (H k) = xs @ p # ys" by blast
  have "\<exists>k'. key q = Some k' \<and> k' \<noteq> k" if q: "q \<in> set xs" for q
  proof -
    have "q \<noteq> p" using q htab_repD(3) [OF assms(1) H_bound, of k] B by auto
    moreover have "inj_on key (set (B (H k)))" "q \<in> set (B (H k))"
      using assms(2) H_bound [of k] q B unfolding keyed_def by (blast, simp)
    ultimately have "key q \<noteq> key p" using assms(3) by (auto dest: inj_onD)
    moreover have "\<exists>k'. key q = Some k'"
      using assms(2) H_bound \<open>q \<in> set (B (H k))\<close> unfolding keyed_def by blast
    ultimately show ?thesis using assms(4) by auto
  qed
  then show ?thesis
    using find_first [of h k xs p ys key] htab_repD(1) [OF assms(1)]
      htab_repD(2) [OF assms(1) H_bound, of k] B assms(4) by auto
qed

lemma find_insert:
  assumes "htab_rep h B" "keyed H key B" "key p = Some k" "\<And>q. q \<in> set (B (H k)) \<Longrightarrow> key q \<noteq> Some k"
    "\<forall>j<NWORDS. p \<notin> set (B j)"
  obtains h' where "hash_insert (H k) p h = Some h'" "htab_rep h' (B(H k := p # B (H k)))"
    "keyed H key (B(H k := p # B (H k)))" "find h' key k = Some (Some p)"
proof -
  obtain h' where h': "hash_insert (H k) p h = Some h'" "htab_rep h' (B(H k := p # B (H k)))"
    using hash_insert_rep [OF assms(1) H_bound assms(5)] by blast
  moreover have kd: "keyed H key (B(H k := p # B (H k)))"
    using assms(2-4) unfolding keyed_def by auto (metis imageE)+
  ultimately show ?thesis
    using that find_member [OF h'(2) kd _ assms(3)] by simp
qed

lemma find_remove:
  assumes "htab_rep h B" "keyed H key B" "key p = Some k" "p \<in> set (B (H k))"
  obtains h' where "hash_remove (H k) p h = Some h'" "htab_rep h' (B(H k := remove1 p (B (H k))))"
    "keyed H key (B(H k := remove1 p (B (H k))))"
proof -
  have "keyed H key (B(H k := remove1 p (B (H k))))"
    using assms(2) unfolding keyed_def
    by (auto dest: notin_set_remove1 in_set_remove1 intro: inj_on_subset [OF _ set_remove1_subset])
  then show ?thesis
    using that hash_remove_rep [OF assms(1) H_bound assms(4)] by blast
qed

end

section \<open>Searching by number\<close>

text \<open>
  The search of \<open>find_by_pid\<close> and \<open>find_by_irqid\<close>: the first object of the bucket is compared
  before the loop, and the loop looks one link ahead for the end of the chain. An empty bucket,
  and a bucket with one object that does not match, is a dereference of the null pointer.
\<close>

partial_function (option) id_walk ::
  "htab \<Rightarrow> (addr \<Rightarrow> int option) \<Rightarrow> int \<Rightarrow> addr option \<Rightarrow> addr option option" where
  "id_walk h key k link = do {
     a \<leftarrow> link;
     k' \<leftarrow> key a;
     if k' \<noteq> k then (if links h a = None then Some None else id_walk h key k (links h a))
     else Some (Some a)
   }"

definition id_find :: "htab \<Rightarrow> (addr \<Rightarrow> int option) \<Rightarrow> int \<Rightarrow> addr option option" where
  "id_find h key k = do {
     first \<leftarrow> aget (heads h) (hash_fn k);
     p \<leftarrow> first;
     k' \<leftarrow> key p;
     if k' = k then Some (Some p) else id_walk h key k (links h p)
   }"

text \<open>
  The loop with which the process and interrupt tables look for the predecessor of \<open>p\<close>. Its
  condition holds whenever \<open>p\<close> is not null, so it runs off the end of the chain.
\<close>

definition pred_more :: "addr option \<Rightarrow> addr \<Rightarrow> bool" where
  "pred_more next p \<longleftrightarrow> next \<noteq> Some p \<or> next \<noteq> None"

partial_function (option) pred_walk :: "(addr \<Rightarrow> addr option) \<Rightarrow> addr \<Rightarrow> addr option \<Rightarrow> addr option" where
  "pred_walk nx p link = do {
     a \<leftarrow> link;
     if pred_more (nx a) p then pred_walk nx p (nx a) else Some a
   }"

lemma pred_walk_none: "chain nx l xs \<Longrightarrow> pred_walk nx p l = None"
proof (induction xs arbitrary: l)
  case Nil
  then show ?case by (simp add: pred_walk.simps)
next
  case (Cons x xs)
  then show ?case by (subst pred_walk.simps) (auto simp: pred_more_def)
qed

lemma id_walk_find:
  assumes "chain (links h) l (xs @ p # ys)"
    "\<And>q. q \<in> set xs \<Longrightarrow> \<exists>k'. key q = Some k' \<and> k' \<noteq> k" "key p = Some k"
  shows "id_walk h key k l = Some (Some p)"
  using assms
proof (induction xs arbitrary: l)
  case Nil
  then show ?case by (simp add: id_walk.simps)
next
  case (Cons x xs)
  then obtain k' where "key x = Some k'" "k' \<noteq> k" by auto
  moreover have "links h x \<noteq> None" using Cons.prems(1) by (cases xs) auto
  ultimately show ?case using Cons by (subst id_walk.simps) auto
qed

interpretation numbers: bucket_dir hash_fn id_find
proof
  show "hash_fn k < NWORDS" for k by (simp add: NWORDS_def)
  show "id_find h key k = Some (Some p)"
    if "length (heads h) = NWORDS" and ch: "chain (links h) (heads h ! hash_fn k) (xs @ p # ys)"
      and key: "\<And>q. q \<in> set xs \<Longrightarrow> \<exists>k'. key q = Some k' \<and> k' \<noteq> k" "key p = Some k"
    for h k xs p ys key
  proof (cases xs)
    case Nil
    then show ?thesis using that(1) ch key(2) by (simp add: id_find_def NWORDS_def)
  next
    case (Cons x xs')
    then obtain k' where "key x = Some k'" "k' \<noteq> k" using key(1) by auto
    moreover have "id_walk h key k (links h x) = Some (Some p)"
      using ch Cons key by (intro id_walk_find [of h _ xs' p ys]) auto
    ultimately show ?thesis using that(1) ch Cons by (simp add: id_find_def NWORDS_def)
  qed
qed

end
