(* ===== verification/KState.thy ===== *)
theory KState
  imports KList KHash
begin

text \<open>
  The objects the kernel components share: threads (\<^verbatim>\<open>kernel/thread.h\<close>), messages
  (\<^verbatim>\<open>kernel/message.h\<close>), processes (\<^verbatim>\<open>kernel/process.h\<close>) and the run
  queue (\<^verbatim>\<open>kernel/scheduling.h\<close>). A pointer is an address; the objects of one kind
  are a map from addresses, and an address outside the map is a pointer that may not be
  dereferenced. The model is of the configured build (\<^verbatim>\<open>kernel/config.h\<close>): one
  processor, no kernel preemption, so spinlocks do nothing and there is one run queue.
\<close>

section \<open>Constants\<close>

definition EAGAIN :: int where "EAGAIN = 0x06"
definition EBADF :: int where "EBADF = 0x08"
definition ECHILD :: int where "ECHILD = 0x0c"
definition EINVAL :: int where "EINVAL = 0x1d"
definition ENOMEM :: int where "ENOMEM = 0x31"
definition EPERM :: int where "EPERM = 0x41"
definition ESRCH :: int where "ESRCH = 0x49"

lemmas errno_defs = EAGAIN_def EBADF_def ECHILD_def EINVAL_def ENOMEM_def EPERM_def ESRCH_def

definition THREAD_RUNNING :: u32 where "THREAD_RUNNING = 0x01"
definition THREAD_READY :: u32 where "THREAD_READY = 0x02"
definition THREAD_BLOCKED :: u32 where "THREAD_BLOCKED = 0x10"
definition THREAD_UNINT :: u32 where "THREAD_UNINT = 0x14"
definition THREAD_INT :: u32 where "THREAD_INT = 0x18"
definition SEND_BLOCKED :: u32 where "SEND_BLOCKED = 0x34"
definition RECEIVE_BLOCKED :: u32 where "RECEIVE_BLOCKED = 0x54"
definition REPLY_BLOCKED :: u32 where "REPLY_BLOCKED = 0x94"
definition IRQ_WAIT :: u32 where "IRQ_WAIT = 0x114"
definition SYNC_BLOCKED :: u32 where "SYNC_BLOCKED = 0x214"
definition THREAD_EXITING :: u32 where "THREAD_EXITING = 0x400"
definition PROCESS_EXITING :: u32 where "PROCESS_EXITING = 0xC00"

lemmas state_defs = THREAD_RUNNING_def THREAD_READY_def THREAD_BLOCKED_def THREAD_UNINT_def
  THREAD_INT_def SEND_BLOCKED_def RECEIVE_BLOCKED_def REPLY_BLOCKED_def IRQ_WAIT_def
  SYNC_BLOCKED_def THREAD_EXITING_def PROCESS_EXITING_def

definition HZ :: int where "HZ = 1000"
definition SLICE :: int where "SLICE = 4 * (HZ div 100)"

definition SCHED_FIFO :: int where "SCHED_FIFO = 1"
definition SCHED_RR :: int where "SCHED_RR = 2"
definition SCHED_OTHER :: int where "SCHED_OTHER = 4"

definition PRIO_RT_MAX :: int where "PRIO_RT_MAX = 127"
definition PRIO_SYS_DEF :: int where "PRIO_SYS_DEF = 66"
definition PRIO_SYS_MIN :: int where "PRIO_SYS_MIN = 46"
definition PRIO_OTHER_MIN :: int where "PRIO_OTHER_MIN = 4"
definition MIN_PRIO :: int where "MIN_PRIO = PRIO_OTHER_MIN"
definition MAX_PRIO :: int where "MAX_PRIO = PRIO_RT_MAX"
definition MAXQ :: nat where "MAXQ = 128 div 4"

definition PRIOQ :: "int \<Rightarrow> int" where "PRIOQ prio = cdiv prio 4"

lemma PRIOQ_nonneg: "0 \<le> p \<Longrightarrow> PRIOQ p = p div 4"
  by (cases "p = 0") (auto simp: PRIOQ_def cdiv_def sgn_if)

lemmas prio_defs = PRIO_RT_MAX_def PRIO_SYS_DEF_def PRIO_SYS_MIN_def PRIO_OTHER_MIN_def
  MIN_PRIO_def MAX_PRIO_def

section \<open>Objects\<close>

text \<open>
  The message words. The unions of the source name the same words: \<open>w2\<close> is
  \<open>snd_ptr\<close>, \<open>w3\<close> is \<open>snd_bufsize\<close>, \<open>w4\<close> is \<open>rcv_ptr\<close> and
  \<open>w5\<close> is \<open>rcv_bufsize\<close>.
\<close>

record message =
  w1 :: u32
  w2 :: u32
  w3 :: u32
  w4 :: u32
  w5 :: u32
  m_tid :: int
  m_flags :: u16

record thread =
  tid :: int
  waiting :: "addr option"
  states :: u32
  t_proc :: addr
  schedpolicy :: int
  priority_stat :: int
  priority_dyn :: int
  bound :: int
  time_slice :: int
  schedule_flag :: int
  exitstat :: int
  attr_flags :: int
  stackaddr :: u32
  stack_size :: u32
  kstack :: addr
  sa_mask :: u32
  sigpending :: u32
  irqflag :: u32
  msg :: message
  rcvq :: "addr list"

record sigaction_t =
  sig_mask :: u32
  sa_flags :: u32
  sa_handler :: u32

record siginfo =
  si_signo :: int
  si_code :: int
  si_errno :: int
  si_pid :: int
  si_addr :: u32
  si_status :: int
  si_value :: int

record sigqueue_t =
  sq_signal :: int
  sq_info :: siginfo

record sigstack_t =
  ss_sp :: u32
  ss_size :: u32
  ss_flags :: u32

text \<open>The attributes a new thread is created with.\<close>

record thread_attr =
  a_flags :: int
  a_prio :: int
  a_stackaddr :: u32
  a_stack_size :: u32
  a_policy :: int

text \<open>Open files and the descriptor table of a process; a null pointer is 0.\<close>

record file_t =
  f_access :: u32
  f_offset :: int
  f_ref :: int
  f_inode :: u32
  f_device :: u32

record fd_t =
  fd_max :: int
  fd_hint :: int
  fd_bitmap :: u32
  cwd_inode :: u32
  cwd_device :: u32
  cwdstr :: string
  fileptr :: "addr list"

text \<open>
  The \<open>child\<close> field of a process is the head of the list of its children and at the same time
  its own link in the list of its parent. The two uses share one cell, so these lists are kept
  as cells (\<open>child_links\<close> of the kernel state), where a pointer is a process or the address of
  the \<open>child\<close> field of a process.
\<close>

datatype cptr = Item addr | Head addr

record clinks =
  cnext :: "addr \<Rightarrow> cptr"
  cprev :: "addr \<Rightarrow> cptr"

record process =
  pid :: int
  uid :: int
  euid :: int
  gid :: int
  egid :: int
  session :: int
  parent :: addr
  p_threads :: "addr list"
  start_time :: int
  user_time :: int
  system_time :: int
  p_timers :: "addr list"
  alarm :: "addr option"
  p_flag :: u32
  p_status :: u32
  exit_status :: u32
  p_map :: addr
  sigqueue :: "sigqueue_t list"
  action :: "sigaction_t list"
  ss :: sigstack_t
  syncs :: "addr list"
  sync_next :: int
  p_fd :: fd_t

record rqueue =
  rq_bitmap :: u32
  run :: "addr list list"
  nthreads :: int

text \<open>
  The kernel state. \<open>files\<close> are the open files, \<open>ftables\<close> the pages with further file
  pointers of processes that grew their descriptor table.
\<close>

record kstate =
  threads :: "addr \<Rightarrow> thread option"
  procs :: "addr \<Rightarrow> process option"
  rq :: rqueue
  current :: addr
  init_thread :: addr
  thash :: htab
  phash :: htab
  ids :: idstate
  child_links :: clinks
  proclist :: "addr list"
  total_process :: int
  total_threads :: int
  files :: "addr \<Rightarrow> file_t option"
  ftables :: "addr \<Rightarrow> addr list option"

definition upd_thread :: "addr \<Rightarrow> (thread \<Rightarrow> thread) \<Rightarrow> 'z kstate_scheme \<Rightarrow> 'z kstate_scheme" where
  "upd_thread t f s = s\<lparr>threads := (threads s)(t := map_option f (threads s t))\<rparr>"

definition upd_proc :: "addr \<Rightarrow> (process \<Rightarrow> process) \<Rightarrow> 'z kstate_scheme \<Rightarrow> 'z kstate_scheme" where
  "upd_proc p f s = s\<lparr>procs := (procs s)(p := map_option f (procs s p))\<rparr>"

definition cur_thread :: "'z kstate_scheme \<Rightarrow> thread option" where
  "cur_thread s = threads s (current s)"

definition cur_proc :: "'z kstate_scheme \<Rightarrow> process option" where
  "cur_proc s = do { th \<leftarrow> cur_thread s; procs s (t_proc th) }"

definition superuser :: "'z kstate_scheme \<Rightarrow> bool option" where
  "superuser s = do { p \<leftarrow> cur_proc s; Some (euid p = 0) }"

lemma upd_thread_simps [simp]:
  "threads (upd_thread t f s) = (threads s)(t := map_option f (threads s t))"
  "procs (upd_thread t f s) = procs s" "rq (upd_thread t f s) = rq s"
  "current (upd_thread t f s) = current s" "init_thread (upd_thread t f s) = init_thread s"
  "thash (upd_thread t f s) = thash s" "phash (upd_thread t f s) = phash s"
  "ids (upd_thread t f s) = ids s" "child_links (upd_thread t f s) = child_links s"
  "proclist (upd_thread t f s) = proclist s" "total_process (upd_thread t f s) = total_process s"
  "total_threads (upd_thread t f s) = total_threads s" "files (upd_thread t f s) = files s"
  "ftables (upd_thread t f s) = ftables s" "kstate.more (upd_thread t f s) = kstate.more s"
  by (simp_all add: upd_thread_def)

lemma upd_proc_simps [simp]:
  "procs (upd_proc p f s) = (procs s)(p := map_option f (procs s p))"
  "threads (upd_proc p f s) = threads s" "rq (upd_proc p f s) = rq s"
  "current (upd_proc p f s) = current s" "init_thread (upd_proc p f s) = init_thread s"
  "thash (upd_proc p f s) = thash s" "phash (upd_proc p f s) = phash s"
  "ids (upd_proc p f s) = ids s" "child_links (upd_proc p f s) = child_links s"
  "proclist (upd_proc p f s) = proclist s" "total_process (upd_proc p f s) = total_process s"
  "total_threads (upd_proc p f s) = total_threads s" "files (upd_proc p f s) = files s"
  "ftables (upd_proc p f s) = ftables s" "kstate.more (upd_proc p f s) = kstate.more s"
  by (simp_all add: upd_proc_def)

section \<open>Zeroed objects\<close>

text \<open>Objects as the slab constructors leave them, and a kernel with no threads.\<close>

definition message0 :: message where
  "message0 = \<lparr>w1 = 0, w2 = 0, w3 = 0, w4 = 0, w5 = 0, m_tid = 0, m_flags = 0\<rparr>"

definition thread0 :: thread where
  "thread0 = \<lparr>tid = 0, waiting = None, states = 0, t_proc = 0, schedpolicy = 0,
     priority_stat = 0, priority_dyn = 0, bound = 0, time_slice = 0, schedule_flag = 0,
     exitstat = 0, attr_flags = 0, stackaddr = 0, stack_size = 0, kstack = 0, sa_mask = 0, sigpending = 0, irqflag = 0, msg = message0, rcvq = []\<rparr>"

definition siginfo0 :: siginfo where
  "siginfo0 = \<lparr>si_signo = 0, si_code = 0, si_errno = 0, si_pid = 0, si_addr = 0, si_status = 0,
     si_value = 0\<rparr>"

definition fd0 :: fd_t where
  "fd0 = \<lparr>fd_max = 32, fd_hint = 0, fd_bitmap = 0, cwd_inode = 0, cwd_device = 0, cwdstr = [],
     fileptr = replicate 33 0\<rparr>"

definition process0 :: process where
  "process0 = \<lparr>pid = 0, uid = 0, euid = 0, gid = 0, egid = 0, session = 0, parent = 0,
     p_threads = [], start_time = 0, user_time = 0, system_time = 0, p_timers = [], alarm = None,
     p_flag = 0, p_status = 0, exit_status = 0, p_map = 0,
     sigqueue = [], action = [], ss = \<lparr>ss_sp = 0, ss_size = 0, ss_flags = 0\<rparr>,
     syncs = [], sync_next = 0, p_fd = fd0\<rparr>"

definition kstate0 :: kstate where
  "kstate0 = \<lparr>threads = Map.empty, procs = Map.empty,
     rq = \<lparr>rq_bitmap = 0, run = replicate MAXQ [], nthreads = 0\<rparr>, current = 0, init_thread = 0,
     thash = htab_empty, phash = htab_empty, ids = id_init, child_links = \<lparr>cnext = Head, cprev = Head\<rparr>,
     proclist = [], total_process = 0, total_threads = 0, files = Map.empty, ftables = Map.empty\<rparr>"

end
