(* ===== verification/Sched.thy ===== *)
theory Sched
  imports KState
begin

text \<open>
  The scheduler: the run-queue operations of \<^verbatim>\<open>kernel/scheduling.h\<close> and the scheduler
  functions of \<^verbatim>\<open>kernel/scheduling.c\<close>. The run queue is 32 FIFO lists indexed by a
  quarter of the dynamic priority, with a bitmap of the lists that are not empty. The running
  thread stays in its list; \<open>schedule\<close> picks the oldest thread of the highest list.

  A context switch is a change of \<open>current\<close>: the code after a call of \<open>schedule\<close> runs when
  the thread that called it is current again.
\<close>

section \<open>Run-queue operations\<close>

definition queued :: "rqueue \<Rightarrow> addr \<Rightarrow> bool" where
  "queued q t \<longleftrightarrow> list_ex (\<lambda>l. t \<in> set l) (run q)"

abbreviation on_runq :: "addr \<Rightarrow> 'z kstate_scheme \<Rightarrow> bool" where
  "on_runq t s \<equiv> queued (rq s) t"

text \<open>
  Enqueueing a thread whose \<open>runq\<close> link is in a list already would corrupt both lists; the
  model has no result then.
\<close>

definition enqueue_thread :: "addr \<Rightarrow> 'z kstate_scheme \<Rightarrow> 'z kstate_scheme option" where
  "enqueue_thread t s = do {
     th \<leftarrow> threads s t;
     let index = PRIOQ (priority_dyn th);
     check (0 \<le> index \<and> \<not> on_runq t s);
     l \<leftarrow> aget (run (rq s)) (nat index);
     l' \<leftarrow> ll_enqueue t l;
     run' \<leftarrow> aput (run (rq s)) (nat index) l';
     bm \<leftarrow> set_bit_k (rq_bitmap (rq s)) (nat index);
     Some (s\<lparr>rq := \<lparr>rq_bitmap = bm, run = run', nthreads = nthreads (rq s) + 1\<rparr>\<rparr>)
   }"

text \<open>\<open>dequeue_thread\<close> does not count the thread out of \<open>nthreads\<close>.\<close>

definition dequeue_thread :: "nat \<Rightarrow> 'z kstate_scheme \<Rightarrow> (addr \<times> 'z kstate_scheme) option" where
  "dequeue_thread index s = do {
     l \<leftarrow> aget (run (rq s)) index;
     (t, l') \<leftarrow> ll_dequeue l;
     run' \<leftarrow> aput (run (rq s)) index l';
     bm \<leftarrow> (if l' = [] then clear_bit_k (rq_bitmap (rq s)) index else Some (rq_bitmap (rq s)));
     Some (t, s\<lparr>rq := (rq s)\<lparr>rq_bitmap := bm, run := run'\<rparr>\<rparr>)
   }"

definition remove_thread :: "addr \<Rightarrow> 'z kstate_scheme \<Rightarrow> 'z kstate_scheme option" where
  "remove_thread t s = do {
     th \<leftarrow> threads s t;
     let index = PRIOQ (priority_dyn th);
     check (0 \<le> index);
     l \<leftarrow> aget (run (rq s)) (nat index);
     l' \<leftarrow> ll_del t l;
     run' \<leftarrow> aput (run (rq s)) (nat index) l';
     bm \<leftarrow> (if l' = [] then clear_bit_k (rq_bitmap (rq s)) (nat index)
           else Some (rq_bitmap (rq s)));
     Some (s\<lparr>rq := \<lparr>rq_bitmap = bm, run = run', nthreads = nthreads (rq s) - 1\<rparr>\<rparr>)
   }"

definition wakeup :: "addr \<Rightarrow> 'z kstate_scheme \<Rightarrow> 'z kstate_scheme option" where
  "wakeup t s = enqueue_thread t
     (upd_thread t (\<lambda>th. th\<lparr>states := THREAD_READY, priority_dyn := priority_stat th\<rparr>) s)"

section \<open>Scheduler functions\<close>

definition sched_init :: "'z kstate_scheme \<Rightarrow> 'z kstate_scheme" where
  "sched_init s = s\<lparr>rq := \<lparr>rq_bitmap = 0, run = replicate MAXQ [], nthreads = 0\<rparr>\<rparr>"

text \<open>\<open>do_schedrr\<close> has no caller left in the source.\<close>

definition do_schedrr :: "'z kstate_scheme \<Rightarrow> 'z kstate_scheme option" where
  "do_schedrr s =
     (let quenum = frs (rq_bitmap (rq s)) in
      if quenum < 0 then Some s
      else do {
        l \<leftarrow> aget (run (rq s)) (nat quenum);
        if l = [] then Some s
        else do {
          (t, s) \<leftarrow> dequeue_thread (nat quenum) s;
          enqueue_thread t s
        }
      })"

definition sched_timer :: "'z kstate_scheme \<Rightarrow> 'z kstate_scheme option" where
  "sched_timer s = do {
     let t = current s;
     th \<leftarrow> threads s t;
     if schedpolicy th = SCHED_RR then Some s
     else if schedpolicy th \<noteq> SCHED_OTHER then Some s
     else if priority_stat th \<ge> PRIO_SYS_MIN then Some s
     else if time_slice th - 1 \<noteq> 0 then
       Some (upd_thread t (\<lambda>th. th\<lparr>time_slice := time_slice th - 1\<rparr>) s)
     else do {
       let b = (if bound th - 1 < PRIO_OTHER_MIN then PRIO_OTHER_MIN else bound th - 1);
       s \<leftarrow> remove_thread t (upd_thread t (\<lambda>th. th\<lparr>time_slice := SLICE, bound := b\<rparr>) s);
       enqueue_thread t (upd_thread t (\<lambda>th. th\<lparr>priority_dyn := priority_stat th + bound th\<rparr>) s)
     }
   }"

text \<open>The thread \<open>schedule\<close> selects, and the switch to it.\<close>

definition pick_next :: "'z kstate_scheme \<Rightarrow> addr option" where
  "pick_next s =
     (let quenum = frs (rq_bitmap (rq s)) in
      if quenum < 0 then Some (init_thread s)
      else do {
        l \<leftarrow> aget (run (rq s)) (nat quenum);
        Some (if l = [] then init_thread s else last l)
      })"

definition schedule :: "'z kstate_scheme \<Rightarrow> 'z kstate_scheme option" where
  "schedule s = do {
     new \<leftarrow> pick_next s;
     Some (upd_thread new (\<lambda>th. th\<lparr>schedule_flag := 0\<rparr>) (s\<lparr>current := new\<rparr>))
   }"

definition syscall_sched_yield :: "'z kstate_scheme \<Rightarrow> (int \<times> 'z kstate_scheme) option" where
  "syscall_sched_yield s = do {
     let t = current s;
     s \<leftarrow> remove_thread t s;
     s \<leftarrow> enqueue_thread t s;
     Some (0, upd_thread t (\<lambda>th. th\<lparr>schedule_flag := 1\<rparr>) s)
   }"

text \<open>The two sleep functions of \<^verbatim>\<open>kernel/thread.c\<close>, up to the switch.\<close>

definition sleep_interruptible :: "addr \<Rightarrow> 'z kstate_scheme \<Rightarrow> 'z kstate_scheme option" where
  "sleep_interruptible t s = do {
     s \<leftarrow> remove_thread t (upd_thread t (\<lambda>th. th\<lparr>states := THREAD_INT\<rparr>) s);
     schedule s
   }"

definition sleep_uninterruptible :: "addr \<Rightarrow> 'z kstate_scheme \<Rightarrow> 'z kstate_scheme option" where
  "sleep_uninterruptible t s = do {
     s \<leftarrow> remove_thread t (upd_thread t (\<lambda>th. th\<lparr>states := THREAD_UNINT\<rparr>) s);
     schedule s
   }"

section \<open>The run-queue invariant\<close>

text \<open>
  32 lists; a bit of the bitmap is set exactly when its list is not empty; a list holds no
  thread twice; a thread is only in the list of its dynamic priority; \<open>nthreads\<close> counts the
  threads.
\<close>

definition rq_inv :: "'z kstate_scheme \<Rightarrow> bool" where
  "rq_inv s \<longleftrightarrow> length (run (rq s)) = 32 \<and>
     (\<forall>i<32. bit (rq_bitmap (rq s)) i \<longleftrightarrow> run (rq s) ! i \<noteq> []) \<and>
     (\<forall>i<32. distinct (run (rq s) ! i)) \<and>
     (\<forall>i<32. \<forall>t \<in> set (run (rq s) ! i).
        \<exists>th. threads s t = Some th \<and> PRIOQ (priority_dyn th) = int i) \<and>
     nthreads (rq s) = int (sum_list (map length (run (rq s))))"

lemma rq_invD:
  assumes "rq_inv s"
  shows "length (run (rq s)) = 32"
    and "\<And>i. i < 32 \<Longrightarrow> bit (rq_bitmap (rq s)) i \<longleftrightarrow> run (rq s) ! i \<noteq> []"
    and "\<And>i. i < 32 \<Longrightarrow> distinct (run (rq s) ! i)"
    and "\<And>i t. i < 32 \<Longrightarrow> t \<in> set (run (rq s) ! i) \<Longrightarrow>
           \<exists>th. threads s t = Some th \<and> PRIOQ (priority_dyn th) = int i"
    and "nthreads (rq s) = int (sum_list (map length (run (rq s))))"
  using assms by (auto simp: rq_inv_def)

lemma queued_iff: "queued q t \<longleftrightarrow> (\<exists>i<length (run q). t \<in> set (run q ! i))"
  unfolding queued_def list_ex_iff by (metis in_set_conv_nth)

lemma sum_list_update_length:
  "i < length xss \<Longrightarrow> int (sum_list (map length (xss[i := ys]))) =
     int (sum_list (map length xss)) - int (length (xss ! i)) + int (length ys)"
proof (induction xss arbitrary: i)
  case Nil
  then show ?case by simp
next
  case (Cons xs xss)
  then show ?case by (cases i) auto
qed

lemma enqueue_threadE:
  assumes "enqueue_thread t s = Some s'"
  obtains th i where "threads s t = Some th" "PRIOQ (priority_dyn th) = int i"
    "i < length (run (rq s))" "i < 32" "\<not> on_runq t s"
    "s' = s\<lparr>rq := \<lparr>rq_bitmap = set_bit i (rq_bitmap (rq s)),
       run = (run (rq s))[i := t # run (rq s) ! i], nthreads = nthreads (rq s) + 1\<rparr>\<rparr>"
proof -
  from assms obtain th where th: "threads s t = Some th" "0 \<le> PRIOQ (priority_dyn th)"
    "\<not> on_runq t s" "nat (PRIOQ (priority_dyn th)) < length (run (rq s))"
    and set: "set_bit_k (rq_bitmap (rq s)) (nat (PRIOQ (priority_dyn th))) \<noteq> None"
    by (auto simp: enqueue_thread_def bind_Some Let_def klist_simps)
  then have "nat (PRIOQ (priority_dyn th)) < 32" by (auto simp: set_bit_k_def split: if_splits)
  then show ?thesis
    using that [of th "nat (PRIOQ (priority_dyn th))"] th assms
    by (auto simp: enqueue_thread_def bind_Some Let_def klist_simps)
qed

lemma remove_threadE:
  assumes "remove_thread t s = Some s'"
  obtains th i where "threads s t = Some th" "PRIOQ (priority_dyn th) = int i"
    "i < length (run (rq s))" "t \<in> set (run (rq s) ! i)"
    "remove1 t (run (rq s) ! i) = [] \<longrightarrow> i < 32"
    "s' = s\<lparr>rq := \<lparr>rq_bitmap = (if remove1 t (run (rq s) ! i) = [] then unset_bit i (rq_bitmap (rq s))
         else rq_bitmap (rq s)),
       run = (run (rq s))[i := remove1 t (run (rq s) ! i)], nthreads = nthreads (rq s) - 1\<rparr>\<rparr>"
proof -
  from assms obtain th where th: "threads s t = Some th" "0 \<le> PRIOQ (priority_dyn th)"
    "nat (PRIOQ (priority_dyn th)) < length (run (rq s))"
    "t \<in> set (run (rq s) ! nat (PRIOQ (priority_dyn th)))"
    by (auto simp: remove_thread_def bind_Some Let_def klist_simps)
  then show ?thesis
    using that [of th "nat (PRIOQ (priority_dyn th))"] assms
    by (auto simp: remove_thread_def bind_Some Let_def klist_simps clear_bit_k_def split: if_splits)
qed

lemma enqueue_thread_inv [kinv_intro]:
  assumes inv: "rq_inv s" and e: "enqueue_thread t s = Some s'"
  shows "rq_inv s'"
proof -
  from e obtain th i where d: "threads s t = Some th" "PRIOQ (priority_dyn th) = int i" "i < 32"
    "\<not> on_runq t s"
    "s' = s\<lparr>rq := \<lparr>rq_bitmap = set_bit i (rq_bitmap (rq s)),
       run = (run (rq s))[i := t # run (rq s) ! i], nthreads = nthreads (rq s) + 1\<rparr>\<rparr>"
    by (rule enqueue_threadE)
  note I = rq_invD [OF inv]
  have "t \<notin> set (run (rq s) ! i)" using d(3,4) I(1) by (auto simp: queued_iff)
  then show ?thesis
    unfolding rq_inv_def d(5)
    using I d(1-3) by (auto simp: nth_list_update sum_list_update_length)
qed

lemma remove_thread_inv [kinv_intro]:
  assumes inv: "rq_inv s" and r: "remove_thread t s = Some s'"
  shows "rq_inv s'"
proof -
  from r obtain th i where d: "threads s t = Some th" "PRIOQ (priority_dyn th) = int i"
    "i < length (run (rq s))" "t \<in> set (run (rq s) ! i)"
    "s' = s\<lparr>rq := \<lparr>rq_bitmap = (if remove1 t (run (rq s) ! i) = [] then unset_bit i (rq_bitmap (rq s))
         else rq_bitmap (rq s)),
       run = (run (rq s))[i := remove1 t (run (rq s) ! i)], nthreads = nthreads (rq s) - 1\<rparr>\<rparr>"
    by (rule remove_threadE)
  note I = rq_invD [OF inv]
  have i: "i < 32" using d(3) I(1) by simp
  have ne: "run (rq s) ! i \<noteq> []" using d(4) by auto
  have len: "int (length (remove1 t (run (rq s) ! i))) = int (length (run (rq s) ! i)) - 1"
    using d(4) ne by (simp add: length_remove1 of_nat_diff Suc_leI)
  show ?thesis
    unfolding rq_inv_def d(5)
    using I d(1-3) i len ne
    by (auto simp: nth_list_update sum_list_update_length notin_set_remove1
        dest: in_set_remove1 [THEN iffD1, rotated] set_remove1_subset [THEN subsetD])
qed

lemma remove_thread_off:
  assumes inv: "rq_inv s" and r: "remove_thread t s = Some s'"
  shows "\<not> on_runq t s'"
proof -
  from r obtain th i where d: "threads s t = Some th" "PRIOQ (priority_dyn th) = int i"
    "i < length (run (rq s))" "run (rq s') = (run (rq s))[i := remove1 t (run (rq s) ! i)]"
    by (rule remove_threadE) auto
  note I = rq_invD [OF inv]
  have "t \<notin> set (run (rq s) ! j)" if "j < 32" "j \<noteq> i" for j
    using I(4) [of j t] that d(1,2) by auto
  then show ?thesis
    using I(1,3) d(3) by (auto simp: queued_iff d(4) nth_list_update)
qed

lemma upd_thread_inv_off:
  assumes "rq_inv s" "\<not> on_runq t s"
  shows "rq_inv (upd_thread t f s)"
proof -
  have "u \<noteq> t" if "i < 32" "u \<in> set (run (rq s) ! i)" for i u
    using that assms(2) rq_invD(1) [OF assms(1)] by (auto simp: queued_iff)
  then show ?thesis
    using assms(1) by (simp add: rq_inv_def)
qed

lemma rq_inv_upd_thread [simp]:
  assumes "\<And>th. priority_dyn (f th) = priority_dyn th"
  shows "rq_inv (upd_thread t f s) \<longleftrightarrow> rq_inv s"
proof -
  have "(\<exists>th. (threads (upd_thread t f s)) u = Some th \<and> PRIOQ (priority_dyn th) = i) \<longleftrightarrow>
        (\<exists>th. threads s u = Some th \<and> PRIOQ (priority_dyn th) = i)" for u i
    using assms by auto
  then show ?thesis by (simp add: rq_inv_def)
qed

lemma rq_inv_current [simp]: "rq_inv (s\<lparr>current := c\<rparr>) = rq_inv s"
  by (simp add: rq_inv_def)

lemma wakeup_inv [kinv_intro]:
  assumes "rq_inv s" "wakeup t s = Some s'"
  shows "rq_inv s'"
proof -
  have "\<not> on_runq t s"
    using assms(2) by (auto simp: wakeup_def elim: enqueue_threadE)
  then show ?thesis
    using assms enqueue_thread_inv upd_thread_inv_off unfolding wakeup_def by blast
qed

lemma schedule_inv [kinv_intro]: "rq_inv s \<Longrightarrow> schedule s = Some s' \<Longrightarrow> rq_inv s'"
  by (auto simp: schedule_def bind_Some)

lemma sched_timer_inv [kinv_intro]:
  assumes "rq_inv s" "sched_timer s = Some s'"
  shows "rq_inv s'"
proof -
  have expire: "rq_inv s3" if "remove_thread t (upd_thread t f s) = Some s2"
    "\<And>th. priority_dyn (f th) = priority_dyn th" "enqueue_thread t (upd_thread t g s2) = Some s3"
    for t f g s2 s3
  proof -
    have "rq_inv (upd_thread t f s)" using assms(1) that(2) by simp
    then show ?thesis
      using that remove_thread_inv remove_thread_off upd_thread_inv_off enqueue_thread_inv by blast
  qed
  show ?thesis
    using assms by (auto simp: sched_timer_def bind_Some Let_def split: if_splits intro: expire)
qed

lemma sched_yield_inv [kinv_intro]:
  "rq_inv s \<Longrightarrow> syscall_sched_yield s = Some (r, s') \<Longrightarrow> rq_inv s'"
  by (auto simp: syscall_sched_yield_def bind_Some Let_def
      dest: remove_thread_inv [rotated] enqueue_thread_inv [rotated])

lemma sleep_inv [kinv_intro]:
  assumes "rq_inv s"
  shows "sleep_interruptible t s = Some s' \<Longrightarrow> rq_inv s'"
    and "sleep_uninterruptible t s = Some s' \<Longrightarrow> rq_inv s'"
proof -
  have "rq_inv s3" if "remove_thread t (upd_thread t (states_update f) s) = Some s2"
    "schedule s2 = Some s3" for f s2 s3
    using remove_thread_inv [OF _ that(1)] schedule_inv [OF _ that(2)] assms by simp
  then show "sleep_interruptible t s = Some s' \<Longrightarrow> rq_inv s'"
    and "sleep_uninterruptible t s = Some s' \<Longrightarrow> rq_inv s'"
    by (auto simp: sleep_interruptible_def sleep_uninterruptible_def bind_Some)
qed

lemma sched_init_inv [kinv_intro]: "rq_inv (sched_init s)"
  by (auto simp: rq_inv_def sched_init_def MAXQ_def)

section \<open>Progress and selection\<close>

lemma remove_thread_Some:
  assumes "rq_inv s" "i < 32" "t \<in> set (run (rq s) ! i)"
  shows "remove_thread t s = Some (s\<lparr>rq := \<lparr>
      rq_bitmap = (if remove1 t (run (rq s) ! i) = [] then unset_bit i (rq_bitmap (rq s))
                   else rq_bitmap (rq s)),
      run = (run (rq s))[i := remove1 t (run (rq s) ! i)], nthreads = nthreads (rq s) - 1\<rparr>\<rparr>)"
proof -
  obtain th where "threads s t = Some th" "PRIOQ (priority_dyn th) = int i"
    using rq_invD(4) [OF assms] by blast
  then show ?thesis
    using assms rq_invD(1) [OF assms(1)]
    by (simp add: remove_thread_def Let_def ll_del_def clear_bit_k_def)
qed

lemma enqueue_thread_Some:
  assumes "rq_inv s" "threads s t = Some th" "PRIOQ (priority_dyn th) = int i" "i < 32"
    "\<not> on_runq t s"
  shows "enqueue_thread t s = Some (s\<lparr>rq := \<lparr>rq_bitmap = set_bit i (rq_bitmap (rq s)),
      run = (run (rq s))[i := t # run (rq s) ! i], nthreads = nthreads (rq s) + 1\<rparr>\<rparr>)"
proof -
  have "t \<notin> set (run (rq s) ! i)"
    using assms rq_invD(1) [OF assms(1)] by (auto simp: queued_iff)
  then show ?thesis
    using assms rq_invD(1) [OF assms(1)]
    by (simp add: enqueue_thread_def Let_def ll_enqueue_def set_bit_k_def)
qed

text \<open>The effect of removing, waking and switching, with the new run queue named.\<close>

lemma remove_thread_ok:
  assumes "rq_inv s" "on_runq t s"
  obtains R where "remove_thread t s = Some (s\<lparr>rq := R\<rparr>)" "rq_inv (s\<lparr>rq := R\<rparr>)"
    "\<And>u. queued R u \<longleftrightarrow> u \<noteq> t \<and> on_runq u s"
proof -
  obtain i where i: "i < 32" "t \<in> set (run (rq s) ! i)"
    using assms rq_invD(1) [OF assms(1)] by (auto simp: queued_iff)
  obtain R where R: "remove_thread t s = Some (s\<lparr>rq := R\<rparr>)"
    "run R = (run (rq s))[i := remove1 t (run (rq s) ! i)]"
    using remove_thread_Some [OF assms(1) i] by auto
  have inv: "rq_inv (s\<lparr>rq := R\<rparr>)" and off: "\<not> queued R t"
    using R(1) assms(1) remove_thread_inv remove_thread_off [OF assms(1) R(1)] by auto
  have "u \<in> set (run R ! j) \<longleftrightarrow> u \<in> set (run (rq s) ! j)" if "u \<noteq> t" for u j
    using that R(2) i(1) rq_invD(1) [OF assms(1)] by (cases "j = i") auto
  then have "queued R u \<longleftrightarrow> u \<noteq> t \<and> on_runq u s" for u
    using off R(2) by (cases "u = t") (auto simp: queued_iff)
  with that R(1) inv show ?thesis by blast
qed

lemma wakeup_ok:
  assumes "rq_inv s" "\<not> on_runq t s" "threads s t = Some th"
    "0 \<le> priority_stat th" "priority_stat th \<le> PRIO_RT_MAX"
  obtains R where
    "wakeup t s = Some ((upd_thread t (\<lambda>th. th\<lparr>states := THREAD_READY,
       priority_dyn := priority_stat th\<rparr>) s)\<lparr>rq := R\<rparr>)"
    "rq_inv ((upd_thread t (\<lambda>th. th\<lparr>states := THREAD_READY,
       priority_dyn := priority_stat th\<rparr>) s)\<lparr>rq := R\<rparr>)"
    "\<And>u. queued R u \<longleftrightarrow> u = t \<or> on_runq u s"
proof -
  let ?s = "upd_thread t (\<lambda>th. th\<lparr>states := THREAD_READY, priority_dyn := priority_stat th\<rparr>) s"
  obtain i where i: "PRIOQ (priority_stat th) = int i" "i < 32"
    using assms(4,5) by (intro that [of "nat (PRIOQ (priority_stat th))"])
      (auto simp: PRIOQ_nonneg PRIO_RT_MAX_def)
  have inv: "rq_inv ?s" using assms(1,2) by (rule upd_thread_inv_off)
  obtain R where R: "enqueue_thread t ?s = Some (?s\<lparr>rq := R\<rparr>)"
    "run R = (run (rq s))[i := t # run (rq s) ! i]"
    using enqueue_thread_Some [OF inv, of t _ i] i assms(2,3) by auto
  have "u \<in> set (run R ! j) \<longleftrightarrow> u = t \<and> j = i \<or> u \<in> set (run (rq s) ! j)" if "j < 32" for u j
    using that R(2) i(2) rq_invD(1) [OF assms(1)] by (cases "j = i") auto
  moreover have "length (run R) = 32" "length (run (rq s)) = 32"
    using R(2) rq_invD(1) [OF assms(1)] by auto
  ultimately have "queued R u \<longleftrightarrow> u = t \<or> on_runq u s" for u
    using i(2) unfolding queued_iff by auto
  moreover have "wakeup t s = Some (?s\<lparr>rq := R\<rparr>)" using R(1) by (simp add: wakeup_def)
  moreover have "rq_inv (?s\<lparr>rq := R\<rparr>)" using enqueue_thread_inv [OF inv R(1)] .
  ultimately show ?thesis using that by blast
qed

lemma frs_bitmap_cases:
  assumes "rq_inv s"
  obtains (idle) "frs (rq_bitmap (rq s)) < 0" "\<forall>j<32. run (rq s) ! j = []"
  | (found) i where "frs (rq_bitmap (rq s)) = int i" "i < 32" "run (rq s) ! i \<noteq> []"
      "\<forall>j<32. i < j \<longrightarrow> run (rq s) ! j = []"
proof (cases "frs (rq_bitmap (rq s)) < 0")
  case True
  then have "rq_bitmap (rq s) = 0" by (simp add: frs_neg_iff)
  then show ?thesis using idle True rq_invD(2) [OF assms] by auto
next
  case False
  then have "rq_bitmap (rq s) \<noteq> 0" by (simp add: frs_neg_iff [symmetric])
  then show ?thesis
    using found frs_nonneg rq_invD(2) [OF assms] by blast
qed

lemma pick_next_cases:
  assumes "rq_inv s"
  obtains (idle) "pick_next s = Some (init_thread s)" "\<forall>j<32. run (rq s) ! j = []"
  | (found) i where "pick_next s = Some (last (run (rq s) ! i))" "i < 32" "run (rq s) ! i \<noteq> []"
      "\<forall>j<32. i < j \<longrightarrow> run (rq s) ! j = []"
  using assms
proof (cases rule: frs_bitmap_cases)
  case idle
  then show ?thesis using that(1) by (simp add: pick_next_def)
next
  case (found i)
  then show ?thesis using that(2) [of i] rq_invD(1) [OF assms]
    by (simp add: pick_next_def klist_simps)
qed

lemma schedule_ok:
  assumes "rq_inv s"
  obtains new where
    "schedule s = Some (upd_thread new (\<lambda>th. th\<lparr>schedule_flag := 0\<rparr>) (s\<lparr>current := new\<rparr>))"
  using assms by (cases rule: pick_next_cases) (auto simp: schedule_def intro: that)

lemma remove1_last: "distinct xs \<Longrightarrow> xs \<noteq> [] \<Longrightarrow> remove1 (last xs) xs = butlast xs"
  by (induction xs) auto

text \<open>
  \<open>yields n\<close> is what happens when the running thread, and then each thread that runs next,
  calls \<open>sched_yield\<close>, \<open>n\<close> times: the pending flag makes the return from the system call
  enter \<open>schedule\<close>.
\<close>

primrec yields :: "nat \<Rightarrow> 'z kstate_scheme \<Rightarrow> 'z kstate_scheme option" where
  "yields 0 s = Some s"
| "yields (Suc n) s = do {
     (r, s) \<leftarrow> syscall_sched_yield s;
     s \<leftarrow> schedule s;
     yields n s
   }"

text \<open>The run queue when the running thread is the oldest of the highest list \<open>i\<close>.\<close>

definition runs_from :: "nat \<Rightarrow> 'z kstate_scheme \<Rightarrow> bool" where
  "runs_from i s \<longleftrightarrow> rq_inv s \<and> i < 32 \<and> run (rq s) ! i \<noteq> [] \<and>
     (\<forall>j<32. i < j \<longrightarrow> run (rq s) ! j = []) \<and> current s = last (run (rq s) ! i)"

lemma schedule_runs_from:
  assumes "rq_inv s" "i < 32" "run (rq s) ! i \<noteq> []" "\<forall>j<32. i < j \<longrightarrow> run (rq s) ! j = []"
  obtains s' where "schedule s = Some s'" "runs_from i s'" "rq s' = rq s"
  using assms(1)
proof (cases rule: pick_next_cases)
  case idle
  then show ?thesis using assms by auto
next
  case (found k)
  then have "k = i" using assms(2-4) by (metis linorder_neqE_nat)
  then show ?thesis
    using that found assms by (simp add: schedule_def runs_from_def)
qed

lemma yield_step:
  assumes "runs_from i s"
  obtains s1 s2 where "syscall_sched_yield s = Some (0, s1)" "schedule s1 = Some s2"
    "runs_from i s2" "run (rq s2) ! i = last (run (rq s) ! i) # butlast (run (rq s) ! i)"
proof -
  let ?l = "run (rq s) ! i" let ?t = "last ?l"
  have s: "rq_inv s" "i < 32" "?l \<noteq> []" "\<forall>j<32. i < j \<longrightarrow> run (rq s) ! j = []" "current s = ?t"
    using assms by (auto simp: runs_from_def)
  then have len: "length (run (rq s)) = 32" and t: "?t \<in> set ?l" and d: "distinct ?l"
    using rq_invD [OF s(1)] by auto
  obtain a where a: "remove_thread ?t s = Some a" using remove_thread_Some [OF s(1,2) t] by blast
  have runa: "run (rq a) = (run (rq s))[i := butlast ?l]" "threads a = threads s"
    using a remove_thread_Some [OF s(1,2) t] remove1_last [OF d s(3)] by auto
  obtain th where th: "threads a ?t = Some th" "PRIOQ (priority_dyn th) = int i"
    using rq_invD(4) [OF s(1,2) t] runa by auto
  have inva: "rq_inv a" and off: "\<not> on_runq ?t a"
    using a s(1) remove_thread_inv remove_thread_off by blast+
  obtain b where b: "enqueue_thread ?t a = Some b" "run (rq b) = (run (rq s))[i := ?t # butlast ?l]"
    using enqueue_thread_Some [OF inva th s(2) off] len s(2) runa by auto
  let ?b = "upd_thread ?t (\<lambda>th. th\<lparr>schedule_flag := 1\<rparr>) b"
  have y: "syscall_sched_yield s = Some (0, ?b)"
    using a b s(5) by (simp add: syscall_sched_yield_def)
  have "rq_inv ?b" "run (rq ?b) ! i = ?t # butlast ?l"
    "\<forall>j<32. i < j \<longrightarrow> run (rq ?b) ! j = []"
    using b enqueue_thread_inv [OF inva b(1)] len s(2,4) by auto
  with schedule_runs_from [of ?b i] s(2) that y show ?thesis by force
qed

section \<open>Properties\<close>

text \<open>The states the scheduler reaches from its initialisation.\<close>

inductive sched_reach :: "'z kstate_scheme \<Rightarrow> bool" where
  init: "sched_reach (sched_init s)"
| wakeup: "sched_reach s \<Longrightarrow> wakeup t s = Some s' \<Longrightarrow> sched_reach s'"
| enqueue: "sched_reach s \<Longrightarrow> enqueue_thread t s = Some s' \<Longrightarrow> sched_reach s'"
| remove: "sched_reach s \<Longrightarrow> remove_thread t s = Some s' \<Longrightarrow> sched_reach s'"
| schedule: "sched_reach s \<Longrightarrow> schedule s = Some s' \<Longrightarrow> sched_reach s'"
| timer: "sched_reach s \<Longrightarrow> sched_timer s = Some s' \<Longrightarrow> sched_reach s'"
| yield: "sched_reach s \<Longrightarrow> syscall_sched_yield s = Some (r, s') \<Longrightarrow> sched_reach s'"
| sleep_int: "sched_reach s \<Longrightarrow> sleep_interruptible t s = Some s' \<Longrightarrow> sched_reach s'"
| sleep_unint: "sched_reach s \<Longrightarrow> sleep_uninterruptible t s = Some s' \<Longrightarrow> sched_reach s'"

lemma sched_reach_rq_inv: "sched_reach s \<Longrightarrow> rq_inv s"
  by (induction rule: sched_reach.induct) (blast intro: kinv_intro)+

text \<open>Two threads of one priority in the queue, and an idle thread.\<close>

definition sched_ex :: kstate where
  "sched_ex = kstate0\<lparr>threads := [0 \<mapsto> thread0,
       1 \<mapsto> thread0\<lparr>priority_stat := 40, priority_dyn := 40, bound := 4, time_slice := 1,
                    schedpolicy := SCHED_OTHER\<rparr>,
       2 \<mapsto> thread0\<lparr>priority_stat := 40, priority_dyn := 40\<rparr>],
     rq := \<lparr>rq_bitmap = 0x400, run = (replicate MAXQ [])[10 := [2, 1]], nthreads = 2\<rparr>,
     current := 1\<rparr>"

lemma sched_ex_reach: "sched_reach sched_ex"
proof -
  let ?s = "sched_init sched_ex"
  let ?a = "?s\<lparr>rq := \<lparr>rq_bitmap = 0x400, run = (replicate MAXQ [])[10 := [1]], nthreads = 1\<rparr>\<rparr>"
  have bits: "set_bit 10 0 = (0x400 :: u32)" "set_bit 10 0x400 = (0x400 :: u32)" by code_simp+
  have "enqueue_thread 1 ?s = Some ?a"
    using enqueue_thread_Some [OF sched_init_inv, of sched_ex 1 _ 10] bits
    by (simp add: sched_ex_def sched_init_def PRIOQ_def cdiv_def queued_iff MAXQ_def)
  moreover from this have "rq_inv ?a" using enqueue_thread_inv sched_init_inv by blast
  then have "enqueue_thread 2 ?a = Some sched_ex"
    using enqueue_thread_Some [of ?a 2 _ 10] bits
    by (auto simp: sched_ex_def sched_init_def PRIOQ_def cdiv_def queued_iff MAXQ_def
        nth_list_update)
  ultimately show ?thesis using sched_reach.init sched_reach.enqueue by blast
qed



lemma sched_ex_runs_from: "runs_from 10 sched_ex"
  using sched_reach_rq_inv [OF sched_ex_reach]
  by (simp add: runs_from_def sched_ex_def MAXQ_def nth_list_update)

text \<open>C1. On a consistent run queue \<open>schedule\<close> always switches, without changing the run queue:
  to the idle thread when no thread is queued, and otherwise to a queued thread such that no
  queued thread is in a higher priority list, namely the one that has been longest in its
  list.\<close>

theorem schedule_picks_highest:
  assumes "rq_inv s"
  shows "\<exists>s'. schedule s = Some s' \<and> rq s' = rq s \<and>
    (if \<exists>t. on_runq t s
     then \<exists>th. threads s (current s') = Some th \<and> on_runq (current s') s \<and>
       current s' = last (run (rq s) ! nat (PRIOQ (priority_dyn th))) \<and>
       (\<forall>u uth. on_runq u s \<and> threads s u = Some uth \<longrightarrow>
          PRIOQ (priority_dyn uth) \<le> PRIOQ (priority_dyn th))
     else current s' = init_thread s)"
  using assms
proof (cases rule: pick_next_cases)
  case idle
  then have "\<not> on_runq t s" for t using rq_invD(1) [OF assms] by (auto simp: queued_iff)
  then show ?thesis using idle by (simp add: schedule_def)
next
  case (found i)
  let ?t = "last (run (rq s) ! i)"
  have t: "?t \<in> set (run (rq s) ! i)" using found by simp
  then obtain th where th: "threads s ?t = Some th" "PRIOQ (priority_dyn th) = int i"
    using rq_invD(4) [OF assms] found by blast
  have on: "on_runq ?t s" using t found rq_invD(1) [OF assms] by (auto simp: queued_iff)
  have "PRIOQ (priority_dyn uth) \<le> int i" if u: "on_runq u s" and uth: "threads s u = Some uth" for u uth
  proof -
    obtain j where j: "j < 32" "u \<in> set (run (rq s) ! j)"
      using u rq_invD(1) [OF assms] by (auto simp: queued_iff)
    then have "\<not> i < j" using found by force
    then show ?thesis using rq_invD(4) [OF assms j] uth by auto
  qed
  then show ?thesis using found th on by (auto simp: schedule_def)
qed

theorem schedule_picks_highest_witness:
  "\<exists>s'. schedule sched_ex = Some s' \<and> on_runq (current s') sched_ex"
proof -
  have "on_runq 1 sched_ex"
    unfolding queued_iff by (rule exI [of _ 10]) (simp add: sched_ex_def MAXQ_def)
  then show ?thesis
    using schedule_picks_highest [OF sched_reach_rq_inv [OF sched_ex_reach]]
    by (metis (no_types, lifting))
qed

text \<open>C24. Yielding is round robin: when the running thread is the oldest of the highest list,
  after any number \<open>k\<close> of yields of the threads that run in turn, the running thread is the
  \<open>k\<close>-th oldest of that list, counted cyclically, and the list is rotated by \<open>k\<close>; so
  every thread of the list runs once in as many yields as the list has threads.\<close>

theorem yield_round_robin:
  assumes "runs_from i s"
  shows "\<exists>s'. yields k s = Some s' \<and> runs_from i s' \<and>
    rev (run (rq s') ! i) = rotate k (rev (run (rq s) ! i)) \<and>
    current s' = rev (run (rq s) ! i) ! (k mod length (run (rq s) ! i))"
  using assms
proof (induction k arbitrary: s)
  case 0
  then show ?case by (auto simp: runs_from_def hd_conv_nth [symmetric] hd_rev)
next
  case (Suc k)
  let ?l = "run (rq s) ! i"
  obtain s1 s2 where y: "syscall_sched_yield s = Some (0, s1)" "schedule s1 = Some s2"
    and s2: "runs_from i s2" "run (rq s2) ! i = last ?l # butlast ?l"
    using yield_step [OF Suc.prems] by blast
  have ne: "?l \<noteq> []" using Suc.prems by (simp add: runs_from_def)
  then have rev: "rev (run (rq s2) ! i) = rotate1 (rev ?l)"
    unfolding s2(2) by (cases ?l rule: rev_cases) auto
  obtain s' where s': "yields k s2 = Some s'" "runs_from i s'"
    "rev (run (rq s') ! i) = rotate k (rotate1 (rev ?l))"
    using Suc.IH [OF s2(1)] rev by auto
  have "current s' = hd (rev (run (rq s') ! i))"
    using s'(2) by (simp add: runs_from_def hd_rev)
  also have "\<dots> = hd (rotate (Suc k) (rev ?l))" using s'(3) by (simp add: rotate1_rotate_swap)
  also have "\<dots> = rev ?l ! (Suc k mod length ?l)" 
    using ne hd_rotate_conv_nth [of "rev ?l" "Suc k"] by (simp del: rotate_Suc)
  finally show ?case using y s' by (simp add: rotate1_rotate_swap)
qed

theorem yield_round_robin_witness:
  "\<exists>s'. yields 1 sched_ex = Some s' \<and> current s' = 2"
  using yield_round_robin [OF sched_ex_runs_from, of 1] by (auto simp: sched_ex_def MAXQ_def)

text \<open>C29. A timer tick changes only the running thread and the run queue. A thread that is not
  time-shared (another policy than \<open>SCHED_OTHER\<close>, or a system priority) is left alone; a
  time-shared one loses one tick of its slice, and when the slice is used up it gets a new
  slice, a bonus one smaller but not under \<open>PRIO_OTHER_MIN\<close>, the dynamic priority
  static priority plus bonus, and the youngest place of that priority's list.\<close>

theorem sched_timer_tick:
  assumes "rq_inv s" "i < 32" "current s \<in> set (run (rq s) ! i)"
    "threads s (current s) = Some th" "0 \<le> priority_stat th"
    "priority_stat th + max PRIO_OTHER_MIN (bound th - 1) \<le> PRIO_RT_MAX"
  shows "\<exists>s'. sched_timer s = Some s' \<and> rq_inv s' \<and> current s' = current s \<and>
    (\<forall>u. u \<noteq> current s \<longrightarrow> threads s' u = threads s u) \<and>
    (if schedpolicy th \<noteq> SCHED_OTHER \<or> PRIO_SYS_MIN \<le> priority_stat th then s' = s
     else if time_slice th \<noteq> 1 then
       threads s' (current s) = Some (th\<lparr>time_slice := time_slice th - 1\<rparr>) \<and> rq s' = rq s
     else let b = max PRIO_OTHER_MIN (bound th - 1); p = priority_stat th + b in
       threads s' (current s) = Some (th\<lparr>time_slice := SLICE, bound := b, priority_dyn := p\<rparr>) \<and>
       hd (run (rq s') ! nat (PRIOQ p)) = current s)"
proof -
  let ?t = "current s"
  define b where "b = max PRIO_OTHER_MIN (bound th - 1)"
  consider (fixed) "schedpolicy th \<noteq> SCHED_OTHER \<or> PRIO_SYS_MIN \<le> priority_stat th"
    | (tick) "schedpolicy th = SCHED_OTHER" "priority_stat th < PRIO_SYS_MIN" "time_slice th \<noteq> 1"
    | (expire) "schedpolicy th = SCHED_OTHER" "priority_stat th < PRIO_SYS_MIN" "time_slice th = 1"
    by linarith
  then show ?thesis
  proof cases
    case fixed
    then show ?thesis using assms by (auto simp: sched_timer_def Let_def)
  next
    case tick
    then show ?thesis using assms
      by (auto simp: sched_timer_def Let_def SCHED_OTHER_def SCHED_RR_def)
  next
    case expire
    let ?a = "upd_thread ?t (\<lambda>th. th\<lparr>time_slice := SLICE, bound := b\<rparr>) s"
    have a: "rq_inv ?a" using assms(1) by simp
    obtain c where c: "remove_thread ?t ?a = Some c" "threads c = threads ?a" "current c = ?t"
      using remove_thread_Some [OF a assms(2), of ?t] assms(3) by auto
    have inv: "rq_inv c" "\<not> on_runq ?t c" using c a remove_thread_inv remove_thread_off by blast+
    let ?d = "upd_thread ?t (\<lambda>th. th\<lparr>priority_dyn := priority_stat th + bound th\<rparr>) c"
    let ?p = "priority_stat th + b"
    have p: "0 \<le> ?p" "?p \<le> 127"
      using assms(5,6) expire by (auto simp: b_def prio_defs)
    then have q: "PRIOQ ?p = int (nat (PRIOQ ?p))" "nat (PRIOQ ?p) < 32"
      by (auto simp: PRIOQ_nonneg)
    have d: "rq_inv ?d" "\<not> on_runq ?t ?d"
      "threads ?d ?t = Some (th\<lparr>time_slice := SLICE, bound := b, priority_dyn := ?p\<rparr>)"
      using inv c assms(4) upd_thread_inv_off by simp_all
    obtain e where e: "enqueue_thread ?t ?d = Some e" "threads e = threads ?d" "current e = ?t"
      "run (rq e) = (run (rq c))[nat (PRIOQ ?p) := ?t # run (rq c) ! nat (PRIOQ ?p)]"
      using enqueue_thread_Some [OF d(1,3), of "nat (PRIOQ ?p)"] q d(2) c(3) by auto
    have "sched_timer s = Some e"
      using expire assms(4) c(1) e(1)
      by (auto simp: sched_timer_def Let_def SCHED_OTHER_def SCHED_RR_def b_def max_def)
    then show ?thesis
      using expire e d c(2) q rq_invD(1) [OF inv(1)] enqueue_thread_inv [OF d(1) e(1)]
      by (simp add: Let_def b_def)
  qed
qed

theorem sched_timer_tick_witness:
  "\<exists>s'. sched_timer sched_ex = Some s' \<and> rq_inv s' \<and> hd (run (rq s') ! 11) = 1"
proof -
  have "current sched_ex = 1" "1 \<in> set (run (rq sched_ex) ! 10)"
    by (simp_all add: sched_ex_def MAXQ_def)
  then show ?thesis
    using sched_timer_tick [OF sched_reach_rq_inv [OF sched_ex_reach], of 10]
    by (auto simp: sched_ex_def Let_def prio_defs SCHED_OTHER_def PRIOQ_def cdiv_def)
qed

end
