(* ===== verification/KThread.thy ===== *)
theory KThread
  imports Sched
begin

text \<open>
  Threads (\<^verbatim>\<open>kernel/thread.c\<close>): the table of threads by id, creation, destruction,
  waiting for a thread and the end of the threads of a process.

  The memory of a new thread is what \<open>kmem_alloc\<close> returns: an argument with the address and
  the contents found there (\<open>None\<close> when there is no memory). \<open>context_create\<close> also fills
  in saved registers, which are not part of the model.
\<close>

section \<open>The table of threads\<close>

definition tid_at :: "'z kstate_scheme \<Rightarrow> addr \<Rightarrow> int option" where
  "tid_at s p = map_option tid (threads s p)"

definition thash_insert :: "addr \<Rightarrow> 'z kstate_scheme \<Rightarrow> 'z kstate_scheme option" where
  "thash_insert thread s = do {
     k \<leftarrow> tid_at s thread;
     h \<leftarrow> hash_insert (hash_fn k) thread (thash s);
     Some (s\<lparr>thash := h\<rparr>)
   }"

definition thash_remove :: "addr \<Rightarrow> 'z kstate_scheme \<Rightarrow> 'z kstate_scheme option" where
  "thash_remove thread s = do {
     k \<leftarrow> tid_at s thread;
     h \<leftarrow> hash_remove (hash_fn k) thread (thash s);
     Some (s\<lparr>thash := h\<rparr>)
   }"

text \<open>
  The loop of \<open>find_by_tid\<close>. It reads \<open>link->tid\<close> before it tests \<open>link\<close>, so at the
  end of the chain it dereferences the null pointer.
\<close>

partial_function (option) tid_walk ::
  "htab \<Rightarrow> (addr \<Rightarrow> int option) \<Rightarrow> int \<Rightarrow> addr option \<Rightarrow> addr option option" where
  "tid_walk h key k link = do {
     a \<leftarrow> link;
     k' \<leftarrow> key a;
     if k' \<noteq> k then tid_walk h key k (links h a) else Some (Some a)
   }"

definition tid_find :: "htab \<Rightarrow> (addr \<Rightarrow> int option) \<Rightarrow> int \<Rightarrow> addr option option" where
  "tid_find h key k = do {
     first \<leftarrow> aget (heads h) (hash_fn k);
     a \<leftarrow> first;
     k' \<leftarrow> key a;
     if k' = k then Some (Some a) else tid_walk h key k first
   }"

definition find_by_tid :: "int \<Rightarrow> 'z kstate_scheme \<Rightarrow> addr option option" where
  "find_by_tid t s = tid_find (thash s) (tid_at s) t"

definition change_tid :: "addr \<Rightarrow> int \<Rightarrow> 'z kstate_scheme \<Rightarrow> 'z kstate_scheme option" where
  "change_tid thread new s = do {
     k \<leftarrow> tid_at s thread;
     i \<leftarrow> dealloc_tid k (ids s);
     thash_insert thread (upd_thread thread (\<lambda>th. th\<lparr>tid := new\<rparr>) (s\<lparr>ids := i\<rparr>))
   }"

section \<open>Creation\<close>

definition list_enqueue_thread :: "addr \<Rightarrow> addr \<Rightarrow> 'z kstate_scheme \<Rightarrow> 'z kstate_scheme option" where
  "list_enqueue_thread process thread s = do {
     p \<leftarrow> procs s process;
     l \<leftarrow> ll_enqueue thread (p_threads p);
     Some (upd_proc process (\<lambda>p. p\<lparr>p_threads := l\<rparr>) s)
   }"

text \<open>
  The attributes are copied before \<open>attr\<close> is compared with the null pointer, so the branch
  that inherits the scheduling parameters of the running thread is never taken with a null
  \<open>attr\<close>: the call has no result then.
\<close>

definition create_thread :: "(addr \<times> thread) option \<Rightarrow> addr \<Rightarrow> thread_attr option \<Rightarrow>
  'z kstate_scheme \<Rightarrow> (addr option \<times> 'z kstate_scheme) option" where
  "create_thread mem process attr s =
     (case mem of
        None \<Rightarrow> Some (None, s)
      | Some (thr, th0) \<Rightarrow> do {
          s \<leftarrow> list_enqueue_thread process thr (s\<lparr>threads := (threads s)(thr \<mapsto> th0)\<rparr>);
          (t, i) \<leftarrow> alloc_tid (ids s);
          at \<leftarrow> attr;
          let s = upd_thread thr (\<lambda>th. th\<lparr>t_proc := process, kstack := thr + 4096 - 1,
             states := THREAD_READY, sigpending := 0, time_slice := SLICE, tid := t,
             attr_flags := a_flags at, priority_stat := a_prio at, stackaddr := a_stackaddr at,
             stack_size := a_stack_size at, schedpolicy := a_policy at,
             rcvq := [], schedule_flag := 0, waiting := None\<rparr>) (s\<lparr>ids := i\<rparr>);
          s \<leftarrow> thash_insert thr (s\<lparr>total_threads := total_threads s + 1\<rparr>);
          Some (Some thr, upd_thread thr (\<lambda>th. th\<lparr>priority_stat := a_prio at,
            priority_dyn := a_prio at, schedpolicy := a_policy at, irqflag := 0\<rparr>) s)
        })"

text \<open>
  The running thread becomes the initial thread; \<open>kproc\<close> is the address of the kernel
  process. The thread is put in the table before its id is cleared.
\<close>

definition thread_init :: "addr \<Rightarrow> 'z kstate_scheme \<Rightarrow> 'z kstate_scheme option" where
  "thread_init kproc s = do {
     let thr = current s;
     s \<leftarrow> list_enqueue_thread kproc thr (s\<lparr>thash := htab_empty, init_thread := thr\<rparr>);
     s \<leftarrow> thash_insert thr (upd_thread thr (\<lambda>th. th\<lparr>kstack := thr + 4096 - 1, t_proc := kproc,
            irqflag := 0\<rparr>) s);
     Some (upd_thread thr (\<lambda>th. th\<lparr>priority_stat := PRIO_SYS_DEF, priority_dyn := PRIO_SYS_DEF,
       schedpolicy := SCHED_OTHER, time_slice := SLICE, tid := 0, sigpending := 0,
       schedule_flag := 0, waiting := None, rcvq := []\<rparr>) s)
   }"

section \<open>Destruction\<close>

text \<open>
  \<open>exit_threads\<close> takes a thread out of the list of its process before it destroys it. Unlinking
  an item again directly after it was dequeued changes nothing (\<open>list_del_dequeued\<close> of
  \<^theory_text>\<open>KList\<close>), so here unlinking an item that is not in the list leaves the list.
\<close>

definition list_del_thread :: "addr \<Rightarrow> addr \<Rightarrow> 'z kstate_scheme \<Rightarrow> 'z kstate_scheme option" where
  "list_del_thread process thread s = do {
     p \<leftarrow> procs s process;
     Some (upd_proc process (\<lambda>p. p\<lparr>p_threads := remove1 thread (p_threads p)\<rparr>) s)
   }"

text \<open>The counter that goes down is that of the processes. Freed memory leaves the model.\<close>

definition destroy_thread :: "addr \<Rightarrow> 'z kstate_scheme \<Rightarrow> 'z kstate_scheme option" where
  "destroy_thread thread s = do {
     th \<leftarrow> threads s thread;
     i \<leftarrow> dealloc_tid (tid th) (ids s);
     s \<leftarrow> thash_remove thread (s\<lparr>ids := i\<rparr>);
     s \<leftarrow> (case waiting th of None \<Rightarrow> Some s | Some w \<Rightarrow> wakeup w s);
     s \<leftarrow> list_del_thread (t_proc th) thread (s\<lparr>total_process := total_process s - 1\<rparr>);
     Some (s\<lparr>threads := (threads s)(thread := None)\<rparr>)
   }"

text \<open>The loop ends when the running thread has been met twice. \<open>seen\<close> counts the meetings.\<close>

partial_function (option) exit_threads_loop ::
  "addr \<Rightarrow> nat \<Rightarrow> 'z kstate_scheme \<Rightarrow> 'z kstate_scheme option" where
  "exit_threads_loop process seen s = do {
     p \<leftarrow> procs s process;
     if p_threads p = [] then Some s
     else do {
       (thr, l) \<leftarrow> ll_dequeue (p_threads p);
       let s = upd_proc process (\<lambda>p. p\<lparr>p_threads := l\<rparr>) s;
       if thr = current s then do {
         s \<leftarrow> list_enqueue_thread process thr s;
         if Suc seen < 2 then exit_threads_loop process (Suc seen) s else Some s
       } else do {
         s \<leftarrow> destroy_thread thr s;
         if seen < 2 then exit_threads_loop process seen s else Some s
       }
     }
   }"

definition exit_threads :: "addr \<Rightarrow> 'z kstate_scheme \<Rightarrow> 'z kstate_scheme option" where
  "exit_threads process s = exit_threads_loop process 0 s"

section \<open>Waiting\<close>

text \<open>The thread that is put to sleep is the one waited for.\<close>

definition thread_wait :: "int \<Rightarrow> 'z kstate_scheme \<Rightarrow> (int \<times> 'z kstate_scheme) option" where
  "thread_wait t s = do {
     r \<leftarrow> find_by_tid t s;
     case r of
       None \<Rightarrow> Some (- ESRCH, s)
     | Some thr \<Rightarrow> do {
         s \<leftarrow> sleep_uninterruptible thr (upd_thread thr (\<lambda>th. th\<lparr>waiting := Some (current s)\<rparr>) s);
         Some (0, s)
       }
   }"

definition exec_thread :: "addr \<Rightarrow> 'z kstate_scheme \<Rightarrow> 'z kstate_scheme option" where
  "exec_thread thr s = do {
     th \<leftarrow> threads s thr;
     s \<leftarrow> (case waiting th of None \<Rightarrow> Some s | Some w \<Rightarrow> wakeup w s);
     Some (upd_thread thr (\<lambda>th. th\<lparr>waiting := None, rcvq := []\<rparr>) s)
   }"

definition syscall_gettid :: "'z kstate_scheme \<Rightarrow> int option" where
  "syscall_gettid s = do { th \<leftarrow> cur_thread s; Some (tid th) }"

definition syscall_get_ustack :: "'z kstate_scheme \<Rightarrow> u32 option" where
  "syscall_get_ustack s = do { th \<leftarrow> cur_thread s; Some (stackaddr th) }"

section \<open>The table of threads as a directory\<close>

lemma tid_walk_find:
  assumes "chain (links h) l (xs @ p # ys)"
    "\<And>q. q \<in> set xs \<Longrightarrow> \<exists>k'. key q = Some k' \<and> k' \<noteq> k" "key p = Some k"
  shows "tid_walk h key k l = Some (Some p)"
  using assms
proof (induction xs arbitrary: l)
  case Nil
  then show ?case by (simp add: tid_walk.simps)
next
  case (Cons x xs)
  then obtain k' where "key x = Some k'" "k' \<noteq> k" by auto
  then show ?case using Cons by (subst tid_walk.simps) auto
qed

interpretation tids: bucket_dir hash_fn tid_find
proof
  show "hash_fn k < NWORDS" for k by (simp add: NWORDS_def)
  show "tid_find h key k = Some (Some p)"
    if "length (heads h) = NWORDS" and ch: "chain (links h) (heads h ! hash_fn k) (xs @ p # ys)"
      and key: "\<And>q. q \<in> set xs \<Longrightarrow> \<exists>k'. key q = Some k' \<and> k' \<noteq> k" "key p = Some k"
    for h k xs p ys key
  proof -
    have "hash_fn k < length (heads h)" using that(1) by (simp add: NWORDS_def)
    moreover obtain a k' where "heads h ! hash_fn k = Some a" "key a = Some k'" "k' = k \<longrightarrow> a = p"
      using ch key by (cases xs) fastforce+
    ultimately show ?thesis
      using tid_walk_find [of h _ xs p ys key k, OF ch key] by (simp add: tid_find_def)
  qed
qed

text \<open>
  The table of threads is consistent: its buckets \<open>B\<close> hold threads with different ids, and
  the ids above the reserved ones are marked in the id bitmap.
\<close>

definition thread_inv :: "'z kstate_scheme \<Rightarrow> (nat \<Rightarrow> addr list) \<Rightarrow> bool" where
  "thread_inv s B \<longleftrightarrow> htab_rep (thash s) B \<and> keyed hash_fn (tid_at s) B \<and>
     id_wf (tidbitmap (ids s)) (tidhint (ids s)) \<and>
     (\<forall>i<NWORDS. \<forall>p \<in> set (B i). \<forall>k. tid_at s p = Some k \<longrightarrow> FIRST_USER_TID \<le> k \<longrightarrow>
        k \<in> used_ids FIRST_USER_TID (tidbitmap (ids s)))"

lemma thread_inv_find:
  assumes "thread_inv s B" "in_table p B" "tid_at s p = Some k"
  shows "find_by_tid k s = Some (Some p)"
  using assms keyed_bucket [of hash_fn "tid_at s" B p k]
  by (auto simp: thread_inv_def find_by_tid_def intro: tids.find_member)

lemma tid_at_simps [simp]:
  "tid_at (upd_proc p f s) = tid_at s" "tid_at (thash_update g s) = tid_at s"
  "tid_at (ids_update g' s) = tid_at s" "tid_at (rq_update g1 s) = tid_at s"
  "tid_at (total_threads_update g2 s) = tid_at s" "tid_at (total_process_update g3 s) = tid_at s"
  "(\<And>th. tid (f' th) = tid th) \<Longrightarrow> tid_at (upd_thread t f' s) = tid_at s"
  by (auto simp: tid_at_def option.map_comp comp_def fun_eq_iff)

lemma thread_inv_simps [simp]:
  "thread_inv (upd_proc p f s) B \<longleftrightarrow> thread_inv s B"
  "thread_inv (rq_update g1 s) B \<longleftrightarrow> thread_inv s B"
  "thread_inv (total_threads_update g2 s) B \<longleftrightarrow> thread_inv s B"
  "thread_inv (total_process_update g3 s) B \<longleftrightarrow> thread_inv s B"
  "(\<And>th. tid (f' th) = tid th) \<Longrightarrow> thread_inv (upd_thread t f' s) B \<longleftrightarrow> thread_inv s B"
  by (simp_all add: thread_inv_def)

text \<open>A new id is not in the table, so the thread can be entered under it.\<close>

lemma thash_insert_inv:
  assumes inv: "thread_inv s B" and new: "\<not> in_table thr B"
    and t: "FIRST_USER_TID \<le> t" "t \<notin> used_ids FIRST_USER_TID (tidbitmap (ids s))"
    and i: "used_ids FIRST_USER_TID (tidbitmap (ids s2)) =
      insert t (used_ids FIRST_USER_TID (tidbitmap (ids s)))"
      "id_wf (tidbitmap (ids s2)) (tidhint (ids s2))"
    and s2: "tid_at s2 thr = Some t" "\<And>p. p \<noteq> thr \<Longrightarrow> tid_at s2 p = tid_at s p"
      "thash s2 = thash s"
  obtains h where "thash_insert thr s2 = Some (s2\<lparr>thash := h\<rparr>)"
    "thread_inv (s2\<lparr>thash := h\<rparr>) (B(hash_fn t := thr # B (hash_fn t)))"
proof -
  note inv = inv [unfolded thread_inv_def]
  have same: "tid_at s2 p = tid_at s p" if "in_table p B" for p
    using that s2(2) [of p] new by (cases "p = thr") auto
  have kd: "keyed hash_fn (tid_at s2) B"
    using inv keyed_cong [of B "tid_at s2" "tid_at s" hash_fn, OF same] by blast
  have lt: "hash_fn t < NWORDS" by (simp add: NWORDS_def)
  have "tid_at s2 q \<noteq> Some t" if "q \<in> set (B (hash_fn t))" for q
    using that same [of q] inv t lt unfolding in_table_def by metis
  then obtain h where h: "hash_insert (hash_fn t) thr (thash s) = Some h"
    "htab_rep h (B(hash_fn t := thr # B (hash_fn t)))"
    "keyed hash_fn (tid_at s2) (B(hash_fn t := thr # B (hash_fn t)))"
    using tids.find_insert [OF _ kd s2(1)] inv new by (metis in_table_def)
  have "k \<in> used_ids FIRST_USER_TID (tidbitmap (ids s2))"
    if "j < NWORDS" "p \<in> set ((B(hash_fn t := thr # B (hash_fn t))) j)" "tid_at s2 p = Some k"
      "FIRST_USER_TID \<le> k" for j p k
  proof (cases "p = thr")
    case True
    then show ?thesis using that s2(1) i(1) by simp
  next
    case False
    then have "p \<in> set (B j)" using that(2) by (auto split: if_splits)
    then show ?thesis using that s2(2) [OF False] inv i(1) by auto
  qed
  then have "thread_inv (s2\<lparr>thash := h\<rparr>) (B(hash_fn t := thr # B (hash_fn t)))"
    using h i(2) by (simp add: thread_inv_def)
  then show ?thesis
    using that h(1) s2(1,3) by (simp add: thash_insert_def)
qed

text \<open>Removing a thread with a user id frees the id and keeps the table consistent.\<close>

lemma thash_remove_inv:
  fixes s :: "'z kstate_scheme"
  assumes inv: "thread_inv s B" and "in_table thr B" "tid_at s thr = Some t" "FIRST_USER_TID \<le> t"
  obtains i h B' where "dealloc_tid t (ids s) = Some i"
    "thash_remove thr (s\<lparr>ids := i\<rparr>) = Some (s\<lparr>ids := i, thash := h\<rparr>)"
    "\<And>q. in_table q B' \<longleftrightarrow> q \<noteq> thr \<and> in_table q B"
    "\<And>s2 :: 'z kstate_scheme. thash s2 = h \<Longrightarrow> ids s2 = i \<Longrightarrow>
       (\<And>q. q \<noteq> thr \<Longrightarrow> tid_at s2 q = tid_at s q) \<Longrightarrow> thread_inv s2 B'"
proof -
  note I = inv [unfolded thread_inv_def]
  have rep: "htab_rep (thash s) B" and kd: "keyed hash_fn (tid_at s) B" using I by blast+
  let ?U = "\<lambda>i. used_ids FIRST_USER_TID (tidbitmap i)"
  have lt: "hash_fn t < NWORDS" by (simp add: NWORDS_def)
  have mem: "thr \<in> set (B (hash_fn t))" using keyed_bucket [of hash_fn "tid_at s" B thr t] I assms by blast
  have "t \<in> ?U (ids s)" using I mem lt assms(3,4) by blast
  then obtain i where i: "dealloc_tid t (ids s) = Some i" "?U i = ?U (ids s) - {t}"
    "id_wf (tidbitmap i) (tidhint i)"
    using tid.dealloc_held [of "ids s" t] I by blast
  let ?B = "B(hash_fn t := remove1 thr (B (hash_fn t)))"
  obtain h where h: "hash_remove (hash_fn t) thr (thash s) = Some h" "htab_rep h ?B"
    "keyed hash_fn (tid_at s) ?B"
    using tids.find_remove [OF rep kd assms(3) mem] by blast
  have B: "in_table q ?B \<longleftrightarrow> q \<noteq> thr \<and> in_table q B" for q
    using in_table_remove [OF rep lt mem] by blast
  have keep: "thread_inv s2 ?B"
    if s2: "thash s2 = h" "ids s2 = i" "\<And>q. q \<noteq> thr \<Longrightarrow> tid_at s2 q = tid_at s q" for s2 :: "'z kstate_scheme"
  proof -
    have "keyed hash_fn (tid_at s2) ?B"
      using keyed_cong [of ?B "tid_at s2" "tid_at s" hash_fn] s2(3) h(3) B by blast
    moreover have "k \<in> ?U i" if "j < NWORDS" "q \<in> set (?B j)" "tid_at s2 q = Some k"
      "FIRST_USER_TID \<le> k" for j q k
    proof -
      have q: "q \<noteq> thr" "in_table q B" using B that(1,2) by (auto simp: in_table_def)
      then have k: "tid_at s q = Some k" using s2(3) that(3) by simp
      then have "q \<in> set (B (hash_fn k))" using keyed_bucket [of hash_fn "tid_at s" B q k] I q(2) by blast
      moreover have "hash_fn k < NWORDS" by (simp add: NWORDS_def)
      moreover have "k \<noteq> t"
        using calculation q(1) k assms(3) mem I unfolding keyed_def by (metis inj_onD)
      ultimately show ?thesis using I k that(4) i(2) by blast
    qed
    ultimately show ?thesis using h s2 i(3) by (simp add: thread_inv_def)
  qed
  have "thash_remove thr (s\<lparr>ids := i\<rparr>) = Some (s\<lparr>ids := i, thash := h\<rparr>)"
    using h(1) assms(3) by (simp add: thash_remove_def)
  from that [OF i(1) this B keep] show ?thesis .
qed

lemma destroy_thread_Some:
  fixes s :: "'z kstate_scheme"
  assumes "thread_inv s B" "in_table thr B" "threads s thr = Some th" "FIRST_USER_TID \<le> tid th"
    "waiting th = None" "procs s (t_proc th) = Some p"
  shows "\<exists>s' B'. destroy_thread thr s = Some s' \<and> threads s' = (threads s)(thr := None) \<and>
    procs s' = (procs s)(t_proc th \<mapsto> p\<lparr>p_threads := remove1 thr (p_threads p)\<rparr>) \<and>
    current s' = current s \<and> rq s' = rq s \<and> total_process s' = total_process s - 1 \<and>
    thread_inv s' B' \<and> (\<forall>q. in_table q B' \<longleftrightarrow> q \<noteq> thr \<and> in_table q B)"
proof (rule thash_remove_inv [OF assms(1,2) _ assms(4)])
  show "tid_at s thr = Some (tid th)" using assms(3) by (simp add: tid_at_def)
  fix i h B'
  assume i: "dealloc_tid (tid th) (ids s) = Some i"
    "thash_remove thr (s\<lparr>ids := i\<rparr>) = Some (s\<lparr>ids := i, thash := h\<rparr>)"
    and B': "\<And>q. in_table q B' \<longleftrightarrow> q \<noteq> thr \<and> in_table q B"
    and keep: "\<And>s2 :: 'z kstate_scheme. thash s2 = h \<Longrightarrow> ids s2 = i \<Longrightarrow> (\<And>q. q \<noteq> thr \<Longrightarrow> tid_at s2 q = tid_at s q) \<Longrightarrow>
      thread_inv s2 B'"
  let ?s = "upd_proc (t_proc th) (\<lambda>p. p\<lparr>p_threads := remove1 thr (p_threads p)\<rparr>)
    (s\<lparr>ids := i, thash := h, total_process := total_process s - 1\<rparr>)"
  let ?s' = "?s\<lparr>threads := (threads s)(thr := None)\<rparr>"
  have "destroy_thread thr s = Some ?s'"
    using assms(3,5,6) i by (simp add: destroy_thread_def list_del_thread_def)
  moreover have "thread_inv ?s' B'" by (rule keep) (simp_all add: tid_at_def)
  ultimately show ?thesis
    using B' assms(6) by (intro exI [of _ ?s'] exI [of _ B']) simp
qed

text \<open>
  The threads of the list \<open>l\<close> of a process that \<open>exit_threads\<close> can destroy: in the table, with
  user ids, and with no thread waiting for them.
\<close>

definition destroyable :: "addr \<Rightarrow> (nat \<Rightarrow> addr list) \<Rightarrow> 'z kstate_scheme \<Rightarrow> addr set \<Rightarrow> bool" where
  "destroyable process B s T \<longleftrightarrow> (\<forall>thr \<in> T. in_table thr B \<and>
     (\<exists>th. threads s thr = Some th \<and> t_proc th = process \<and> FIRST_USER_TID \<le> tid th \<and>
        waiting th = None))"

lemma exit_threads_drain:
  assumes "thread_inv s B" "procs s process = Some p" "p_threads p = ys @ zs" "distinct (ys @ zs)"
    "current s \<notin> set zs" "destroyable process B s (set (ys @ zs) - {current s})" "seen < 2"
  shows "\<exists>s' B'. exit_threads_loop process seen s = exit_threads_loop process seen s' \<and>
    procs s' = (procs s)(process \<mapsto> p\<lparr>p_threads := ys\<rparr>) \<and>
    threads s' = threads s |` (- set zs) \<and> current s' = current s \<and> rq s' = rq s \<and>
    total_process s' = total_process s - int (length zs) \<and>
    thread_inv s' B' \<and> destroyable process B' s' (set ys - {current s})"
  using assms
proof (induction zs arbitrary: s B p rule: rev_induct)
  case Nil
  then show ?case
    by (intro exI [of _ s] exI [of _ B]) (simp add: fun_upd_idem)
next
  case (snoc z zs)
  let ?s1 = "upd_proc process (\<lambda>p. p\<lparr>p_threads := ys @ zs\<rparr>) s"
  have z: "in_table z B" and "z \<noteq> current s" using snoc.prems(5,6) by (auto simp: destroyable_def)
  obtain th where th: "threads s z = Some th" "t_proc th = process" "FIRST_USER_TID \<le> tid th"
    "waiting th = None"
    using snoc.prems(5,6) by (auto simp: destroyable_def)
  have zn: "z \<notin> set (ys @ zs)" using snoc.prems(4) by simp
  obtain s2 B2 where s2: "destroy_thread z ?s1 = Some s2" "threads s2 = (threads s)(z := None)"
    "procs s2 = (procs s)(process \<mapsto> p\<lparr>p_threads := ys @ zs\<rparr>)" "current s2 = current s"
    "rq s2 = rq s" "total_process s2 = total_process s - 1" "thread_inv s2 B2"
    "\<forall>q. in_table q B2 \<longleftrightarrow> q \<noteq> z \<and> in_table q B"
    using destroy_thread_Some [of ?s1 B z th "p\<lparr>p_threads := ys @ zs\<rparr>"] snoc.prems(1,2) z th zn
    by (auto simp: remove1_idem)
  have step: "exit_threads_loop process seen s = exit_threads_loop process seen s2"
    using snoc.prems(2,3,7) s2(1) \<open>z \<noteq> current s\<close>
    by (subst exit_threads_loop.simps) (simp add: ll_dequeue_def butlast_append)
  have "destroyable process B2 s2 (set (ys @ zs) - {current s2})"
    using snoc.prems(6) s2(2,4,8) zn by (auto simp: destroyable_def)
  moreover have "procs s2 process = Some (p\<lparr>p_threads := ys @ zs\<rparr>)" "current s2 \<notin> set zs"
    "distinct (ys @ zs)"
    using s2(3,4) snoc.prems(4,5) by auto
  ultimately obtain s' B' where
    "exit_threads_loop process seen s2 = exit_threads_loop process seen s'"
    "procs s' = (procs s2)(process \<mapsto> p\<lparr>p_threads := ys @ zs, p_threads := ys\<rparr>)"
    "threads s' = threads s2 |` (- set zs)" "current s' = current s2" "rq s' = rq s2"
    "total_process s' = total_process s2 - int (length zs)"
    "thread_inv s' B'" "destroyable process B' s' (set ys - {current s2})"
    using snoc.IH [OF s2(7), of "p\<lparr>p_threads := ys @ zs\<rparr>"] snoc.prems(7) by fastforce
  moreover have "(threads s)(z := None) |` (- set zs) = threads s |` (- set (zs @ [z]))"
    by (auto simp: restrict_map_def)
  ultimately show ?case
    using step s2 by (intro exI [of _ s'] exI [of _ B']) simp
qed

lemma exit_threads_meet:
  assumes "procs s process = Some p" "p_threads p = ys @ [current s]" "current s \<notin> set ys"
  shows "exit_threads_loop process seen s =
    (let s' = upd_proc process (\<lambda>p. p\<lparr>p_threads := current s # ys\<rparr>) s
     in if Suc seen < 2 then exit_threads_loop process (Suc seen) s' else Some s')"
proof -
  have eq: "upd_proc process (\<lambda>p. p\<lparr>p_threads := current s # ys\<rparr>)
      (upd_proc process (\<lambda>p. p\<lparr>p_threads := ys\<rparr>) s) =
    upd_proc process (\<lambda>p. p\<lparr>p_threads := current s # ys\<rparr>) s"
    using assms(1) by (simp add: upd_proc_def)
  show ?thesis
    using assms by (subst exit_threads_loop.simps)
      (simp add: ll_dequeue_def list_enqueue_thread_def ll_enqueue_def Let_def eq)
qed

text \<open>A process with two queued threads, of which the first is running.\<close>

definition thread_ex :: kstate where
  "thread_ex = sched_ex\<lparr>
     threads := [1 \<mapsto> thread0\<lparr>tid := 500, t_proc := 7, priority_stat := 40, priority_dyn := 40\<rparr>,
                 2 \<mapsto> thread0\<lparr>tid := 501, t_proc := 7, priority_stat := 40, priority_dyn := 40\<rparr>],
     procs := [7 \<mapsto> process0\<lparr>p_threads := [2, 1]\<rparr>],
     thash := \<lparr>heads = (replicate NWORDS None)[501 := Some 1, 500 := Some 2], links = Map.empty\<rparr>,
     ids := id_init\<lparr>tidbitmap := (replicate NWORDS 0)[0 := 3]\<rparr>\<rparr>"

abbreviation thread_ex_B :: "nat \<Rightarrow> addr list" where
  "thread_ex_B \<equiv> (\<lambda>_. [])(501 := [1], 500 := [2])"

lemma hash_fn_ex: "hash_fn 500 = 501" "hash_fn 501 = 500"
  by code_simp+

lemma thread_ex_ids:
  "ids_of ((replicate NWORDS 0)[0 := 3]) = {0, 1}" "id_wf ((replicate NWORDS 0)[0 := 3]) 0"
proof -
  have bits: "bit (3 :: u32) n \<longleftrightarrow> n = 0 \<or> n = 1" for n
  proof -
    have "bit (3 :: u32) n \<longleftrightarrow> bit (set_bit 1 (1 :: u32)) n"
      by (rule arg_cong [of _ _ "\<lambda>w. bit w n"]) code_simp
    also have "\<dots> \<longleftrightarrow> n = 0 \<or> n = 1" by (auto simp: bit_1_iff)
    finally show ?thesis .
  qed
  have "i \<in> ids_of ((replicate NWORDS 0)[0 := 3]) \<longleftrightarrow> i = 0 \<or> i = 1" for i
    using bits [of "i mod 32"]
    by (cases "i div 32 = 0") (auto simp: ids_of_def nth_list_update NWORDS_def)
  then show ids: "ids_of ((replicate NWORDS 0)[0 := 3]) = {0, 1}" by blast
  show "id_wf ((replicate NWORDS 0)[0 := 3]) 0"
    unfolding id_wf_def ids by (simp add: NIDS_def) (simp add: NWORDS_def)
qed

lemma thread_ex_inv: "thread_inv thread_ex thread_ex_B"
proof -
  have N: "500 < NWORDS" "501 < NWORDS" by (simp_all add: NWORDS_def)
  have "htab_rep (thash thread_ex) thread_ex_B"
    using N by (auto simp: htab_rep_def thread_ex_def nth_list_update)
  moreover have "keyed hash_fn (tid_at thread_ex) thread_ex_B"
    using hash_fn_ex by (auto simp: keyed_def inj_on_def tid_at_def thread_ex_def)
  moreover have "used_ids FIRST_USER_TID (tidbitmap (ids thread_ex)) = {500, 501}"
    using thread_ex_ids by (simp add: used_ids_def thread_ex_def FIRST_USER_TID_def)
  moreover have "id_wf (tidbitmap (ids thread_ex)) (tidhint (ids thread_ex))"
    using thread_ex_ids by (simp add: thread_ex_def id_init_def)
  ultimately show ?thesis
    by (auto simp: thread_inv_def tid_at_def thread_ex_def)
qed

lemma thread_ex_rq: "rq_inv thread_ex" "on_runq 1 thread_ex" "on_runq 2 thread_ex"
proof -
  have "rq thread_ex = rq sched_ex" by (simp add: thread_ex_def)
  moreover have "\<exists>th. threads thread_ex t = Some th \<and> PRIOQ (priority_dyn th) = int i"
    if "i < 32" "t \<in> set (run (rq sched_ex) ! i)" for i t
    using that by (cases "i = 10") (auto simp: sched_ex_def thread_ex_def PRIOQ_def cdiv_def MAXQ_def)
  ultimately show "rq_inv thread_ex"
    using sched_reach_rq_inv [OF sched_ex_reach] unfolding rq_inv_def by simp
  show "on_runq 1 thread_ex" "on_runq 2 thread_ex"
    unfolding queued_iff by (rule exI [of _ 10], simp add: thread_ex_def sched_ex_def MAXQ_def)+
qed

section \<open>Properties\<close>

text \<open>A successful \<open>create_thread\<close>, with the state it leaves.\<close>

lemma create_thread_ok:
  assumes "thread_inv s B" "\<not> in_table thr B" "procs s process = Some p" "thr \<notin> set (p_threads p)"
    "used_ids FIRST_USER_TID (tidbitmap (ids s)) \<noteq> {FIRST_USER_TID..<FIRST_USER_TID + int NIDS}"
  obtains s' th h i where "create_thread (Some (thr, th0)) process (Some at) s = Some (Some thr, s')"
    "s' = upd_proc process (\<lambda>p. p\<lparr>p_threads := thr # p_threads p\<rparr>)
       (s\<lparr>threads := (threads s)(thr \<mapsto> th), thash := h, ids := i, total_threads := total_threads s + 1\<rparr>)"
    "pidbitmap i = pidbitmap (ids s)" "pidhint i = pidhint (ids s)"
    "states th = THREAD_READY" "t_proc th = process" "priority_dyn th = a_prio at"
    "schedpolicy th = a_policy at" "time_slice th = SLICE"
    "tid th \<notin> used_ids FIRST_USER_TID (tidbitmap (ids s))"
    "thread_inv s' (B(hash_fn (tid th) := thr # B (hash_fn (tid th))))"
proof -
  obtain t i where ti: "alloc_tid (ids s) = Some (t, i)" "FIRST_USER_TID \<le> t"
    "t \<notin> used_ids FIRST_USER_TID (tidbitmap (ids s))"
    "used_ids FIRST_USER_TID (tidbitmap i) = insert t (used_ids FIRST_USER_TID (tidbitmap (ids s)))"
    "id_wf (tidbitmap i) (tidhint i)"
    using tid.alloc_fresh [of "ids s"] assms(1,5) unfolding thread_inv_def by blast
  have pid: "pidbitmap i = pidbitmap (ids s)" "pidhint i = pidhint (ids s)"
    using ti(1) by (auto simp: alloc_tid_def bind_Some)
  let ?B = "B(hash_fn t := thr # B (hash_fn t))"
  define s1 where "s1 = upd_proc process (\<lambda>p. p\<lparr>p_threads := thr # p_threads p\<rparr>)
    (s\<lparr>threads := (threads s)(thr \<mapsto> th0)\<rparr>)"
  define s2 where "s2 = upd_thread thr (\<lambda>th. th\<lparr>t_proc := process, kstack := thr + 4096 - 1,
     states := THREAD_READY, sigpending := 0, time_slice := SLICE, tid := t,
     attr_flags := a_flags at, priority_stat := a_prio at, stackaddr := a_stackaddr at,
     stack_size := a_stack_size at, schedpolicy := a_policy at,
     rcvq := [], schedule_flag := 0, waiting := None\<rparr>) (s1\<lparr>ids := i\<rparr>)"
  have "list_enqueue_thread process thr (s\<lparr>threads := (threads s)(thr \<mapsto> th0)\<rparr>) = Some s1"
    using assms(3,4) by (simp add: list_enqueue_thread_def ll_enqueue_def s1_def upd_proc_def)
  moreover obtain h where s3: "thash_insert thr (s2\<lparr>total_threads := total_threads s2 + 1\<rparr>) =
      Some (s2\<lparr>total_threads := total_threads s2 + 1, thash := h\<rparr>)"
    "thread_inv (s2\<lparr>total_threads := total_threads s2 + 1, thash := h\<rparr>) ?B"
    using thash_insert_inv [OF assms(1,2) ti(2,3), of "s2\<lparr>total_threads := total_threads s2 + 1\<rparr>"]
      ti(4,5) by (auto simp: s2_def s1_def tid_at_def)
  moreover define s4 where "s4 = upd_thread thr (\<lambda>th. th\<lparr>priority_stat := a_prio at,
      priority_dyn := a_prio at, schedpolicy := a_policy at, irqflag := 0\<rparr>)
      (s2\<lparr>total_threads := total_threads s2 + 1, thash := h\<rparr>)"
  ultimately have run: "create_thread (Some (thr, th0)) process (Some at) s = Some (Some thr, s4)"
    using ti(1) s1_def s2_def by (simp add: create_thread_def Let_def)
  obtain th where th: "threads s4 thr = Some th" "tid th = t" "states th = THREAD_READY"
    "t_proc th = process" "priority_dyn th = a_prio at" "schedpolicy th = a_policy at"
    "time_slice th = SLICE"
    by (simp add: s4_def s2_def s1_def)
  have eq: "s4 = upd_proc process (\<lambda>p. p\<lparr>p_threads := thr # p_threads p\<rparr>)
      (s\<lparr>threads := (threads s)(thr \<mapsto> th), thash := h, ids := i, total_threads := total_threads s + 1\<rparr>)"
    using th(1) by (simp add: s4_def s2_def s1_def upd_thread_def upd_proc_def)
  have "thread_inv s4 ?B" using s3(2) by (simp add: s4_def)
  then show ?thesis using that [OF run eq pid] th ti(3) by simp
qed

text \<open>C16. \<open>create_thread\<close> with memory, a free id and attributes succeeds: the new thread
  is ready, belongs to the process, has the priority and policy of the attributes and an id
  that was not in use, by which it is found; every other thread of the table is found by its id
  as before, and the table stays consistent.\<close>

theorem create_thread_registers:
  assumes "thread_inv s B" "\<not> in_table thr B" "procs s process = Some p" "thr \<notin> set (p_threads p)"
    "used_ids FIRST_USER_TID (tidbitmap (ids s)) \<noteq> {FIRST_USER_TID..<FIRST_USER_TID + int NIDS}"
  shows "\<exists>s' th. create_thread (Some (thr, th0)) process (Some at) s = Some (Some thr, s') \<and>
    threads s' thr = Some th \<and> states th = THREAD_READY \<and> t_proc th = process \<and>
    priority_dyn th = a_prio at \<and> schedpolicy th = a_policy at \<and> time_slice th = SLICE \<and>
    tid th \<notin> used_ids FIRST_USER_TID (tidbitmap (ids s)) \<and>
    find_by_tid (tid th) s' = Some (Some thr) \<and>
    (\<forall>q k. in_table q B \<and> tid_at s q = Some k \<longrightarrow> find_by_tid k s' = Some (Some q)) \<and>
    thread_inv s' (B(hash_fn (tid th) := thr # B (hash_fn (tid th))))"
proof -
  obtain s' th h i where s': "create_thread (Some (thr, th0)) process (Some at) s = Some (Some thr, s')"
    and eq: "s' = upd_proc process (\<lambda>p. p\<lparr>p_threads := thr # p_threads p\<rparr>)
       (s\<lparr>threads := (threads s)(thr \<mapsto> th), thash := h, ids := i, total_threads := total_threads s + 1\<rparr>)"
    and "pidbitmap i = pidbitmap (ids s)" "pidhint i = pidhint (ids s)"
    and th: "states th = THREAD_READY" "t_proc th = process" "priority_dyn th = a_prio at"
      "schedpolicy th = a_policy at" "time_slice th = SLICE"
      "tid th \<notin> used_ids FIRST_USER_TID (tidbitmap (ids s))"
    and inv: "thread_inv s' (B(hash_fn (tid th) := thr # B (hash_fn (tid th))))"
    by (rule create_thread_ok [OF assms, of th0 at])
  have "in_table q (B(hash_fn (tid th) := thr # B (hash_fn (tid th)))) \<longleftrightarrow> q = thr \<or> in_table q B" for q
    by (simp add: NWORDS_def)
  moreover have "tid_at s' q = tid_at s q" if "in_table q B" for q
    using that assms(2) by (auto simp: eq tid_at_def)
  moreover have "tid_at s' thr = Some (tid th)" "threads s' thr = Some th" by (simp_all add: eq tid_at_def)
  ultimately show ?thesis
    using s' th inv thread_inv_find [OF inv] by (intro exI [of _ s'] exI [of _ th]) simp
qed

theorem create_thread_registers_witness:
  "\<exists>s' th. create_thread (Some (4096, thread0)) 7 (Some \<lparr>a_flags = 0, a_prio = 20, a_stackaddr = 0,
      a_stack_size = 0, a_policy = SCHED_OTHER\<rparr>) (kstate0\<lparr>procs := [7 \<mapsto> process0]\<rparr>) =
      Some (Some 4096, s') \<and> threads s' 4096 = Some th \<and> find_by_tid (tid th) s' = Some (Some 4096)"
proof -
  let ?s = "kstate0\<lparr>procs := [7 \<mapsto> process0]\<rparr>"
  have "used_ids FIRST_USER_TID (tidbitmap (ids ?s)) = {}"
    by (simp add: kstate0_def id_init_def id_init_wf used_ids_def)
  moreover have "{FIRST_USER_TID..<FIRST_USER_TID + int NIDS} \<noteq> {}" by (simp add: NIDS_def)
  moreover have "thread_inv ?s (\<lambda>_. [])"
    by (simp add: thread_inv_def kstate0_def htab_rep_empty keyed_def id_init_def id_init_wf)
  moreover have "procs ?s 7 = Some process0" "4096 \<notin> set (p_threads process0)"
    "\<not> in_table 4096 (\<lambda>_. [])"
    by (simp_all add: process0_def in_table_def)
  ultimately show ?thesis
    using create_thread_registers [of ?s "\<lambda>_. []" 4096 7 process0 thread0] by metis
qed



text \<open>Waiting for a thread puts that thread to sleep, not the caller: after
  \<open>thread_wait\<close> on the id of another queued thread, that thread is in an uninterruptible sleep
  and off the run queue, while the caller keeps its place in the run queue.\<close>

theorem thread_wait_sleeps_target:
  assumes "thread_inv s B" "rq_inv s" "in_table thr B" "tid_at s thr = Some k"
    "thr \<noteq> current s" "on_runq thr s" "on_runq (current s) s"
  shows "\<exists>s' th. thread_wait k s = Some (0, s') \<and> threads s' thr = Some th \<and>
    states th = THREAD_UNINT \<and> waiting th = Some (current s) \<and>
    \<not> on_runq thr s' \<and> on_runq (current s) s'"
proof -
  let ?s1 = "upd_thread thr (\<lambda>th. th\<lparr>states := THREAD_UNINT\<rparr>)
    (upd_thread thr (\<lambda>th. th\<lparr>waiting := Some (current s)\<rparr>) s)"
  obtain th0 where th0: "threads s thr = Some th0" using assms(4) by (auto simp: tid_at_def)
  have inv1: "rq_inv ?s1" using assms(2) by simp
  obtain i where i: "i < 32" "thr \<in> set (run (rq ?s1) ! i)"
    using assms(6) rq_invD(1) [OF assms(2)] by (auto simp: queued_iff)
  obtain j where j: "j < 32" "current s \<in> set (run (rq s) ! j)"
    using assms(7) rq_invD(1) [OF assms(2)] by (auto simp: queued_iff)
  obtain s2 where s2: "remove_thread thr ?s1 = Some s2" "threads s2 = threads ?s1"
    "run (rq s2) = (run (rq s))[i := remove1 thr (run (rq s) ! i)]"
    using remove_thread_Some [OF inv1 i] by auto
  have off: "rq_inv s2" "\<not> on_runq thr s2"
    using s2(1) inv1 remove_thread_inv remove_thread_off by blast+
  obtain new where new: "pick_next s2 = Some new" using pick_next_cases [OF off(1)] by metis
  let ?s' = "upd_thread new (\<lambda>th. th\<lparr>schedule_flag := 0\<rparr>) (s2\<lparr>current := new\<rparr>)"
  have "thread_wait k s = Some (0, ?s')"
    using thread_inv_find [OF assms(1,3,4)] s2(1) new
    by (simp add: thread_wait_def sleep_uninterruptible_def schedule_def)
  moreover have "on_runq (current s) s2"
    unfolding queued_iff using j assms(5) s2(3) rq_invD(1) [OF assms(2)]
    by (intro exI [of _ j]) (cases "i = j"; simp)
  ultimately show ?thesis
    using off(2) s2(2) th0 by (auto simp: queued_def)
qed

theorem thread_wait_sleeps_target_witness:
  "\<exists>s'. thread_wait 501 thread_ex = Some (0, s') \<and> \<not> on_runq 2 s' \<and> on_runq 1 s'"
proof -
  have "in_table 2 thread_ex_B" "tid_at thread_ex 2 = Some 501" "current thread_ex = 1"
    by (auto simp: in_table_def NWORDS_def tid_at_def thread_ex_def sched_ex_def)
  then show ?thesis
    using thread_wait_sleeps_target [OF thread_ex_inv thread_ex_rq(1), of 2 501] thread_ex_rq(2,3)
    by auto
qed

end
