(* ===== verification/KIrq.thy ===== *)
theory KIrq
  imports KThread
begin

text \<open>
  Interrupt requests (\<^verbatim>\<open>kernel/irq.c\<close>): one handler entry per line in the array
  \<open>pc_irq\<close>, further handlers of a shared line in a list behind it and in a table by id. A
  handler is a thread; an interrupt marks and wakes it.
\<close>

record irq_t =
  irq_id :: int
  irq_flag :: int
  irq_handler :: bool
  irq_owner :: "addr option"

text \<open>
  \<open>pc_irq\<close> is the array with the list behind each entry, \<open>irqs\<close> the allocated entries.
\<close>

record irqstate = kstate +
  pc_irq :: "(irq_t \<times> addr list) list"
  irqs :: "addr \<Rightarrow> irq_t option"
  irqhash :: htab
  next_id :: int

definition MAX_IRQ :: nat where "MAX_IRQ = 16"
definition IRQ_REQUEST :: u32 where "IRQ_REQUEST = 1"

definition irq0 :: irq_t where
  "irq0 = \<lparr>irq_id = 0, irq_flag = 0, irq_handler = False, irq_owner = None\<rparr>"

unbundle bit_operations_syntax

definition irqid_at :: "'z irqstate_scheme \<Rightarrow> addr \<Rightarrow> int option" where
  "irqid_at s a = map_option irq_id (irqs s a)"

definition irqhash_insert :: "addr \<Rightarrow> 'z irqstate_scheme \<Rightarrow> 'z irqstate_scheme option" where
  "irqhash_insert irq s = do {
     k \<leftarrow> irqid_at s irq;
     h \<leftarrow> hash_insert (hash_fn k) irq (irqhash s);
     Some (s\<lparr>irqhash := h\<rparr>)
   }"

definition irqhash_remove :: "addr \<Rightarrow> 'z irqstate_scheme \<Rightarrow> 'z irqstate_scheme option" where
  "irqhash_remove irq s = do {
     k \<leftarrow> irqid_at s irq;
     first \<leftarrow> aget (heads (irqhash s)) (hash_fn k);
     if first = Some irq then do {
       hs \<leftarrow> aput (heads (irqhash s)) (hash_fn k) (links (irqhash s) irq);
       Some (s\<lparr>irqhash := (irqhash s)\<lparr>heads := hs\<rparr>\<rparr>)
     } else do {
       a \<leftarrow> pred_walk (links (irqhash s)) irq first;
       Some (s\<lparr>irqhash := (irqhash s)\<lparr>links := (links (irqhash s))(a := links (irqhash s) irq)\<rparr>\<rparr>)
     }
   }"

definition find_by_irqid :: "int \<Rightarrow> 'z irqstate_scheme \<Rightarrow> addr option option" where
  "find_by_irqid idn s = id_find (irqhash s) (irqid_at s) idn"

definition IRQ_init :: "'z irqstate_scheme \<Rightarrow> 'z irqstate_scheme" where
  "IRQ_init s = s\<lparr>irqhash := htab_empty, pc_irq := replicate MAX_IRQ (irq0, [])\<rparr>"

text \<open>What \<open>handle_IRQ\<close> does for one entry.\<close>

definition serve_irq :: "irq_t \<Rightarrow> 'z irqstate_scheme \<Rightarrow> 'z irqstate_scheme option" where
  "serve_irq irq s =
     (if irq_handler irq then do {
        thr \<leftarrow> irq_owner irq;
        th \<leftarrow> threads s thr;
        let s = upd_thread thr (\<lambda>th. th\<lparr>irqflag := irqflag th OR IRQ_REQUEST\<rparr>) s;
        if states th AND THREAD_BLOCKED \<noteq> 0 then wakeup thr s else Some s
      } else Some s)"

text \<open>
  The loop condition of \<open>handle_IRQ\<close> only asks whether the list behind the line is empty. With
  a shared handler it does not stop at the end of the list, and reads the list head as an entry.
\<close>

primrec serve_shared :: "addr list \<Rightarrow> 'z irqstate_scheme \<Rightarrow> 'z irqstate_scheme option" where
  "serve_shared [] s = None"
| "serve_shared (n # ns) s = do {
     irq \<leftarrow> irqs s n;
     s \<leftarrow> serve_irq irq s;
     serve_shared ns s
   }"

definition handle_IRQ :: "nat \<Rightarrow> 'z irqstate_scheme \<Rightarrow> 'z irqstate_scheme option" where
  "handle_IRQ irqno s = do {
     (irq, shared) \<leftarrow> aget (pc_irq s) irqno;
     s \<leftarrow> serve_irq irq s;
     s \<leftarrow> (if shared = [] then Some s else serve_shared shared s);
     schedule s
   }"

text \<open>The line number is not checked. \<open>mem\<close> is the memory for an entry of a shared line.\<close>

definition syscall_IRQ_request :: "(addr \<times> irq_t) option \<Rightarrow> int \<Rightarrow> 'z irqstate_scheme \<Rightarrow>
  (int \<times> 'z irqstate_scheme) option" where
  "syscall_IRQ_request mem irqnum s = do {
     su \<leftarrow> superuser s;
     if \<not> su then Some (- EPERM, s)
     else do {
       check (0 \<le> irqnum);
       (irq, shared) \<leftarrow> aget (pc_irq s) (nat irqnum);
       if \<not> irq_handler irq then do {
         l \<leftarrow> aput (pc_irq s) (nat irqnum)
           (\<lparr>irq_id = irqnum, irq_flag = 0, irq_handler = True, irq_owner = Some (current s)\<rparr>, shared);
         Some (irqnum, s\<lparr>pc_irq := l\<rparr>)
       } else do {
         (n, n0) \<leftarrow> mem;
         l \<leftarrow> ll_add n shared;
         l' \<leftarrow> aput (pc_irq s) (nat irqnum) (irq, l);
         let new = next_id s;
         s \<leftarrow> irqhash_insert n (s\<lparr>pc_irq := l', next_id := new + 1,
            irqs := (irqs s)(n \<mapsto> \<lparr>irq_id = new, irq_flag = 0, irq_handler = True,
              irq_owner = Some (current s)\<rparr>)\<rparr>);
         Some (new, s)
       }
     }
   }"

text \<open>
  A shared handler is unlinked from the list of \<open>pc_irq[irqid]\<close>, where \<open>irqid\<close> is outside
  the array: that has no result.
\<close>

definition syscall_IRQ_free :: "int \<Rightarrow> 'z irqstate_scheme \<Rightarrow> (int \<times> 'z irqstate_scheme) option" where
  "syscall_IRQ_free irqid s = do {
     su \<leftarrow> superuser s;
     if \<not> su then Some (- EPERM, s)
     else if irqid < int MAX_IRQ then do {
       check (0 \<le> irqid);
       (irq, shared) \<leftarrow> aget (pc_irq s) (nat irqid);
       l \<leftarrow> aput (pc_irq s) (nat irqid)
         (irq\<lparr>irq_handler := False, irq_flag := 0, irq_owner := None\<rparr>, shared);
       Some (0, s\<lparr>pc_irq := l\<rparr>)
     } else do {
       tofree \<leftarrow> find_by_irqid irqid s;
       case tofree of
         None \<Rightarrow> Some (- EINVAL, s)
       | Some a \<Rightarrow> do {
           (irq, shared) \<leftarrow> aget (pc_irq s) (nat irqid);
           l \<leftarrow> ll_del a shared;
           l' \<leftarrow> aput (pc_irq s) (nat irqid) (irq, l);
           s \<leftarrow> irqhash_remove a (s\<lparr>pc_irq := l'\<rparr>);
           Some (0, s\<lparr>irqs := (irqs s)(a := None)\<rparr>)
         }
     }
   }"

definition syscall_IRQ_wait :: "'z irqstate_scheme \<Rightarrow> (int \<times> 'z irqstate_scheme) option" where
  "syscall_IRQ_wait s = do {
     su \<leftarrow> superuser s;
     if \<not> su then Some (- EPERM, s)
     else do {
       let thread = current s;
       s \<leftarrow> remove_thread thread (upd_thread thread (\<lambda>th. th\<lparr>states := IRQ_WAIT\<rparr>) s);
       s \<leftarrow> schedule s;
       Some (0, s)
     }
   }"

section \<open>Lemmas\<close>

lemma irq_simps [simp]:
  "pc_irq (upd_thread t f s) = pc_irq s" "irqs (upd_thread t f s) = irqs s"
  by (simp_all add: upd_thread_def)

lemma rq_inv_pc_irq [simp]: "rq_inv (s\<lparr>pc_irq := l\<rparr>) \<longleftrightarrow> rq_inv s"
  by (simp add: rq_inv_def)

text \<open>An interrupt of a line with a shared handler never ends regularly.\<close>

lemma serve_shared_none: "serve_shared ns s = None"
  by (induction ns arbitrary: s) (auto split: Option.bind_split)

lemma handle_IRQ_shared:
  assumes "aget (pc_irq s) n = Some (irq, shared)" "shared \<noteq> []"
  shows "handle_IRQ n s = None"
  using assms by (cases "serve_irq irq s")
    (simp_all add: handle_IRQ_def serve_shared_none del: aget_Some_iff)

lemma serve_irq_wakes:
  assumes "rq_inv s" "irq_handler irq" "irq_owner irq = Some c" "threads s c = Some th"
    "states th AND THREAD_BLOCKED \<noteq> 0" "\<not> on_runq c s" "0 \<le> priority_stat th"
    "priority_stat th \<le> PRIO_RT_MAX"
  obtains R where "serve_irq irq s = Some ((upd_thread c (\<lambda>th. th\<lparr>states := THREAD_READY,
      priority_dyn := priority_stat th\<rparr>) (upd_thread c (\<lambda>th. th\<lparr>irqflag := irqflag th OR IRQ_REQUEST\<rparr>) s))\<lparr>rq := R\<rparr>)"
    "rq_inv ((upd_thread c (\<lambda>th. th\<lparr>states := THREAD_READY,
      priority_dyn := priority_stat th\<rparr>) (upd_thread c (\<lambda>th. th\<lparr>irqflag := irqflag th OR IRQ_REQUEST\<rparr>) s))\<lparr>rq := R\<rparr>)"
    "queued R c"
proof -
  let ?s = "upd_thread c (\<lambda>th. th\<lparr>irqflag := irqflag th OR IRQ_REQUEST\<rparr>) s"
  have "rq_inv ?s" "\<not> on_runq c ?s" "threads ?s c = Some (th\<lparr>irqflag := irqflag th OR IRQ_REQUEST\<rparr>)"
    using assms by simp_all
  from wakeup_ok [OF this] assms(7,8) obtain R where "wakeup c ?s = Some ((upd_thread c (\<lambda>th. th\<lparr>
      states := THREAD_READY, priority_dyn := priority_stat th\<rparr>) ?s)\<lparr>rq := R\<rparr>)"
    "rq_inv ((upd_thread c (\<lambda>th. th\<lparr>states := THREAD_READY, priority_dyn := priority_stat th\<rparr>) ?s)\<lparr>rq := R\<rparr>)"
    "queued R c" by auto
  then show ?thesis
    using that assms(2-5) by (simp add: serve_irq_def Let_def)
qed

section \<open>Properties\<close>

text \<open>C33. A privileged thread that requests a free interrupt line and waits sleeps until the
  interrupt: the request returns the line number, waiting takes the thread off the run queue, and
  an interrupt on that line makes it ready, queues it and marks the request in its context.\<close>

theorem irq_request_wait_handle:
  assumes "rq_inv s" "threads s (current s) = Some th" "procs s (t_proc th) = Some p" "euid p = 0"
    "on_runq (current s) s" "0 \<le> priority_stat th" "priority_stat th \<le> PRIO_RT_MAX"
    "n < length (pc_irq s)" "pc_irq s ! n = (irq, [])" "\<not> irq_handler irq"
  shows "\<exists>s1 s2 s3 x. syscall_IRQ_request mem (int n) s = Some (int n, s1) \<and>
    syscall_IRQ_wait s1 = Some (0, s2) \<and> \<not> on_runq (current s) s2 \<and>
    handle_IRQ n s2 = Some s3 \<and> rq_inv s3 \<and> on_runq (current s) s3 \<and>
    threads s3 (current s) = Some x \<and> states x = THREAD_READY \<and> irqflag x = irqflag th OR IRQ_REQUEST"
proof -
  let ?c = "current s"
  let ?irq = "\<lparr>irq_id = int n, irq_flag = 0, irq_handler = True, irq_owner = Some ?c\<rparr>"
  let ?s1 = "s\<lparr>pc_irq := (pc_irq s)[n := (?irq, [])]\<rparr>"
  have su: "superuser s = Some True" using assms(2-4) by (simp add: superuser_def cur_proc_def cur_thread_def)
  have req: "syscall_IRQ_request mem (int n) s = Some (int n, ?s1)"
    using su assms(8-10) by (simp add: syscall_IRQ_request_def)
  let ?a = "upd_thread ?c (\<lambda>th. th\<lparr>states := IRQ_WAIT\<rparr>) ?s1"
  have "rq_inv ?a" "on_runq ?c ?a" using assms(1,5) by simp_all
  then obtain R where R: "remove_thread ?c ?a = Some (?a\<lparr>rq := R\<rparr>)" "rq_inv (?a\<lparr>rq := R\<rparr>)"
    "\<And>u. queued R u \<longleftrightarrow> u \<noteq> ?c \<and> on_runq u ?a"
    using remove_thread_ok by blast
  obtain new where new: "schedule (?a\<lparr>rq := R\<rparr>) =
      Some (upd_thread new (\<lambda>th. th\<lparr>schedule_flag := 0\<rparr>) (?a\<lparr>rq := R, current := new\<rparr>))"
    using schedule_ok [OF R(2)] by blast
  let ?s2 = "upd_thread new (\<lambda>th. th\<lparr>schedule_flag := 0\<rparr>) (?a\<lparr>rq := R, current := new\<rparr>)"
  have "superuser ?s1 = Some True" using su by (simp add: superuser_def cur_proc_def cur_thread_def)
  then have wait: "syscall_IRQ_wait ?s1 = Some (0, ?s2)"
    using R(1) new by (simp add: syscall_IRQ_wait_def Let_def)
  have s2: "rq_inv ?s2" "\<not> on_runq ?c ?s2" using R(2,3) by simp_all
  obtain y where y: "threads ?s2 ?c = Some y" "states y = IRQ_WAIT" "priority_stat y = priority_stat th"
    "irqflag y = irqflag th"
    using assms(2) by (cases "new = ?c") simp_all
  have "states y AND THREAD_BLOCKED \<noteq> 0" using y(2) by (simp add: state_defs)
  then obtain R' where R': "serve_irq ?irq ?s2 = Some ((upd_thread ?c (\<lambda>th. th\<lparr>states := THREAD_READY,
      priority_dyn := priority_stat th\<rparr>) (upd_thread ?c (\<lambda>th. th\<lparr>irqflag := irqflag th OR IRQ_REQUEST\<rparr>) ?s2))\<lparr>rq := R'\<rparr>)"
    "rq_inv ((upd_thread ?c (\<lambda>th. th\<lparr>states := THREAD_READY,
      priority_dyn := priority_stat th\<rparr>) (upd_thread ?c (\<lambda>th. th\<lparr>irqflag := irqflag th OR IRQ_REQUEST\<rparr>) ?s2))\<lparr>rq := R'\<rparr>)"
    "queued R' ?c"
    using serve_irq_wakes [OF s2(1), of ?irq ?c y] y s2(2) assms(6,7) by auto
  let ?e = "(upd_thread ?c (\<lambda>th. th\<lparr>states := THREAD_READY,
      priority_dyn := priority_stat th\<rparr>) (upd_thread ?c (\<lambda>th. th\<lparr>irqflag := irqflag th OR IRQ_REQUEST\<rparr>) ?s2))\<lparr>rq := R'\<rparr>"
  obtain new' where new': "schedule ?e =
      Some (upd_thread new' (\<lambda>th. th\<lparr>schedule_flag := 0\<rparr>) (?e\<lparr>current := new'\<rparr>))"
    using schedule_ok [OF R'(2)] by blast
  let ?s3 = "upd_thread new' (\<lambda>th. th\<lparr>schedule_flag := 0\<rparr>) (?e\<lparr>current := new'\<rparr>)"
  have "handle_IRQ n ?s2 = Some ?s3"
    using R'(1) new' assms(8) by (simp add: handle_IRQ_def)
  moreover have "rq_inv ?s3" "on_runq ?c ?s3" using R'(2,3) by simp_all
  moreover obtain x where "threads ?s3 ?c = Some x" "states x = THREAD_READY" "irqflag x = irqflag th OR IRQ_REQUEST"
    using y by (cases "new' = ?c") simp_all
  ultimately show ?thesis using req wait s2(2) by blast
qed

theorem irq_request_wait_handle_witness:
  "\<exists>s1 s2 s3. syscall_IRQ_request None 5 (IRQ_init (kstate.extend thread_ex
      (irqstate.fields [] Map.empty htab_empty 16))) = Some (5, s1) \<and>
    syscall_IRQ_wait s1 = Some (0, s2) \<and> \<not> on_runq 1 s2 \<and>
    handle_IRQ 5 s2 = Some s3 \<and> on_runq 1 s3"
proof -
  let ?s = "IRQ_init (kstate.extend thread_ex (irqstate.fields [] Map.empty htab_empty 16))"
  let ?t = "thread0\<lparr>tid := 500, t_proc := 7, priority_stat := 40, priority_dyn := 40\<rparr>"
  let ?p = "process0\<lparr>p_threads := [2, 1]\<rparr>"
  have sel: "rq ?s = rq thread_ex" "threads ?s = threads thread_ex" "current ?s = 1"
    "procs ?s = procs thread_ex" "pc_irq ?s = replicate MAX_IRQ (irq0, [])"
    by (simp_all add: IRQ_init_def kstate.defs irqstate.defs thread_ex_def sched_ex_def)
  then have "rq_inv ?s" using thread_ex_rq(1) by (simp add: rq_inv_def)
  moreover have "threads ?s (current ?s) = Some ?t" "procs ?s (t_proc ?t) = Some ?p"
    by (simp_all add: sel(2-4)) (simp_all add: thread_ex_def)
  moreover have "euid ?p = 0" "0 \<le> priority_stat ?t" "priority_stat ?t \<le> PRIO_RT_MAX"
    by (simp_all add: process0_def PRIO_RT_MAX_def)
  moreover have "on_runq (current ?s) ?s" using thread_ex_rq(2) sel by simp
  moreover have "5 < length (pc_irq ?s)" "pc_irq ?s ! 5 = (irq0, [])" "\<not> irq_handler irq0"
    by (simp_all add: sel(5) MAX_IRQ_def irq0_def)
  ultimately show ?thesis
    using irq_request_wait_handle [of ?s ?t ?p 5 irq0 None] sel(3) by fastforce
qed

end
