(* ===== verification/CMem.thy ===== *)
theory CMem
  imports Machine
begin

unbundle bit_operations_syntax

text \<open>
  Byte-addressed memory as the C library of user programs sees it, and the character classes
  of \<^verbatim>\<open>src/soft/libc/ansi/ctype/ctype.c\<close> and
  \<^verbatim>\<open>src/soft/libc/include/ctype.h\<close>.

  A memory maps an address to the byte there, \<open>None\<close> where nothing is mapped; reading or
  writing there is the outcome \<open>None\<close>. Pointers do not wrap around: the top of the address
  space belongs to the kernel. A \<^verbatim>\<open>char\<close> is signed on the i386, so that
  its value as an integer is \<^term>\<open>sint b\<close>, and that of an
  \<^verbatim>\<open>unsigned char\<close> is \<^term>\<open>uint b\<close>.
\<close>

type_synonym byte = "8 word"
type_synonym bmem = "nat \<Rightarrow> byte option"

definition put :: "bmem \<Rightarrow> nat \<Rightarrow> byte \<Rightarrow> bmem option" where
  "put m a b = (case m a of None \<Rightarrow> None | Some _ \<Rightarrow> Some (m(a \<mapsto> b)))"

lemma put_mapped [simp]: "m a \<noteq> None \<Longrightarrow> put m a b = Some (m(a \<mapsto> b))"
  by (auto simp: put_def)

section \<open>Blocks of memory\<close>

text \<open>\<open>block m a xs\<close>: the bytes from address \<open>a\<close> on are \<open>xs\<close>; \<open>store m a xs\<close> writes them.\<close>

fun block :: "bmem \<Rightarrow> nat \<Rightarrow> byte list \<Rightarrow> bool" where
  "block m a [] \<longleftrightarrow> True"
| "block m a (x # xs) \<longleftrightarrow> m a = Some x \<and> block m (a + 1) xs"

fun store :: "bmem \<Rightarrow> nat \<Rightarrow> byte list \<Rightarrow> bmem" where
  "store m a [] = m"
| "store m a (x # xs) = store (m(a \<mapsto> x)) (a + 1) xs"

definition mapped :: "bmem \<Rightarrow> nat \<Rightarrow> nat \<Rightarrow> bool" where
  "mapped m a n \<longleftrightarrow> (\<forall>i<n. m (a + i) \<noteq> None)"

text \<open>\<open>cstr m a xs\<close>: the string at \<open>a\<close> is \<open>xs\<close>, with its terminating zero behind it.\<close>

fun cstr :: "bmem \<Rightarrow> nat \<Rightarrow> byte list \<Rightarrow> bool" where
  "cstr m a [] \<longleftrightarrow> m a = Some 0"
| "cstr m a (x # xs) \<longleftrightarrow> m a = Some x \<and> x \<noteq> 0 \<and> cstr m (a + 1) xs"

lemma block_nth: "block m a xs \<longleftrightarrow> (\<forall>i<length xs. m (a + i) = Some (xs ! i))"
proof (induction xs arbitrary: a)
  case Nil
  then show ?case by simp
next
  case (Cons x xs)
  have "(\<forall>i<length (x # xs). m (a + i) = Some ((x # xs) ! i)) \<longleftrightarrow>
    m a = Some x \<and> (\<forall>i<length xs. m (a + 1 + i) = Some (xs ! i))"
    by (auto simp: less_Suc_eq_0_disj)
  then show ?case using Cons.IH by simp
qed

lemma block_append: "block m a (xs @ ys) \<longleftrightarrow> block m a xs \<and> block m (a + length xs) ys"
  by (induction xs arbitrary: a) auto

lemma store_at:
  "store m a xs p = (if a \<le> p \<and> p < a + length xs then Some (xs ! (p - a)) else m p)"
proof (induction xs arbitrary: m a)
  case Nil
  then show ?case by auto
next
  case (Cons x xs)
  show ?case
  proof (cases "p = a")
    case True
    show ?thesis unfolding store.simps Cons.IH using True by simp
  next
    case False
    then show ?thesis using Cons.IH by (auto simp: nth_Cons')
  qed
qed

lemma store_append: "store m a (xs @ ys) = store (store m a xs) (a + length xs) ys"
  by (induction xs arbitrary: m a) simp_all

lemma block_store: "block (store m a xs) a xs"
  by (simp add: block_nth store_at)

lemma block_store_other:
  assumes "b + length ys \<le> a \<or> a + length xs \<le> b"
  shows "block (store m a xs) b ys \<longleftrightarrow> block m b ys"
proof -
  have "store m a xs (b + i) = m (b + i)" if "i < length ys" for i
    using assms that unfolding store_at by simp linarith
  then show ?thesis by (simp add: block_nth)
qed

lemma cstr_block: "cstr m a xs \<longleftrightarrow> block m a (xs @ [0]) \<and> 0 \<notin> set xs"
  by (induction xs arbitrary: a) auto

lemma cstr_nth: "cstr m a xs \<Longrightarrow> i < length xs \<Longrightarrow> m (a + i) = Some (xs ! i) \<and> xs ! i \<noteq> 0"
  by (metis (no_types, lifting) block_append block_nth cstr_block nth_mem)

lemma cstr_end: "cstr m a xs \<Longrightarrow> m (a + length xs) = Some 0"
  by (simp add: cstr_block block_append)

lemma cstr_append: "cstr m a (xs @ ys) \<longleftrightarrow> block m a xs \<and> 0 \<notin> set xs \<and> cstr m (a + length xs) ys"
  by (auto simp: cstr_block block_append)

lemma cstr_unique: "cstr m a xs \<Longrightarrow> cstr m a ys \<Longrightarrow> xs = ys"
proof (induction xs arbitrary: a ys)
  case Nil
  then show ?case by (cases ys) auto
next
  case (Cons x xs)
  then show ?case by (cases ys) auto
qed

lemma block_mapped: "block m a xs \<Longrightarrow> mapped m a (length xs)"
  by (auto simp: block_nth mapped_def)

lemma mapped_Suc: "mapped m a (Suc n) \<longleftrightarrow> m a \<noteq> None \<and> mapped m (a + 1) n"
  by (auto simp: mapped_def less_Suc_eq_0_disj)

lemma mapped_upd: "mapped m a n \<Longrightarrow> mapped (m(b \<mapsto> x)) a n"
  by (auto simp: mapped_def)

lemma mapped_block:
  assumes "mapped m a n"
  obtains xs where "length xs = n" "block m a xs"
proof
  show "length (map (\<lambda>i. the (m (a + i))) [0..<n]) = n" by simp
  show "block m a (map (\<lambda>i. the (m (a + i))) [0..<n])"
    using assms by (auto simp: block_nth mapped_def)
qed

text \<open>A string is the list of its characters without the zero behind them.\<close>

definition str_at :: "byte list \<Rightarrow> nat \<Rightarrow> byte option" where
  "str_at str i = (if i < length str then Some (str ! i) else if i = length str then Some 0 else None)"

section \<open>Character classes\<close>

definition CT_C :: byte where "CT_C = 0x01"
definition CT_D :: byte where "CT_D = 0x02"
definition CT_L :: byte where "CT_L = 0x04"
definition CT_P :: byte where "CT_P = 0x08"
definition CT_S :: byte where "CT_S = 0x10"
definition CT_SP :: byte where "CT_SP = 0x20"
definition CT_U :: byte where "CT_U = 0x40"
definition CT_X :: byte where "CT_X = 0x80"

definition ctype_tab :: "byte list" where
  "ctype_tab =
     replicate 9 (CT_C) @ replicate 5 (CT_C + CT_S) @ replicate 18 (CT_C) @ [CT_S + CT_SP] @
     replicate 15 (CT_P) @ replicate 10 (CT_D) @ replicate 7 (CT_P) @ replicate 6 (CT_U + CT_X)
     @ replicate 20 (CT_U) @ replicate 6 (CT_P) @ replicate 6 (CT_L + CT_X) @ replicate 20
     (CT_L) @ replicate 4 (CT_P) @ [CT_C] @ replicate 32 (0) @ [CT_S + CT_SP] @ replicate 31
     (CT_P) @ replicate 23 (CT_U) @ [CT_P] @ replicate 7 (CT_U) @ replicate 24 (CT_L) @ [CT_P]
     @ replicate 8 (CT_L)"

definition ismask :: "byte \<Rightarrow> byte" where "ismask c = ctype_tab ! unat c"
definition isalnum :: "byte \<Rightarrow> bool" where "isalnum c \<longleftrightarrow> ismask c AND (CT_U OR CT_L OR CT_D) \<noteq> 0"
definition isalpha :: "byte \<Rightarrow> bool" where "isalpha c \<longleftrightarrow> ismask c AND (CT_U OR CT_L) \<noteq> 0"
definition isascii :: "byte \<Rightarrow> bool" where "isascii c \<longleftrightarrow> c \<le> 0x7f"
definition iscntrl :: "byte \<Rightarrow> bool" where "iscntrl c \<longleftrightarrow> ismask c AND CT_C \<noteq> 0"
definition isdigit :: "byte \<Rightarrow> bool" where "isdigit c \<longleftrightarrow> ismask c AND CT_D \<noteq> 0"
definition isgraph :: "byte \<Rightarrow> bool" where
  "isgraph c \<longleftrightarrow> ismask c AND (CT_P OR CT_U OR CT_L OR CT_D) \<noteq> 0"
definition islower :: "byte \<Rightarrow> bool" where "islower c \<longleftrightarrow> ismask c AND CT_L \<noteq> 0"
definition isprint :: "byte \<Rightarrow> bool" where
  "isprint c \<longleftrightarrow> ismask c AND (CT_P OR CT_U OR CT_L OR CT_D OR CT_SP) \<noteq> 0"
definition ispunct :: "byte \<Rightarrow> bool" where "ispunct c \<longleftrightarrow> ismask c AND CT_P \<noteq> 0"
definition isspace :: "byte \<Rightarrow> bool" where "isspace c \<longleftrightarrow> ismask c AND CT_S \<noteq> 0"
definition isupper :: "byte \<Rightarrow> bool" where "isupper c \<longleftrightarrow> ismask c AND CT_U \<noteq> 0"
definition isxdigit :: "byte \<Rightarrow> bool" where "isxdigit c \<longleftrightarrow> ismask c AND (CT_D OR CT_X) \<noteq> 0"
definition toascii :: "byte \<Rightarrow> byte" where "toascii c = c AND 0x7f"

text \<open>\<^verbatim>\<open>c -= 'A'-'a'\<close> adds 32, \<^verbatim>\<open>c -= 'a'-'A'\<close> subtracts it.\<close>

definition ctolower :: "byte \<Rightarrow> byte" where
  "ctolower c = (if isupper c then c - (65 - 97) else c)"

definition ctoupper :: "byte \<Rightarrow> byte" where
  "ctoupper c = (if islower c then c - (97 - 65) else c)"

lemma ctype_tab_length: "length ctype_tab = 256"
  by (simp add: ctype_tab_def)

lemma all_ismask:
  assumes "list_all (\<lambda>(i, k). P (word_of_int i) k) (zip [0..255] ctype_tab)"
  shows "P c (ismask c)"
proof -
  have c: "unat c < 256" using unsigned_less [of c] by simp
  have "0 + int (unat c) \<le> 255" using c by linarith
  then have "[0..255] ! unat c = int (unat c)" using nth_upto [of 0 "unat c" 255] by linarith
  then have "zip [0..255] ctype_tab ! unat c = (int (unat c), ismask c)"
    using c by (simp add: ctype_tab_length ismask_def)
  moreover have "zip [0..255] ctype_tab ! unat c \<in> set (zip [0..255] ctype_tab)"
    using c by (intro nth_mem) (simp add: ctype_tab_length)
  ultimately show ?thesis using assms by (fastforce simp: list_all_iff)
qed

text \<open>The classes in terms of character codes.\<close>

lemma isdigit_iff: "isdigit c \<longleftrightarrow> 48 \<le> c \<and> c \<le> 57"
  unfolding isdigit_def by (rule all_ismask) code_simp

lemma isspace_iff: "isspace c \<longleftrightarrow> 9 \<le> c \<and> c \<le> 13 \<or> c = 32 \<or> c = 160"
  unfolding isspace_def by (rule all_ismask) code_simp

lemma isalpha_ascii: "c \<le> 127 \<longrightarrow> (isalpha c \<longleftrightarrow> 65 \<le> c \<and> c \<le> 90 \<or> 97 \<le> c \<and> c \<le> 122)"
  unfolding isalpha_def by (rule all_ismask) code_simp

lemma islower_ascii: "c \<le> 127 \<longrightarrow> (islower c \<longleftrightarrow> 97 \<le> c \<and> c \<le> 122)"
  unfolding islower_def by (rule all_ismask) code_simp

lemma isupper_ascii: "c \<le> 127 \<longrightarrow> (isupper c \<longleftrightarrow> 65 \<le> c \<and> c \<le> 90)"
  unfolding isupper_def by (rule all_ismask) code_simp

end
