(* ===== verification/CString.thy ===== *)
theory CString
  imports CMem
begin

unbundle bit_operations_syntax

text \<open>
  The portable string functions of the C library,
  \<^verbatim>\<open>src/soft/libc/ansi/string/string.c\<close>, on byte-addressed memory. The i386
  header replaces some of them by string instructions; what is modelled is the C text.

  A function takes the memory and returns its result, \<open>None\<close> when it touches unmapped memory
  or never returns. A result of type \<^typ>\<open>nat option\<close> is a pointer or NULL; functions that
  write return the new memory too.
\<close>

section \<open>Memory blocks\<close>

fun memcpy_loop :: "nat \<Rightarrow> nat \<Rightarrow> nat \<Rightarrow> bmem \<Rightarrow> bmem option" where
  "memcpy_loop 0 tmp s m = Some m"
| "memcpy_loop (Suc count) tmp s m = do {
     b \<leftarrow> m s;
     m \<leftarrow> put m tmp b;
     memcpy_loop count (tmp + 1) (s + 1) m
   }"

definition memcpy :: "nat \<Rightarrow> nat \<Rightarrow> nat \<Rightarrow> bmem \<Rightarrow> (nat \<times> bmem) option" where
  "memcpy dest src count m = do { m \<leftarrow> memcpy_loop count dest src m; Some (dest, m) }"

fun memchr :: "bmem \<Rightarrow> nat \<Rightarrow> int \<Rightarrow> nat \<Rightarrow> nat option option" where
  "memchr m p c 0 = Some None"
| "memchr m p c (Suc n) = do {
     b \<leftarrow> m p;
     if word_of_int c = b then Some (Some p) else memchr m (p + 1) c n
   }"

fun memcmp :: "bmem \<Rightarrow> nat \<Rightarrow> nat \<Rightarrow> nat \<Rightarrow> int option" where
  "memcmp m su1 su2 0 = Some 0"
| "memcmp m su1 su2 (Suc count) = do {
     a \<leftarrow> m su1;
     b \<leftarrow> m su2;
     let res = uint a - uint b;
     if res \<noteq> 0 then Some res else memcmp m (su1 + 1) (su2 + 1) count
   }"

fun memmove_back :: "nat \<Rightarrow> nat \<Rightarrow> nat \<Rightarrow> bmem \<Rightarrow> bmem option" where
  "memmove_back 0 tmp s m = Some m"
| "memmove_back (Suc count) tmp s m = do {
     b \<leftarrow> m (s - 1);
     m \<leftarrow> put m (tmp - 1) b;
     memmove_back count (tmp - 1) (s - 1) m
   }"

definition memmove :: "nat \<Rightarrow> nat \<Rightarrow> nat \<Rightarrow> bmem \<Rightarrow> (nat \<times> bmem) option" where
  "memmove dest src count m = do {
     m \<leftarrow> (if dest \<le> src then memcpy_loop count dest src m
          else memmove_back count (dest + count) (src + count) m);
     Some (dest, m)
   }"

fun memset_loop :: "nat \<Rightarrow> nat \<Rightarrow> int \<Rightarrow> bmem \<Rightarrow> bmem option" where
  "memset_loop 0 xs c m = Some m"
| "memset_loop (Suc count) xs c m = do {
     m \<leftarrow> put m xs (word_of_int c);
     memset_loop count (xs + 1) c m
   }"

definition memset :: "nat \<Rightarrow> int \<Rightarrow> nat \<Rightarrow> bmem \<Rightarrow> (nat \<times> bmem) option" where
  "memset s c count m = do { m \<leftarrow> memset_loop count s c m; Some (s, m) }"

fun memscan :: "bmem \<Rightarrow> nat \<Rightarrow> int \<Rightarrow> nat \<Rightarrow> nat option" where
  "memscan m p c 0 = Some p"
| "memscan m p c (Suc n) = do {
     b \<leftarrow> m p;
     if uint b = c then Some p else memscan m (p + 1) c n
   }"

text \<open>A negative \<open>count\<close> is counted down past the least integer, which is undefined.\<close>

definition bcopy :: "nat \<Rightarrow> nat \<Rightarrow> int \<Rightarrow> bmem \<Rightarrow> (nat \<times> bmem) option" where
  "bcopy src dest count m = do {
     check (0 \<le> count);
     m \<leftarrow> memcpy_loop (nat count) dest src m;
     Some (dest, m)
   }"

section \<open>Comparison\<close>

text \<open>\<open>continue\<close> goes to the test of the loop, \<^verbatim>\<open>--len\<close>.\<close>

fun strnicmp :: "bmem \<Rightarrow> nat \<Rightarrow> nat \<Rightarrow> nat \<Rightarrow> int option" where
  "strnicmp m s1 s2 0 = Some 0"
| "strnicmp m s1 s2 (Suc len) = do {
     c1 \<leftarrow> m s1;
     c2 \<leftarrow> m s2;
     if c1 = 0 \<or> c2 = 0 then Some (uint c1 - uint c2)
     else if c1 = c2 then
       (if len = 0 then Some (uint c1 - uint c2) else strnicmp m (s1 + 1) (s2 + 1) len)
     else if ctolower c1 \<noteq> ctolower c2 \<or> len = 0 then Some (uint (ctolower c1) - uint (ctolower c2))
     else strnicmp m (s1 + 1) (s2 + 1) len
   }"

text \<open>The difference of the characters is kept in a \<^verbatim>\<open>signed char\<close>.\<close>

partial_function (option) strcmp :: "bmem \<Rightarrow> nat \<Rightarrow> nat \<Rightarrow> int option" where
  "strcmp m cs ct = do {
     a \<leftarrow> m cs;
     b \<leftarrow> m ct;
     let res = sint (a - b);
     if res \<noteq> 0 \<or> a = 0 then Some res else strcmp m (cs + 1) (ct + 1)
   }"

fun strncmp_loop :: "bmem \<Rightarrow> nat \<Rightarrow> nat \<Rightarrow> nat \<Rightarrow> int \<Rightarrow> int option" where
  "strncmp_loop m cs ct 0 res = Some res"
| "strncmp_loop m cs ct (Suc count) res = do {
     a \<leftarrow> m cs;
     b \<leftarrow> m ct;
     let res = sint (a - b);
     if res \<noteq> 0 \<or> a = 0 then Some res else strncmp_loop m (cs + 1) (ct + 1) count res
   }"

definition strncmp :: "bmem \<Rightarrow> nat \<Rightarrow> nat \<Rightarrow> nat \<Rightarrow> int option" where
  "strncmp m cs ct count = strncmp_loop m cs ct count 0"

section \<open>Copying strings\<close>

partial_function (option) strcpy_loop :: "nat \<Rightarrow> nat \<Rightarrow> bmem \<Rightarrow> bmem option" where
  "strcpy_loop dest src m = do {
     b \<leftarrow> m src;
     m \<leftarrow> put m dest b;
     if b = 0 then Some m else strcpy_loop (dest + 1) (src + 1) m
   }"

definition strcpy :: "nat \<Rightarrow> nat \<Rightarrow> bmem \<Rightarrow> (nat \<times> bmem) option" where
  "strcpy dest src m = do { m \<leftarrow> strcpy_loop dest src m; Some (dest, m) }"

fun strncpy_loop :: "nat \<Rightarrow> nat \<Rightarrow> nat \<Rightarrow> bmem \<Rightarrow> bmem option" where
  "strncpy_loop 0 dest src m = Some m"
| "strncpy_loop (Suc count) dest src m = do {
     b \<leftarrow> m src;
     m \<leftarrow> put m dest b;
     if b = 0 then Some m else strncpy_loop count (dest + 1) (src + 1) m
   }"

definition strncpy :: "nat \<Rightarrow> nat \<Rightarrow> nat \<Rightarrow> bmem \<Rightarrow> (nat \<times> bmem) option" where
  "strncpy dest src count m = do { m \<leftarrow> strncpy_loop count dest src m; Some (dest, m) }"

partial_function (option) str_end :: "bmem \<Rightarrow> nat \<Rightarrow> nat option" where
  "str_end m p = do { b \<leftarrow> m p; if b \<noteq> 0 then str_end m (p + 1) else Some p }"

definition strcat :: "nat \<Rightarrow> nat \<Rightarrow> bmem \<Rightarrow> (nat \<times> bmem) option" where
  "strcat dest src m = do {
     p \<leftarrow> str_end m dest;
     m \<leftarrow> strcpy_loop p src m;
     Some (dest, m)
   }"

fun strncat_loop :: "nat \<Rightarrow> nat \<Rightarrow> nat \<Rightarrow> bmem \<Rightarrow> bmem option" where
  "strncat_loop 0 dest src m = put m dest 0"
| "strncat_loop (Suc count) dest src m = do {
     b \<leftarrow> m src;
     m \<leftarrow> put m dest b;
     if b = 0 then Some m else strncat_loop count (dest + 1) (src + 1) m
   }"

definition strncat :: "nat \<Rightarrow> nat \<Rightarrow> nat \<Rightarrow> bmem \<Rightarrow> (nat \<times> bmem) option" where
  "strncat dest src count m =
     (if count = 0 then Some (dest, m)
      else do {
        p \<leftarrow> str_end m dest;
        m \<leftarrow> strncat_loop count p src m;
        Some (dest, m)
      })"

section \<open>Searching\<close>

definition strlen :: "bmem \<Rightarrow> nat \<Rightarrow> nat option" where
  "strlen m s = do { sc \<leftarrow> str_end m s; Some (sc - s) }"

partial_function (option) strchr :: "bmem \<Rightarrow> nat \<Rightarrow> int \<Rightarrow> nat option option" where
  "strchr m s c = do {
     b \<leftarrow> m s;
     if b \<noteq> word_of_int c then (if b = 0 then Some None else strchr m (s + 1) c)
     else Some (Some s)
   }"

text \<open>The pointer \<open>p\<close> of the loop is \<open>s + k\<close>.\<close>

fun strrchr_loop :: "bmem \<Rightarrow> nat \<Rightarrow> int \<Rightarrow> nat \<Rightarrow> nat option option" where
  "strrchr_loop m s c k = do {
     b \<leftarrow> m (s + k);
     if b = word_of_int c then Some (Some (s + k))
     else case k of 0 \<Rightarrow> Some None | Suc k \<Rightarrow> strrchr_loop m s c k
   }"

definition strrchr :: "bmem \<Rightarrow> nat \<Rightarrow> int \<Rightarrow> nat option option" where
  "strrchr m s c = do { n \<leftarrow> strlen m s; strrchr_loop m s c n }"

partial_function (option) accept_scan :: "bmem \<Rightarrow> nat \<Rightarrow> byte \<Rightarrow> bool option" where
  "accept_scan m a x = do {
     b \<leftarrow> m a;
     if b = 0 then Some False else if x = b then Some True else accept_scan m (a + 1) x
   }"

partial_function (option) strspn_loop :: "bmem \<Rightarrow> nat \<Rightarrow> nat \<Rightarrow> nat \<Rightarrow> nat option" where
  "strspn_loop m p accept count = do {
     x \<leftarrow> m p;
     if x = 0 then Some count
     else do {
       found \<leftarrow> accept_scan m accept x;
       if \<not> found then Some count else strspn_loop m (p + 1) accept (count + 1)
     }
   }"

definition strspn :: "bmem \<Rightarrow> nat \<Rightarrow> nat \<Rightarrow> nat option" where
  "strspn m s accept = strspn_loop m s accept 0"

partial_function (option) strpbrk :: "bmem \<Rightarrow> nat \<Rightarrow> nat \<Rightarrow> nat option option" where
  "strpbrk m sc1 ct = do {
     x \<leftarrow> m sc1;
     if x = 0 then Some None
     else do {
       found \<leftarrow> accept_scan m ct x;
       if found then Some (Some sc1) else strpbrk m (sc1 + 1) ct
     }
   }"

text \<open>The variable \<^verbatim>\<open>___strtok\<close> is local and starts as the argument \<open>s\<close>.\<close>

definition strtok :: "nat option \<Rightarrow> nat \<Rightarrow> bmem \<Rightarrow> (nat option \<times> bmem) option" where
  "strtok s ct m = (
     let strtok_var = s;
         sbegin = (case s of Some p \<Rightarrow> Some p | None \<Rightarrow> strtok_var)
     in case sbegin of
       None \<Rightarrow> Some (None, m)
     | Some sbegin \<Rightarrow> do {
         n \<leftarrow> strspn m sbegin ct;
         let sbegin = sbegin + n;
         b \<leftarrow> m sbegin;
         if b = 0 then Some (None, m)
         else do {
           send \<leftarrow> strpbrk m sbegin ct;
           m \<leftarrow> (case send of
                  None \<Rightarrow> Some m
                | Some p \<Rightarrow> do { e \<leftarrow> m p; if e \<noteq> 0 then put m p 0 else Some m });
           Some (Some sbegin, m)
         }
       })"

function strstr_loop :: "bmem \<Rightarrow> nat \<Rightarrow> nat \<Rightarrow> int \<Rightarrow> int \<Rightarrow> nat option option" where
  "strstr_loop m s1 s2 l1 l2 =
     (if l1 \<ge> l2 then do {
        r \<leftarrow> memcmp m s1 s2 (nat l2);
        if r = 0 then Some (Some s1) else strstr_loop m (s1 + 1) s2 (l1 - 1) l2
      }
      else Some None)"
  by auto
termination by (relation "measure (\<lambda>(m, s1, s2, l1, l2). nat (l1 - l2 + 1))") auto

definition strstr :: "bmem \<Rightarrow> nat \<Rightarrow> nat \<Rightarrow> nat option option" where
  "strstr m s1 s2 = do {
     l2 \<leftarrow> strlen m s2;
     if l2 = 0 then Some (Some s1)
     else do {
       l1 \<leftarrow> strlen m s1;
       strstr_loop m s1 s2 (int l1) (int l2)
     }
   }"

section \<open>Searching a word at a time\<close>

definition magic_bits :: u32 where "magic_bits = 0x7efefeff"

text \<open>The i386 stores the least significant byte first.\<close>

definition word4 :: "byte \<Rightarrow> byte \<Rightarrow> byte \<Rightarrow> byte \<Rightarrow> u32" where
  "word4 b0 b1 b2 b3 = ucast b0 OR push_bit 8 (ucast b1) OR push_bit 16 (ucast b2) OR push_bit 24 (ucast b3)"

definition rd32 :: "bmem \<Rightarrow> nat \<Rightarrow> u32 option" where
  "rd32 m p = do {
     b0 \<leftarrow> m p;
     b1 \<leftarrow> m (p + 1);
     b2 \<leftarrow> m (p + 2);
     b3 \<leftarrow> m (p + 3);
     Some (word4 b0 b1 b2 b3)
   }"

definition hole_test :: "u32 \<Rightarrow> bool" where
  "hole_test longword \<longleftrightarrow> ((longword + magic_bits) XOR NOT longword) AND NOT magic_bits \<noteq> 0"

definition charmask_of :: "byte \<Rightarrow> u32" where
  "charmask_of c = (let charmask = ucast c OR push_bit 8 (ucast c) in charmask OR push_bit 16 charmask)"

partial_function (option) chrnul_align :: "bmem \<Rightarrow> nat \<Rightarrow> byte \<Rightarrow> (nat + nat) option" where
  "chrnul_align m p c =
     (if p mod 4 \<noteq> 0 then do {
        b \<leftarrow> m p;
        if b = c \<or> b = 0 then Some (Inl p) else chrnul_align m (p + 1) c
      }
      else Some (Inr p))"

partial_function (option) chrnul_words :: "bmem \<Rightarrow> nat \<Rightarrow> byte \<Rightarrow> u32 \<Rightarrow> nat option" where
  "chrnul_words m p c charmask = do {
     longword \<leftarrow> rd32 m p;
     if hole_test longword \<or> hole_test (longword XOR charmask) then do {
       b0 \<leftarrow> m p;
       if b0 = c \<or> b0 = 0 then Some p
       else do {
         b1 \<leftarrow> m (p + 1);
         if b1 = c \<or> b1 = 0 then Some (p + 1)
         else do {
           b2 \<leftarrow> m (p + 2);
           if b2 = c \<or> b2 = 0 then Some (p + 2)
           else do {
             b3 \<leftarrow> m (p + 3);
             if b3 = c \<or> b3 = 0 then Some (p + 3)
             else chrnul_words m (p + 4) c charmask
           }
         }
       }
     }
     else chrnul_words m (p + 4) c charmask
   }"

definition strchrnul :: "bmem \<Rightarrow> nat \<Rightarrow> int \<Rightarrow> nat option" where
  "strchrnul m s c_in = (
     let c = word_of_int c_in in do {
       r \<leftarrow> chrnul_align m s c;
       case r of Inl p \<Rightarrow> Some p | Inr p \<Rightarrow> chrnul_words m p c (charmask_of c)
     })"

section \<open>Copying\<close>

lemma memcpy_loop_forward:
  "block m s xs \<Longrightarrow> mapped m t (length xs) \<Longrightarrow> t \<le> s \<or> s + length xs \<le> t \<Longrightarrow>
    memcpy_loop (length xs) t s m = Some (store m t xs)"
proof (induction xs arbitrary: m t s)
  case Nil
  then show ?case by simp
next
  case (Cons x xs)
  have b: "block (m(t \<mapsto> x)) (s + 1) xs"
    using Cons.prems by (auto simp: block_nth)
  have t: "mapped (m(t \<mapsto> x)) (t + 1) (length xs)" "m t \<noteq> None"
    using Cons.prems(2) by (simp_all add: mapped_Suc mapped_upd)
  have "t + 1 \<le> s + 1 \<or> s + 1 + length xs \<le> t + 1" using Cons.prems(3) by auto
  from Cons.IH [OF b t(1) this] t(2) show ?case using Cons.prems(1) by (simp flip: fun_upd_def)
qed

lemma memmove_back_store:
  "block m s xs \<Longrightarrow> mapped m t (length xs) \<Longrightarrow> s \<le> t \<Longrightarrow>
    memmove_back (length xs) (t + length xs) (s + length xs) m = Some (store m t xs)"
proof (induction xs arbitrary: m rule: rev_induct)
  case Nil
  then show ?case by simp
next
  case (snoc x xs)
  let ?m = "m(t + length xs \<mapsto> x)"
  have b: "block ?m s xs" using snoc.prems by (auto simp: block_nth nth_append)
  have t: "mapped ?m t (length xs)" "m (t + length xs) \<noteq> None" "m (s + length xs) = Some x"
    using snoc.prems by (auto simp: mapped_def block_append)
  have "memmove_back (length (xs @ [x])) (t + length (xs @ [x])) (s + length (xs @ [x])) m
      = Some (store ?m t xs)"
    using snoc.IH [OF b t(1) snoc.prems(3)] t(2,3) by (simp flip: fun_upd_def)
  also have "store ?m t xs = store m t (xs @ [x])"
    by (rule ext) (auto simp: store_at nth_append)
  finally show ?case .
qed

text \<open>C22. \<open>memmove\<close> copies as if through a buffer: whether the two areas overlap or not, the
  destination ends up with the bytes the source had before the call, every byte outside the
  destination is unchanged, and the destination is returned.\<close>

theorem memmove_buffered:
  assumes "block m src xs" "mapped m dest (length xs)"
  shows "memmove dest src (length xs) m = Some (dest, store m dest xs) \<and>
    block (store m dest xs) dest xs \<and>
    (\<forall>p. p < dest \<or> dest + length xs \<le> p \<longrightarrow> store m dest xs p = m p)"
proof -
  have "memmove dest src (length xs) m = Some (dest, store m dest xs)"
    using memcpy_loop_forward [OF assms] memmove_back_store [OF assms] by (auto simp: memmove_def)
  then show ?thesis by (auto simp: block_store store_at)
qed

theorem memmove_buffered_witness:
  "let m = store Map.empty 10 [1, 2, 3, 4, 5] in memmove 11 10 4 m = Some (11, store m 11 [1, 2, 3, 4])"
  using memmove_buffered [of "store Map.empty 10 [1, 2, 3, 4, 5]" 10 "[1, 2, 3, 4]" 11]
  by (simp add: Let_def mapped_def numeral_eq_Suc less_Suc_eq)

text \<open>On areas that overlap with the destination behind the source, \<open>memcpy\<close> spreads the first
  byte instead.\<close>

lemma memcpy_overlap:
  "map_option (\<lambda>(d, m). map m [10..<15]) (memcpy 11 10 4 (store Map.empty 10 [1, 2, 3, 4, 5])) =
    Some (map Some [1, 1, 1, 1, 1])"
  by (simp add: memcpy_def numeral_eq_Suc upt_rec)

section \<open>Strings\<close>

lemma str_end_cstr: "cstr m p xs \<Longrightarrow> str_end m p = Some (p + length xs)"
proof (induction xs arbitrary: p)
  case Nil
  then show ?case by (subst str_end.simps) simp
next
  case (Cons x xs)
  then show ?case by (subst str_end.simps) simp
qed

lemma strlen_cstr: "cstr m s xs \<Longrightarrow> strlen m s = Some (length xs)"
  by (simp add: strlen_def str_end_cstr)

lemma strchr_cstr:
  "cstr m s xs \<Longrightarrow> strchr m s c = Some (
     let n = length (takeWhile (\<lambda>b. b \<noteq> word_of_int c) xs)
     in if n < length xs \<or> word_of_int c = (0 :: byte) then Some (s + n) else None)"
proof (induction xs arbitrary: s)
  case Nil
  then show ?case by (subst strchr.simps) (auto simp: Let_def)
next
  case (Cons x xs)
  then show ?case by (subst strchr.simps) (auto simp: Let_def)
qed

lemma accept_scan_cstr: "cstr m a ys \<Longrightarrow> accept_scan m a x = Some (x \<in> set ys)"
proof (induction ys arbitrary: a)
  case Nil
  then show ?case by (subst accept_scan.simps) simp
next
  case (Cons y ys)
  then show ?case by (subst accept_scan.simps) simp
qed

lemma strspn_loop_cstr:
  "cstr m p xs \<Longrightarrow> cstr m a ys \<Longrightarrow>
    strspn_loop m p a k = Some (k + length (takeWhile (\<lambda>x. x \<in> set ys) xs))"
proof (induction xs arbitrary: p k)
  case Nil
  then show ?case by (subst strspn_loop.simps) simp
next
  case (Cons x xs)
  then show ?case by (subst strspn_loop.simps) (simp add: accept_scan_cstr)
qed

lemma strspn_cstr:
  "cstr m s xs \<Longrightarrow> cstr m a ys \<Longrightarrow> strspn m s a = Some (length (takeWhile (\<lambda>x. x \<in> set ys) xs))"
  by (simp add: strspn_def strspn_loop_cstr)

lemma strpbrk_cstr:
  "cstr m s xs \<Longrightarrow> cstr m a ys \<Longrightarrow> strpbrk m s a = Some (
     let n = length (takeWhile (\<lambda>x. x \<notin> set ys) xs) in if n < length xs then Some (s + n) else None)"
proof (induction xs arbitrary: s)
  case Nil
  then show ?case by (subst strpbrk.simps) simp
next
  case (Cons x xs)
  then show ?case by (subst strpbrk.simps) (simp add: accept_scan_cstr Let_def)
qed

lemma memcmp_block:
  "block m a xs \<Longrightarrow> block m b ys \<Longrightarrow> length ys = length xs \<Longrightarrow>
    \<exists>r. memcmp m a b (length xs) = Some r \<and> (r = 0 \<longleftrightarrow> xs = ys)"
proof (induction xs arbitrary: a b ys)
  case Nil
  then show ?case by simp
next
  case (Cons x xs)
  then obtain y ys' where ys: "ys = y # ys'" by (cases ys) auto
  have "uint x - uint y = 0 \<longleftrightarrow> x = y" by (simp add: uint_word_ariths word_uint_eq_iff)
  then show ?case using Cons.prems Cons.IH [of "a + 1" "b + 1" ys'] by (auto simp: ys Let_def)
qed

lemma strcpy_loop_store:
  "cstr m s xs \<Longrightarrow> mapped m t (length xs + 1) \<Longrightarrow> t + length xs < s \<or> s + length xs < t \<Longrightarrow>
    strcpy_loop t s m = Some (store m t (xs @ [0]))"
proof (induction xs arbitrary: m t s)
  case Nil
  then show ?case by (subst strcpy_loop.simps) (simp add: mapped_def)
next
  case (Cons x xs)
  have b: "cstr (m(t \<mapsto> x)) (s + 1) xs"
    using Cons.prems by (auto simp: cstr_block block_nth)
  have t: "mapped (m(t \<mapsto> x)) (t + 1) (length xs + 1)" "m t \<noteq> None"
    using Cons.prems(2) by (simp_all add: mapped_Suc mapped_upd)
  have "t + 1 + length xs < s + 1 \<or> s + 1 + length xs < t + 1" using Cons.prems(3) by auto
  from Cons.IH [OF b t(1) this] t(2) show ?case
    using Cons.prems(1) by (subst strcpy_loop.simps) (simp flip: fun_upd_def)
qed

text \<open>\<open>strcat\<close> appends: the string at the destination becomes the concatenation, and what is
  outside the bytes written keeps its value.\<close>

lemma strcat_cstr:
  assumes "cstr m d xs" "cstr m s ys" "mapped m (d + length xs) (length ys + 1)"
    "d + length xs + length ys < s \<or> s + length ys < d"
  shows "\<exists>m'. strcat d s m = Some (d, m') \<and> cstr m' d (xs @ ys) \<and> cstr m' s ys"
proof -
  let ?m = "store m (d + length xs) (ys @ [0])"
  have "strcat d s m = Some (d, ?m)"
    using assms strcpy_loop_store [of m s ys "d + length xs"] by (auto simp: strcat_def str_end_cstr)
  moreover have "block ?m d xs" "block ?m s (ys @ [0])"
    using assms block_store_other [of d xs "d + length xs"] block_store_other [of s "ys @ [0]" "d + length xs" "ys @ [0]" m]
    by (auto simp: cstr_block block_append)
  moreover have "block ?m (d + length xs) (ys @ [0])" by (rule block_store)
  ultimately show ?thesis
    using assms(1,2) unfolding cstr_block by (auto simp: block_append)
qed

section \<open>Comparing and finding strings\<close>

lemma uint_pos: "b \<noteq> 0 \<Longrightarrow> 0 < uint (b :: byte)"
  using unsigned_greater_eq [of b] unsigned_eq_0_iff [of b] by (metis order_le_less)

lemma sint_nonzero: "b \<noteq> 0 \<Longrightarrow> sint (b :: byte) \<noteq> 0"
  by (simp add: signed_eq_0_iff)

lemma sint_ascii_diff:
  assumes "a \<le> 127" "b \<le> (127 :: byte)"
  shows "sint (a - b) = uint a - uint b"
proof -
  have ab: "uint a \<le> 127" "uint b \<le> 127" "0 \<le> uint a" "0 \<le> uint b"
    using assms by (simp_all add: word_le_def)
  then have "signed_take_bit 7 (uint a) = uint a" "signed_take_bit 7 (uint b) = uint b"
    using order_trans [of "- 128" 0 "uint a"] order_trans [of "- 128" 0 "uint b"]
    by (simp_all add: signed_take_bit_int_eq_self_iff)
  then have "sint a = uint a" "sint b = uint b"
    by (simp_all add: sint_uint)
  moreover have "- 128 \<le> uint a - uint b" "uint a - uint b < 128" using ab by linarith+
  ultimately show ?thesis by (simp add: sint_word_ariths signed_take_bit_int_eq_self_iff)
qed

text \<open>C36. \<open>strcmp\<close> of two strings returns, and the result is zero exactly when the strings are
  equal; on strings of 7-bit characters its sign is that of the lexicographic order.\<close>

theorem strcmp_orders:
  assumes "cstr m s xs" "cstr m t ys"
  shows "\<exists>r. strcmp m s t = Some r \<and> (r = 0 \<longleftrightarrow> xs = ys) \<and>
    ((\<forall>x \<in> set xs \<union> set ys. x \<le> 127) \<longrightarrow> (r < 0 \<longleftrightarrow> ord_class.lexordp xs ys))"
  using assms
proof (induction xs arbitrary: s t ys)
  case Nil
  show ?case
  proof (cases ys)
    case Nil
    then show ?thesis using Nil.prems by (subst strcmp.simps) (simp add: Let_def)
  next
    case (Cons y zs)
    then have "strcmp m s t = Some (sint (0 - y))"
      using Nil.prems by (subst strcmp.simps) (simp add: Let_def)
    moreover have "y \<le> 127 \<Longrightarrow> sint (0 - y) = - uint y" using sint_ascii_diff [of 0 y] by simp
    moreover have "sint (0 - y) \<noteq> 0" "0 < uint y" using Cons Nil.prems sint_nonzero [of "- y"] by (auto simp: uint_pos)
    ultimately show ?thesis using Cons by auto
  qed
next
  case (Cons x xs)
  have x: "x \<noteq> 0" "m s = Some x" "cstr m (s + 1) xs" using Cons.prems(1) by auto
  show ?case
  proof (cases ys)
    case Nil
    then have "strcmp m s t = Some (sint (x - 0))"
      using Cons.prems by (subst strcmp.simps) (simp add: Let_def sint_nonzero)
    moreover have "x \<le> 127 \<Longrightarrow> sint (x - 0) = uint x" using sint_ascii_diff [of x 0] by simp
    moreover have "sint x \<noteq> 0" "0 < uint x" using x by (auto simp: uint_pos sint_nonzero)
    ultimately show ?thesis using Nil by auto
  next
    case (Cons y zs)
    show ?thesis
    proof (cases "x = y")
      case True
      then have "strcmp m s t = strcmp m (s + 1) (t + 1)"
        using Cons Cons.prems x by (subst strcmp.simps) (simp add: Let_def)
      then show ?thesis using Cons.IH [OF x(3), of "t + 1" zs] Cons.prems(2) True Cons by auto
    next
      case False
      then have "strcmp m s t = Some (sint (x - y))" "sint (x - y) \<noteq> 0"
        using Cons Cons.prems x sint_nonzero [of "x - y"] by (subst strcmp.simps, simp_all add: Let_def)
      moreover have "x \<le> 127 \<Longrightarrow> y \<le> 127 \<Longrightarrow> sint (x - y) < 0 \<longleftrightarrow> x < y"
        by (simp add: sint_ascii_diff word_less_def)
      ultimately show ?thesis using False Cons by auto
    qed
  qed
qed
theorem strcmp_orders_witness:
  "let m = store (store Map.empty 20 [97, 98, 0]) 30 [97, 99, 0] in
    \<exists>r. strcmp m 20 30 = Some r \<and> r \<noteq> 0 \<and> r < 0"
proof -
  let ?m = "store (store Map.empty 20 [97, 98, 0]) 30 [97, 99, 0]"
  have "cstr ?m 20 [97, 98]" "cstr ?m 30 [97, 99]" by simp_all
  from strcmp_orders [OF this] show ?thesis by (auto simp: Let_def)
qed

text \<open>Characters above 127 can get the wrong order, because the difference is kept in a
  \<^verbatim>\<open>signed char\<close>: the character 1 comes out greater than 200.\<close>

lemma strcmp_wraps: "strcmp (store Map.empty 20 [1, 0, 200, 0]) 20 22 = Some 57"
  by (subst strcmp.simps) (simp add: sint_uint signed_take_bit_eq_if_positive)

lemma strrchr_loop_block:
  "block m s xs \<Longrightarrow> k < length xs \<Longrightarrow>
    strrchr_loop m s c k = Some (map_option (\<lambda>i. s + i) (find (\<lambda>i. xs ! i = word_of_int c) (rev [0..<Suc k])))"
proof (induction k)
  case 0
  then show ?case by (cases xs) auto
next
  case (Suc k)
  then have "m (s + Suc k) = Some (xs ! Suc k)" unfolding block_nth by blast
  then show ?case using Suc by (subst strrchr_loop.simps) simp
qed

lemma strrchr_cstr:
  "cstr m s xs \<Longrightarrow> strrchr m s c =
    Some (map_option (\<lambda>i. s + i) (find (\<lambda>i. (xs @ [0]) ! i = word_of_int c) (rev [0..<Suc (length xs)])))"
  using strrchr_loop_block [of m s "xs @ [0]" "length xs" c]
  by (simp add: strrchr_def strlen_cstr cstr_block)

lemma find_map_Suc: "find P (map Suc xs) = map_option Suc (find (\<lambda>i. P (Suc i)) xs)"
  by (induction xs) auto

lemma strstr_loop_cstr:
  assumes "cstr m s2 ys" "ys \<noteq> []"
  shows "cstr m s1 xs \<Longrightarrow> strstr_loop m s1 s2 (int (length xs)) (int (length ys)) =
    Some (map_option (\<lambda>i. s1 + i) (find (\<lambda>i. take (length ys) (drop i xs) = ys) [0..<Suc (length xs)]))"
proof (induction xs arbitrary: s1)
  case Nil
  then show ?case using assms by (subst strstr_loop.simps) simp
next
  case (Cons x xs)
  let ?P = "\<lambda>xs i. take (length ys) (drop i xs) = ys"
  have shift: "find (?P (x # xs)) [0..<Suc (length (x # xs))] =
      (if ?P (x # xs) 0 then Some 0 else map_option Suc (find (?P xs) [0..<Suc (length xs)]))"
    by (simp only: upt_conv_Cons [of 0 "Suc (Suc (length xs))"] zero_less_Suc find.simps map_Suc_upt [symmetric]
        length_Cons find_map_Suc drop_Suc_Cons drop_0)
  show ?case
  proof (cases "length ys \<le> length (x # xs)")
    case True
    let ?zs = "take (length ys) (x # xs)"
    have "block m s1 ?zs" using Cons.prems True
      by (metis append_take_drop_id block_append cstr_block)
    moreover have "block m s2 ys" using assms(1) by (simp add: cstr_block block_append)
    moreover have "length ?zs = length ys" using True by simp
    ultimately obtain r where r: "memcmp m s1 s2 (length ys) = Some r" "r = 0 \<longleftrightarrow> ?zs = ys"
      using memcmp_block [of m s1 ?zs s2 ys] by metis
    have rec: "strstr_loop m s1 s2 (int (length (x # xs))) (int (length ys)) =
        (if r = 0 then Some (Some s1) else strstr_loop m (s1 + 1) s2 (int (length xs)) (int (length ys)))"
      using True r(1) by (subst strstr_loop.simps) simp
    have "strstr_loop m (s1 + 1) s2 (int (length xs)) (int (length ys)) =
        Some (map_option (\<lambda>i. s1 + 1 + i) (find (?P xs) [0..<Suc (length xs)]))"
      using Cons.IH Cons.prems by simp
    then show ?thesis unfolding rec shift using r(2)
      by (simp add: option.map_comp comp_def)
  next
    case False
    have "?P (x # xs) i \<longleftrightarrow> False" for i
      using False by (auto dest!: arg_cong [of _ _ length])
    then have "find (?P (x # xs)) [0..<Suc (length (x # xs))] = None"
      by (simp only: find_None_iff) simp
    then show ?thesis using False by (subst strstr_loop.simps) simp
  qed
qed

text \<open>C26. \<open>strstr\<close> returns the address of the first occurrence of the second string in the
  first, and NULL when there is none.\<close>

theorem strstr_first_occurrence:
  assumes "cstr m s1 xs" "cstr m s2 ys"
  shows "strstr m s1 s2 =
    Some (map_option (\<lambda>i. s1 + i) (find (\<lambda>i. take (length ys) (drop i xs) = ys) [0..<Suc (length xs)]))"
proof (cases ys)
  case Nil
  then show ?thesis using strlen_cstr [OF assms(2)] by (simp add: strstr_def upt_conv_Cons del: upt_Suc)
next
  case (Cons y ys')
  then show ?thesis
    using strlen_cstr [OF assms(1)] strlen_cstr [OF assms(2)] strstr_loop_cstr [OF assms(2) _ assms(1)]
    by (simp add: strstr_def del: strstr_loop.simps upt_Suc)
qed

theorem strstr_first_occurrence_witness:
  "strstr (store (store Map.empty 20 [98, 97, 110, 97, 110, 97, 0]) 40 [97, 110, 97, 0]) 20 40 = Some (Some 21)"
proof -
  let ?m = "store (store Map.empty 20 [98, 97, 110, 97, 110, 97, 0]) 40 [97, 110, 97, 0]"
  have "cstr ?m 20 [98, 97, 110, 97, 110, 97]" "cstr ?m 40 [97, 110, 97]" by simp_all
  from strstr_first_occurrence [OF this] show ?thesis
    by (simp add: upt_rec)
qed

section \<open>The search a word at a time\<close>

text \<open>Adding a number to one whose byte below bit \<open>h\<close> is zero does not carry into bit \<open>h\<close>.\<close>

lemma no_carry:
  fixes w k j h :: nat
  assumes "w div 2 ^ j mod 2 ^ (h - j) = 0" "j \<le> h" "k mod 2 ^ h + 2 ^ j \<le> 2 ^ h" "even (k div 2 ^ h)"
  shows "odd ((w + k) div 2 ^ h) \<longleftrightarrow> odd (w div 2 ^ h)"
proof -
  have "w mod 2 ^ h = w mod (2 ^ j * 2 ^ (h - j))" using assms(2) by (simp flip: power_add)
  also have "\<dots> = w mod 2 ^ j" using assms(1) by (simp add: mod_mult2_eq)
  also have "\<dots> < 2 ^ j" by simp
  finally have lt: "w mod 2 ^ h + k mod 2 ^ h < 2 ^ h" using assms(3) by linarith
  have "(w + k) div 2 ^ h = w div 2 ^ h + k div 2 ^ h + (w mod 2 ^ h + k mod 2 ^ h) div 2 ^ h"
    by (rule div_add1_eq)
  also have "\<dots> = w div 2 ^ h + k div 2 ^ h" using lt by simp
  finally show ?thesis using assms(4) by simp
qed

lemma hole_unchanged:
  assumes "unat w div 2 ^ j mod 2 ^ (h - j) = 0"
    "(j, h) \<in> {(0, 8), (8, 16), (16, 24), (24, 31)}"
  shows "hole_test w"
proof -
  have *: "w + magic_bits = word_of_nat (unat w + 0x7efefeff)" by (simp add: magic_bits_def)
  have "bit (w + magic_bits) h \<longleftrightarrow> odd ((unat w + 0x7efefeff) div 2 ^ h)"
    using assms(2) unfolding * bit_of_nat_iff by (auto simp: bit_iff_odd)
  also have "\<dots> \<longleftrightarrow> odd (unat w div 2 ^ h)"
    using assms by (intro no_carry) auto
  also have "\<dots> \<longleftrightarrow> bit (unat w) h" by (simp only: bit_iff_odd)
  also have "\<dots> \<longleftrightarrow> bit w h" by (simp add: bit_unsigned_iff)
  finally have "bit (((w + magic_bits) XOR NOT w) AND NOT magic_bits) h"
    using assms(2) by (auto simp: bit_and_iff bit_xor_iff bit_not_iff magic_bits_def)
  then show ?thesis unfolding hole_test_def by auto
qed

lemma bit_word4:
  "bit (word4 b0 b1 b2 b3) n \<longleftrightarrow>
    (if n < 8 then bit b0 n else if n < 16 then bit b1 (n - 8) else if n < 24 then bit b2 (n - 16)
     else if n < 32 then bit b3 (n - 24) else False)"
  using bit_imp_le_length [of b0 n] bit_imp_le_length [of b1 "n - 8"] bit_imp_le_length [of b2 "n - 16"]
  by (auto simp: word4_def bit_or_iff bit_push_bit_iff bit_ucast_iff)

lemma word4_zero_byte:
  "b0 = 0 \<Longrightarrow> unat (word4 b0 b1 b2 b3) div 2 ^ 0 mod 2 ^ (8 - 0) = 0"
  "b1 = 0 \<Longrightarrow> unat (word4 b0 b1 b2 b3) div 2 ^ 8 mod 2 ^ (16 - 8) = 0"
  "b2 = 0 \<Longrightarrow> unat (word4 b0 b1 b2 b3) div 2 ^ 16 mod 2 ^ (24 - 16) = 0"
  "b3 = 0 \<Longrightarrow> unat (word4 b0 b1 b2 b3) div 2 ^ 24 mod 2 ^ (31 - 24) = 0"
  unfolding take_bit_eq_mod [symmetric] drop_bit_eq_div [symmetric]
  by (rule bit_eqI; simp add: bit_take_bit_iff bit_drop_bit_eq bit_unsigned_iff bit_word4)+

lemma charmask_word4: "charmask_of c = word4 c c c c"
  by (rule bit_word_eqI) (auto simp: charmask_of_def Let_def word4_def bit_or_iff bit_push_bit_iff bit_ucast_iff)

lemma word4_xor: "word4 a0 a1 a2 a3 XOR word4 b0 b1 b2 b3 = word4 (a0 XOR b0) (a1 XOR b1) (a2 XOR b2) (a3 XOR b3)"
  by (rule bit_word_eqI) (simp add: bit_xor_iff bit_word4)

definition hits :: "byte \<Rightarrow> byte \<Rightarrow> bool" where
  "hits c b \<longleftrightarrow> b = c \<or> b = 0"

lemma no_hole_no_byte:
  assumes "\<not> hole_test (word4 b0 b1 b2 b3)"
  shows "b0 \<noteq> 0" "b1 \<noteq> 0" "b2 \<noteq> 0" "b3 \<noteq> 0"
  by (rule contrapos_nn [OF assms], rule hole_unchanged [OF word4_zero_byte(1)], simp_all,
      rule contrapos_nn [OF assms], rule hole_unchanged [OF word4_zero_byte(2)], simp_all,
      rule contrapos_nn [OF assms], rule hole_unchanged [OF word4_zero_byte(3)], simp_all,
      rule contrapos_nn [OF assms], rule hole_unchanged [OF word4_zero_byte(4)], simp_all)

text \<open>Where neither test fires, none of the four bytes is zero or the character looked for.\<close>

lemma no_hole_no_hit:
  assumes "\<not> hole_test (word4 b0 b1 b2 b3)" "\<not> hole_test (word4 b0 b1 b2 b3 XOR charmask_of c)"
  shows "\<not> hits c b0 \<and> \<not> hits c b1 \<and> \<not> hits c b2 \<and> \<not> hits c b3"
  using no_hole_no_byte [OF assms(1)]
    no_hole_no_byte [OF assms(2) [unfolded charmask_word4 word4_xor]]
  by (auto simp: hits_def)

definition first_hit :: "bmem \<Rightarrow> nat \<Rightarrow> byte \<Rightarrow> nat \<Rightarrow> bool" where
  "first_hit m p c n \<longleftrightarrow>
     (\<exists>b. m (p + n) = Some b \<and> hits c b) \<and> (\<forall>i<n. \<exists>b. m (p + i) = Some b \<and> \<not> hits c b)"

lemma cstr_first_hit: "cstr m s xs \<Longrightarrow> first_hit m s c (length (takeWhile (\<lambda>b. b \<noteq> c) xs))"
proof (induction xs arbitrary: s)
  case Nil
  then show ?case by (simp add: first_hit_def hits_def)
next
  case (Cons x xs)
  show ?case
  proof (cases "x = c")
    case True
    then show ?thesis using Cons.prems by (simp add: first_hit_def hits_def)
  next
    case False
    have "first_hit m (s + 1) c (length (takeWhile (\<lambda>b. b \<noteq> c) xs))" using Cons by simp
    then show ?thesis using False Cons.prems
      by (auto simp: first_hit_def hits_def less_Suc_eq_0_disj)
  qed
qed

lemma first_hit_eq:
  assumes "first_hit m p c n" "\<exists>b. m (p + k) = Some b \<and> hits c b" "\<forall>i<k. \<exists>b. m (p + i) = Some b \<and> \<not> hits c b"
  shows "n = k"
proof (cases n k rule: linorder_cases)
  case less
  then show ?thesis using assms by (force simp: first_hit_def)
next
  case greater
  then show ?thesis using assms by (force simp: first_hit_def)
qed

lemma first_hit_step:
  assumes "first_hit m p c n" "m p = Some b" "\<not> hits c b"
  obtains k where "n = Suc k" "first_hit m (p + 1) c k"
proof (cases n)
  case 0
  then show ?thesis using assms by (simp add: first_hit_def)
next
  case (Suc k)
  then show ?thesis using assms that by (fastforce simp: first_hit_def)
qed

lemma chrnul_align_first:
  "first_hit m p c n \<Longrightarrow>
    chrnul_align m p c = Some (Inl (p + n)) \<or>
    (\<exists>q k. chrnul_align m p c = Some (Inr q) \<and> q mod 4 = 0 \<and> first_hit m q c k \<and> q + k = p + n)"
proof (induction n arbitrary: p)
  case 0
  then show ?case by (subst (1 2) chrnul_align.simps) (auto simp: first_hit_def hits_def)
next
  case (Suc n)
  show ?case
  proof (cases "p mod 4 = 0")
    case True
    then show ?thesis using Suc.prems by (subst (1 2) chrnul_align.simps) auto
  next
    case False
    obtain b where b: "m p = Some b" "\<not> hits c b" using Suc.prems by (auto simp: first_hit_def)
    then have step: "chrnul_align m p c = chrnul_align m (p + 1) c"
      using False by (subst chrnul_align.simps) (simp add: hits_def)
    have "first_hit m (p + 1) c n" using first_hit_step [OF Suc.prems b] by auto
    from Suc.IH [OF this] show ?thesis unfolding step by simp
  qed
qed

lemma chrnul_words_first:
  assumes whole: "\<forall>p i. m p \<noteq> None \<and> i < 4 \<longrightarrow> m (4 * (p div 4) + i) \<noteq> None"
  shows "first_hit m p c n \<Longrightarrow> p mod 4 = 0 \<Longrightarrow> chrnul_words m p c (charmask_of c) = Some (p + n)"
proof (induction n arbitrary: p rule: less_induct)
  case (less n)
  have "m p \<noteq> None" using less.prems(1) by (cases n) (auto simp: first_hit_def)
  moreover have p4: "4 * (p div 4) = p" using less.prems(2) by auto
  ultimately have some: "m (p + i) \<noteq> None" if "i < 4" for i using whole that by fastforce
  obtain b0 b1 b2 b3 where b: "m p = Some b0" "m (p + 1) = Some b1" "m (p + 2) = Some b2" "m (p + 3) = Some b3"
    using some [of 0] some [of 1] some [of 2] some [of 3] by auto
  have b': "m (Suc p) = Some b1" "m (Suc (Suc p)) = Some b2" "m (Suc (Suc (Suc p))) = Some b3"
    using b by (simp_all add: numeral_2_eq_2 numeral_3_eq_3)
  have pos: "hits c b0 \<Longrightarrow> n = 0" "\<not> hits c b0 \<Longrightarrow> hits c b1 \<Longrightarrow> n = 1"
    "\<not> hits c b0 \<Longrightarrow> \<not> hits c b1 \<Longrightarrow> hits c b2 \<Longrightarrow> n = 2"
    "\<not> hits c b0 \<Longrightarrow> \<not> hits c b1 \<Longrightarrow> \<not> hits c b2 \<Longrightarrow> hits c b3 \<Longrightarrow> n = 3"
    using first_hit_eq [OF less.prems(1), of 0] first_hit_eq [OF less.prems(1), of 1]
      first_hit_eq [OF less.prems(1), of 2] first_hit_eq [OF less.prems(1), of 3]
    by (auto simp: b b' less_Suc_eq numeral_2_eq_2 numeral_3_eq_3)
  have skip: "chrnul_words m (p + 4) c (charmask_of c) = Some (p + n)"
    if no: "\<not> hits c b0" "\<not> hits c b1" "\<not> hits c b2" "\<not> hits c b3"
  proof -
    obtain k1 where k1: "n = Suc k1" "first_hit m (p + 1) c k1"
      using first_hit_step [OF less.prems(1) b(1) no(1)] .
    obtain k2 where k2: "k1 = Suc k2" "first_hit m (p + 2) c k2"
      using first_hit_step [OF k1(2) b(2) no(2)] by auto
    obtain k3 where k3: "k2 = Suc k3" "first_hit m (p + 3) c k3"
      using first_hit_step [OF k2(2) b(3) no(3)] by (auto simp: numeral_3_eq_3)
    obtain k4 where k4: "k3 = Suc k4" "first_hit m (p + 4) c k4"
      using first_hit_step [OF k3(2) b(4) no(4)] by (auto simp: eval_nat_numeral)
    show ?thesis using less.IH [of k4 "p + 4"] k1 k2 k3 k4 less.prems(2) by simp
  qed
  show ?case
  proof (cases "hole_test (word4 b0 b1 b2 b3) \<or> hole_test (word4 b0 b1 b2 b3 XOR charmask_of c)")
    case False
    then show ?thesis
      using skip no_hole_no_hit [of b0 b1 b2 b3 c] by (subst chrnul_words.simps) (simp add: rd32_def b b')
  next
    case True
    have "chrnul_words m p c (charmask_of c) =
       (if hits c b0 then Some p else if hits c b1 then Some (p + 1) else if hits c b2 then Some (p + 2)
        else if hits c b3 then Some (p + 3) else chrnul_words m (p + 4) c (charmask_of c))"
      using True by (subst chrnul_words.simps) (simp add: rd32_def b b' hits_def)
    also have "\<dots> = Some (p + n)"
      using skip pos by auto
    finally show ?thesis .
  qed
qed

text \<open>C21. The search a word at a time finds what a search byte by byte finds: in memory that is
  mapped in whole words, \<open>__strchrnul\<close> returns the address of the first occurrence of the
  character in the string, or that of the terminating zero.\<close>

theorem strchrnul_bytewise:
  assumes "cstr m s xs" "\<forall>p i. m p \<noteq> None \<and> i < 4 \<longrightarrow> m (4 * (p div 4) + i) \<noteq> None"
  shows "strchrnul m s c = Some (s + length (takeWhile (\<lambda>b. b \<noteq> word_of_int c) xs))"
proof -
  let ?c = "word_of_int c"
  have "first_hit m s ?c (length (takeWhile (\<lambda>b. b \<noteq> ?c) xs))" using cstr_first_hit [OF assms(1)] .
  from chrnul_align_first [OF this] chrnul_words_first [OF assms(2)] show ?thesis
    by (auto simp: strchrnul_def Let_def)
qed

theorem strchrnul_bytewise_witness:
  "strchrnul (store (\<lambda>_. Some 7) 21 [98, 97, 128, 97, 110, 47, 97, 0]) 21 47 = Some 26"
proof -
  let ?m = "store (\<lambda>_. Some 7) 21 [98, 97, 128, 97, 110, 47, 97, 0]"
  have "cstr ?m 21 [98, 97, 128, 97, 110, 47, 97]" by simp
  moreover have "\<forall>p i. ?m p \<noteq> None \<and> i < 4 \<longrightarrow> ?m (4 * (p div 4) + i) \<noteq> None" by simp
  ultimately have "strchrnul ?m 21 47 = Some (21 + length (takeWhile (\<lambda>b. b \<noteq> word_of_int 47) [98, 97, 128, 97, 110, 47, 97 :: byte]))"
    by (rule strchrnul_bytewise)
  then show ?thesis by simp
qed

end
