(* ===== verification/KStdio.thy ===== *)
theory KStdio
  imports CString
begin

unbundle bit_operations_syntax

text \<open>
  Formatted output of the kernel, \<^verbatim>\<open>src/microkernel/kernel/kernel_stdio.c\<close>:
  \<open>ctrl_to_str\<close>, \<open>vsprintf\<close>, \<open>kprintf\<close> and the log buffer. The format, the arguments and the
  buffers are in byte-addressed memory, because \<^verbatim>\<open>va_arg\<close> of
  \<^verbatim>\<open>include/stdarg.h\<close> moves the argument pointer by the size of the type asked for.
\<close>

definition KFMT_SIGNED :: u32 where "KFMT_SIGNED = 32"
definition KFMT_CASE :: u32 where "KFMT_CASE = 64"
definition LOGBUFSIZE :: nat where "LOGBUFSIZE = 4096"

definition lower_digits :: "byte list" where
  "lower_digits = [48, 49, 50, 51, 52, 53, 54, 55, 56, 57, 97, 98, 99, 100, 101, 102, 0]"

definition upper_digits :: "byte list" where
  "upper_digits = [48, 49, 50, 51, 52, 53, 54, 55, 56, 57, 65, 66, 67, 68, 69, 70, 0]"

text \<open>
  The digits are collected from the last to the first in the array \<open>tmps\<close> of 36 bytes. The test
  for a negative number compares an unsigned number that is 0 by then, so that no sign is written.
\<close>

partial_function (option) digit_loop :: "byte list \<Rightarrow> u32 \<Rightarrow> u32 \<Rightarrow> byte list \<Rightarrow> byte list option" where
  "digit_loop digits base num tmps =
     (if num \<noteq> 0 then do {
        check (base \<noteq> 0);
        d \<leftarrow> aget digits (unat (num mod base));
        check (length tmps < 36);
        digit_loop digits base (num div base) (tmps @ [d])
      }
      else Some tmps)"

fun copy_back :: "byte list \<Rightarrow> nat \<Rightarrow> bmem \<Rightarrow> bmem option" where
  "copy_back [] buff m = Some m"
| "copy_back (b # bs) buff m = do { m \<leftarrow> put m buff b; copy_back bs (buff + 1) m }"

definition ctrl_to_str :: "nat \<Rightarrow> u32 \<Rightarrow> u32 \<Rightarrow> u32 \<Rightarrow> bmem \<Rightarrow> (nat \<times> bmem) option" where
  "ctrl_to_str buff base flag num m = do {
     let digits = (if flag AND KFMT_CASE \<noteq> 0 then upper_digits else lower_digits);
     tmps \<leftarrow> digit_loop digits base num (if num = 0 then [48] else []);
     m \<leftarrow> copy_back (rev tmps) buff m;
     Some (length tmps, m)
   }"

section \<open>vsprintf\<close>

record vsp =
  vs_mem :: bmem
  vs_buff :: nat
  vs_ap :: nat
  vs_count :: nat
  vs_flag :: u32
  vs_qual :: byte

definition vs_put :: "byte \<Rightarrow> vsp \<Rightarrow> vsp option" where
  "vs_put b st = do {
     m \<leftarrow> put (vs_mem st) (vs_buff st) b;
     Some (st\<lparr>vs_mem := m, vs_buff := vs_buff st + 1, vs_count := vs_count st + 1\<rparr>)
   }"

definition va_byte :: "vsp \<Rightarrow> (byte \<times> vsp) option" where
  "va_byte st = do { b \<leftarrow> vs_mem st (vs_ap st); Some (b, st\<lparr>vs_ap := vs_ap st + 1\<rparr>) }"

definition va_word :: "vsp \<Rightarrow> (u32 \<times> vsp) option" where
  "va_word st = do { w \<leftarrow> rd32 (vs_mem st) (vs_ap st); Some (w, st\<lparr>vs_ap := vs_ap st + 4\<rparr>) }"

fun vs_lit :: "byte list \<Rightarrow> vsp \<Rightarrow> vsp option" where
  "vs_lit [] st = Some st"
| "vs_lit (b # bs) st = do { st \<leftarrow> vs_put b st; vs_lit bs st }"

partial_function (option) vs_str :: "nat \<Rightarrow> vsp \<Rightarrow> vsp option" where
  "vs_str tmp st = do {
     b \<leftarrow> vs_mem st tmp;
     if b \<noteq> 0 then do { st \<leftarrow> vs_put b st; vs_str (tmp + 1) st } else Some st
   }"

definition vs_num :: "u32 \<Rightarrow> u32 \<Rightarrow> vsp \<Rightarrow> vsp option" where
  "vs_num base longn st = do {
     (ctrl, m) \<leftarrow> ctrl_to_str (vs_buff st) base (vs_flag st) longn (vs_mem st);
     Some (st\<lparr>vs_mem := m, vs_buff := vs_buff st + ctrl, vs_count := vs_count st + ctrl\<rparr>)
   }"

text \<open>
  The cases of the switch: \<^verbatim>\<open>c s % X x d u\<close>. A NULL string prints as
  \<^verbatim>\<open>(null)\<close>. A \<^verbatim>\<open>long long\<close> takes two words of the
  arguments and is cut to the first.
\<close>

definition vs_conv :: "byte \<Rightarrow> vsp \<Rightarrow> vsp option" where
  "vs_conv c st =
     (if c = 99 then do { (b, st) \<leftarrow> va_byte st; vs_put b st }
      else if c = 115 then do {
        (w, st) \<leftarrow> va_word st;
        if w = 0 then vs_lit [40, 110, 117, 108, 108, 41] st else vs_str (unat w) st
      }
      else if c = 37 then vs_put 37 st
      else if c = 88 \<or> c = 120 then do {
        let st = (if c = 88 then st\<lparr>vs_flag := vs_flag st OR KFMT_CASE\<rparr> else st);
        (w, st) \<leftarrow> va_word st;
        vs_num 16 w st
      }
      else if c = 100 then do {
        (w, st) \<leftarrow> va_word st;
        let st = (if vs_qual st = 108 then st
                  else if vs_qual st = 76 then st\<lparr>vs_ap := vs_ap st + 4\<rparr>
                  else st\<lparr>vs_flag := vs_flag st OR KFMT_SIGNED\<rparr>);
        vs_num 10 w st
      }
      else if c = 117 then do { (w, st) \<leftarrow> va_word st; vs_num 10 w st }
      else Some st)"

partial_function (option) vs_loop :: "nat \<Rightarrow> nat \<Rightarrow> vsp \<Rightarrow> vsp option" where
  "vs_loop fmt index st = do {
     c \<leftarrow> vs_mem st (fmt + index);
     if c = 0 then Some st
     else if c \<noteq> 37 then do { st \<leftarrow> vs_put c st; vs_loop fmt (index + 1) st }
     else do {
       q \<leftarrow> vs_mem st (fmt + (index + 1));
       let index = (if q = 108 \<or> q = 76 then index + 2 else index + 1);
       let st = (if q = 108 \<or> q = 76 then st\<lparr>vs_qual := q\<rparr> else st);
       d \<leftarrow> vs_mem st (fmt + index);
       st \<leftarrow> vs_conv d st;
       vs_loop fmt (index + 1) st
     }
   }"

definition vsprintf :: "nat \<Rightarrow> nat \<Rightarrow> nat \<Rightarrow> bmem \<Rightarrow> (nat \<times> bmem) option" where
  "vsprintf buff fmt ap m = do {
     st \<leftarrow> vs_loop fmt 0 \<lparr>vs_mem = m, vs_buff = buff, vs_ap = ap, vs_count = 0, vs_flag = 0, vs_qual = 108\<rparr>;
     m \<leftarrow> put (vs_mem st) (vs_buff st) 0;
     Some (vs_count st, m)
   }"

section \<open>The kernel log\<close>

text \<open>\<open>kbuf\<close> and \<open>logbuf\<close> are the addresses of the two buffers, \<open>console\<close> what was written to
  the console.\<close>

record kio =
  kmem :: bmem
  kbuf :: nat
  logbuf :: nat
  log_end :: int
  console :: "byte list"

partial_function (option) string_at :: "bmem \<Rightarrow> nat \<Rightarrow> byte list option" where
  "string_at m p = do {
     b \<leftarrow> m p;
     if b = 0 then Some [] else do { bs \<leftarrow> string_at m (p + 1); Some (b # bs) }
   }"

definition kprintf :: "nat \<Rightarrow> nat \<Rightarrow> kio \<Rightarrow> (nat \<times> kio) option" where
  "kprintf format ap k = do {
     (ret, m) \<leftarrow> vsprintf (kbuf k) format ap (kmem k);
     out \<leftarrow> string_at m (kbuf k);
     let e = (if log_end k + int ret > int LOGBUFSIZE then 0 else log_end k);
     check (0 \<le> e);
     (_, m) \<leftarrow> memcpy (logbuf k + nat e) (kbuf k) ret m;
     Some (ret, k\<lparr>kmem := m, log_end := e, console := console k @ out\<rparr>)
   }"

text \<open>
  \<open>log_fmt\<close> is the address of the string literal \<^verbatim>\<open>logging\<close>; \<open>ker_to_usr\<close> copies
  from the kernel to a user address.
\<close>

definition syscall_log :: "(nat \<Rightarrow> nat \<Rightarrow> int \<Rightarrow> bmem \<Rightarrow> bmem option) \<Rightarrow> nat \<Rightarrow> nat \<Rightarrow> nat option \<Rightarrow> kio \<Rightarrow>
  (int \<times> kio) option" where
  "syscall_log ker_to_usr log_fmt ap data k = do {
     (_, k) \<leftarrow> kprintf log_fmt ap k;
     k \<leftarrow> (case data of
            None \<Rightarrow> Some k
          | Some d \<Rightarrow> do { m \<leftarrow> ker_to_usr d (logbuf k) (log_end k) (kmem k); Some (k\<lparr>kmem := m\<rparr>) });
     Some (log_end k, k\<lparr>log_end := 0\<rparr>)
   }"

section \<open>Numbers\<close>

definition digit_val :: "byte \<Rightarrow> nat" where
  "digit_val b = (if b \<le> 57 then unat b - 48 else if b \<le> 70 then unat b - 55 else unat b - 87)"

definition digits_val :: "nat \<Rightarrow> byte list \<Rightarrow> nat" where
  "digits_val base bs = foldl (\<lambda>n b. n * base + digit_val b) 0 bs"

lemma digits_val_append: "digits_val base (bs @ [b]) = digits_val base bs * base + digit_val b"
  by (simp add: digits_val_def)

lemma digit_val_table:
  assumes "digits = lower_digits \<or> digits = upper_digits" "n < 16"
  shows "digit_val (digits ! n) = n" "digits ! n = 48 \<Longrightarrow> n = 0" "digits ! n \<noteq> 0"
proof -
  have "n \<in> set [0..<16]" using assms(2) by simp
  then have "digit_val (digits ! n) = n \<and> (digits ! n = 48 \<longrightarrow> n = 0) \<and> digits ! n \<noteq> 0"
    using assms(1) by (auto simp: upt_rec digit_val_def lower_digits_def upper_digits_def)
  then show "digit_val (digits ! n) = n" "digits ! n = 48 \<Longrightarrow> n = 0" "digits ! n \<noteq> 0" by blast+
qed

lemma digit_loop_val:
  assumes tab: "digits = lower_digits \<or> digits = upper_digits" and b: "2 \<le> unat base" "unat base \<le> 16"
  shows "unat num < unat base ^ k \<Longrightarrow> length tmps + k \<le> 36 \<Longrightarrow>
    \<exists>ds. digit_loop digits base num tmps = Some (tmps @ ds) \<and> digits_val (unat base) (rev ds) = unat num \<and>
      length ds \<le> k \<and> (num = 0 \<longleftrightarrow> ds = []) \<and> (num \<noteq> 0 \<longrightarrow> last ds \<noteq> 48) \<and> 0 \<notin> set ds"
proof (induction k arbitrary: num tmps)
  case 0
  then have "num = 0" by (simp add: unat_eq_zero)
  then show ?case by (subst digit_loop.simps) (simp add: digits_val_def)
next
  case (Suc k)
  show ?case
  proof (cases "num = 0")
    case True
    then show ?thesis by (subst digit_loop.simps) (simp add: digits_val_def)
  next
    case False
    let ?n = "unat (num mod base)"
    have n: "?n = unat num mod unat base" by (rule unat_mod)
    then have n16: "?n < 16" using b mod_less_divisor [of "unat base" "unat num"] by linarith
    let ?d = "digits ! ?n"
    have len: "?n < length digits" using tab n16 by (auto simp: lower_digits_def upper_digits_def)
    have q: "unat (num div base) = unat num div unat base" by (rule unat_div)
    have "unat (num div base) < unat base ^ k"
      using Suc.prems(1) b unfolding q by (simp add: div_less_iff_less_mult mult.commute)
    moreover have "length (tmps @ [?d]) + k \<le> 36" using Suc.prems(2) by simp
    ultimately obtain ds where ds: "digit_loop digits base (num div base) (tmps @ [?d]) = Some ((tmps @ [?d]) @ ds)"
      "digits_val (unat base) (rev ds) = unat (num div base)" "length ds \<le> k"
      "num div base = 0 \<longleftrightarrow> ds = []" "num div base \<noteq> 0 \<longrightarrow> last ds \<noteq> 48" "0 \<notin> set ds"
      using Suc.IH by blast
    have "base \<noteq> 0" using b by (auto simp: unat_eq_zero)
    then have "digit_loop digits base num tmps = Some (tmps @ (?d # ds))"
      using False Suc.prems(2) len ds(1) by (subst digit_loop.simps) simp
    moreover have "digits_val (unat base) (rev (?d # ds)) = unat num"
      using ds(2) digit_val_table(1) [OF tab n16] q n by (simp add: digits_val_append)
    moreover have "last (?d # ds) \<noteq> 48"
    proof (cases "ds = []")
      case True
      have "?n \<noteq> 0"
      proof
        assume "?n = 0"
        moreover have "unat num div unat base = 0" using True ds(4) q by simp
        ultimately have "unat num = 0" using n div_mult_mod_eq [of "unat num" "unat base"] by simp
        then show False using False by (simp add: unat_eq_zero)
      qed
      then show ?thesis using True digit_val_table(2) [OF tab n16] by auto
    next
      case False
      then show ?thesis using ds(4,5) by simp
    qed
    ultimately show ?thesis
      using False ds(3,6) digit_val_table(3) [OF tab n16] by (intro exI [of _ "?d # ds"]) simp
  qed
qed

lemma copy_back_store: "mapped m buff (length bs) \<Longrightarrow> copy_back bs buff m = Some (store m buff bs)"
proof (induction bs arbitrary: buff m)
  case Nil
  then show ?case by simp
next
  case (Cons b bs)
  have "m buff \<noteq> None" "mapped (m(buff \<mapsto> b)) (buff + 1) (length bs)"
    using Cons.prems by (simp_all add: mapped_Suc mapped_upd)
  then show ?case using Cons.IH [of "m(buff \<mapsto> b)" "buff + 1"] by (simp flip: fun_upd_def)
qed

text \<open>C25. The number \<open>ctrl_to_str\<close> writes reads back as the number given: in every base from 2 to
  16 it writes at most 32 characters and nothing else, returns how many, starts with 0 only for
  the number 0, and the digits in that base have the unsigned value of the number. In particular
  a negative number given for \<^verbatim>\<open>%d\<close> is written as its unsigned value.\<close>

theorem ctrl_to_str_reads_back:
  assumes "2 \<le> unat base" "unat base \<le> 16" "mapped m buff 32"
  shows "\<exists>ds. ctrl_to_str buff base flag num m = Some (length ds, store m buff ds) \<and>
    digits_val (unat base) ds = unat num \<and> ds \<noteq> [] \<and> length ds \<le> 32 \<and>
    (hd ds = 48 \<longleftrightarrow> num = 0) \<and> 0 \<notin> set ds"
proof -
  let ?digits = "if flag AND KFMT_CASE \<noteq> 0 then upper_digits else lower_digits"
  let ?t = "if num = 0 then [48 :: byte] else []"
  have tab: "?digits = lower_digits \<or> ?digits = upper_digits" and room: "length ?t + 32 \<le> 36" by simp_all
  have "unat num < 2 ^ 32" using unsigned_less [of num] by simp
  also have "\<dots> \<le> unat base ^ 32" using assms(1) by (rule power_mono) simp
  finally have "unat num < unat base ^ 32" .
  then obtain ds where ds: "digit_loop ?digits base num ?t = Some (?t @ ds)"
    "digits_val (unat base) (rev ds) = unat num" "length ds \<le> 32" "num = 0 \<longleftrightarrow> ds = []"
    "num \<noteq> 0 \<longrightarrow> last ds \<noteq> 48" "0 \<notin> set ds"
    using digit_loop_val [OF tab assms(1,2) _ room] by blast
  let ?r = "rev (?t @ ds)"
  have len: "length ?r \<le> 32" using ds(3,4) by auto
  then have "mapped m buff (length ?r)" using assms(3) by (auto simp: mapped_def)
  then have "ctrl_to_str buff base flag num m = Some (length ?r, store m buff ?r)"
    using ds(1) copy_back_store by (simp add: ctrl_to_str_def Let_def)
  moreover have "digits_val (unat base) ?r = unat num" "?r \<noteq> []" "hd ?r = 48 \<longleftrightarrow> num = 0" "0 \<notin> set ?r"
    using ds(2,4-6) by (cases "num = 0"; simp add: digits_val_def digit_val_def hd_rev)+
  ultimately show ?thesis using len by blast
qed

theorem ctrl_to_str_reads_back_witness:
  "\<exists>ds. ctrl_to_str 100 10 0 4096 (store Map.empty 100 (replicate 32 0)) =
    Some (length ds, store (store Map.empty 100 (replicate 32 0)) 100 ds) \<and> digits_val 10 ds = 4096 \<and> hd ds \<noteq> 48"
proof -
  have "mapped (store Map.empty 100 (replicate 32 0)) 100 32"
    using block_mapped [OF block_store, of Map.empty 100 "replicate 32 0"] by simp
  from ctrl_to_str_reads_back [of 10 _ 100 0 4096, OF _ _ this] show ?thesis by auto
qed

section \<open>The log buffer\<close>

text \<open>\<open>kprintf\<close> copies to the log but does not move its end, so that \<open>syscall_log\<close> always
  returns that the log is empty.\<close>

lemma kprintf_log_end: "log_end k = 0 \<Longrightarrow> kprintf fmt ap k = Some (r, k') \<Longrightarrow> log_end k' = 0"
  by (auto simp: kprintf_def bind_Some Let_def split: prod.splits if_splits)

lemma syscall_log_empty:
  assumes "log_end k = 0" "syscall_log ker_to_usr fmt ap data k = Some (n, k')"
  shows "n = 0"
proof -
  obtain r k1 where k1: "kprintf fmt ap k = Some (r, k1)"
    using assms(2) by (auto simp: syscall_log_def bind_Some)
  show ?thesis
    using assms(2) kprintf_log_end [OF assms(1) k1] by (cases data) (auto simp: syscall_log_def k1 bind_Some)
qed

end
