(* ===== verification/KSync.thy ===== *)
theory KSync
  imports KThread
begin

text \<open>
  Synchronisation objects (\<^verbatim>\<open>kernel/sync.c\<close>): wait queues that a process creates and
  finds by its pid and a number. Locking an object always sleeps in its queue, unlocking wakes
  the thread that slept longest. The memory of a new object is an argument, as in
  \<^theory_text>\<open>KThread\<close>.
\<close>

record sync_t =
  sync_type :: int
  sync_id :: int
  wq :: "addr list"
  sy_owner :: int

record syncstate = kstate +
  sobjs :: "addr \<Rightarrow> sync_t option"
  shash :: htab

definition upd_sync :: "addr \<Rightarrow> (sync_t \<Rightarrow> sync_t) \<Rightarrow> 'z syncstate_scheme \<Rightarrow> 'z syncstate_scheme" where
  "upd_sync a f s = s\<lparr>sobjs := (sobjs s)(a := map_option f (sobjs s a))\<rparr>"

section \<open>The table of objects\<close>

definition sync_key :: "'z syncstate_scheme \<Rightarrow> addr \<Rightarrow> (int \<times> int) option" where
  "sync_key s a = map_option (\<lambda>o'. (sy_owner o', sync_id o')) (sobjs s a)"

text \<open>The bucket number is not reduced to the size of the table; outside it there is no result.\<close>

definition sync_fn :: "int \<Rightarrow> int \<Rightarrow> int" where
  "sync_fn owner idn = owner * idn"

definition shash_index :: "int \<Rightarrow> int \<Rightarrow> nat option" where
  "shash_index owner idn = do { check (0 \<le> sync_fn owner idn); Some (nat (sync_fn owner idn)) }"

definition shash_insert :: "addr \<Rightarrow> 'z syncstate_scheme \<Rightarrow> 'z syncstate_scheme option" where
  "shash_insert sn s = do {
     o' \<leftarrow> sobjs s sn;
     i \<leftarrow> shash_index (sy_owner o') (sync_id o');
     h \<leftarrow> hash_insert i sn (shash s);
     Some (s\<lparr>shash := h\<rparr>)
   }"

text \<open>
  The loop of \<open>shash_remove\<close> reads \<open>link->next\<close> also when \<open>link\<close> has just become the
  null pointer. \<open>key\<close> gives the owner and the number of an object.
\<close>

partial_function (option) shash_remove_walk :: "(addr \<Rightarrow> (int \<times> int) option) \<Rightarrow> addr \<Rightarrow> int \<times> int \<Rightarrow>
  addr option \<Rightarrow> (addr \<Rightarrow> addr option) \<Rightarrow> (addr \<Rightarrow> addr option) option" where
  "shash_remove_walk key sn k link nx = do {
     a \<leftarrow> link;
     case nx a of
       None \<Rightarrow> Some nx
     | Some b \<Rightarrow> do {
         kb \<leftarrow> key b;
         let nx = (if fst kb = fst k \<and> snd kb = snd k then nx(a := nx sn) else nx);
         shash_remove_walk key sn k (nx a) nx
       }
   }"

text \<open>When the object is the first of its bucket, only a local variable is changed.\<close>

definition shash_remove :: "addr \<Rightarrow> 'z syncstate_scheme \<Rightarrow> 'z syncstate_scheme option" where
  "shash_remove sn s = do {
     (owner, idn) \<leftarrow> sync_key s sn;
     i \<leftarrow> shash_index owner idn;
     first \<leftarrow> aget (heads (shash s)) i;
     p \<leftarrow> first;
     (powner, pidn) \<leftarrow> sync_key s p;
     if powner = owner \<and> pidn = idn then Some s
     else do {
       nx \<leftarrow> shash_remove_walk (sync_key s) sn (owner, idn) first (links (shash s));
       Some (s\<lparr>shash := (shash s)\<lparr>links := nx\<rparr>\<rparr>)
     }
   }"

text \<open>The loop goes on only while both the owner and the number differ.\<close>

partial_function (option) find_sync_walk :: "(addr \<Rightarrow> (int \<times> int) option) \<Rightarrow>
  (addr \<Rightarrow> addr option) \<Rightarrow> int \<Rightarrow> int \<Rightarrow> addr option \<Rightarrow> addr option option" where
  "find_sync_walk key nx p idn link = do {
     a \<leftarrow> link;
     ka \<leftarrow> key a;
     if fst ka \<noteq> p \<and> snd ka \<noteq> idn
     then (if nx a = None then Some None else find_sync_walk key nx p idn (nx a))
     else Some (Some a)
   }"

definition find_sync :: "int \<Rightarrow> int \<Rightarrow> 'z syncstate_scheme \<Rightarrow> addr option option" where
  "find_sync p idn s = do {
     i \<leftarrow> shash_index p idn;
     first \<leftarrow> aget (heads (shash s)) i;
     a \<leftarrow> first;
     ka \<leftarrow> sync_key s a;
     if fst ka = p \<and> snd ka = idn then Some (Some a)
     else find_sync_walk (sync_key s) (links (shash s)) p idn (links (shash s) a)
   }"

definition sync_init :: "'z syncstate_scheme \<Rightarrow> 'z syncstate_scheme" where
  "sync_init s = s\<lparr>shash := htab_empty\<rparr>"

section \<open>System calls\<close>

definition syscall_sync_create :: "(addr \<times> sync_t) option \<Rightarrow> int \<Rightarrow> 'z syncstate_scheme \<Rightarrow>
  (int \<times> 'z syncstate_scheme) option" where
  "syscall_sync_create mem type s =
     (case mem of
        None \<Rightarrow> Some (- ENOMEM, s)
      | Some (sn, o0) \<Rightarrow> do {
          th \<leftarrow> cur_thread s;
          p \<leftarrow> procs s (t_proc th);
          let n = sync_next p;
          let s = upd_proc (t_proc th) (\<lambda>p. p\<lparr>sync_next := n + 1\<rparr>)
            (s\<lparr>sobjs := (sobjs s)(sn \<mapsto> \<lparr>sync_type = type, sync_id = n, wq = [], sy_owner = pid p\<rparr>)\<rparr>);
          s \<leftarrow> shash_insert sn (s\<lparr>shash := (shash s)\<lparr>links := (links (shash s))(sn := None)\<rparr>\<rparr>);
          l \<leftarrow> ll_add sn (syncs p);
          Some (n, upd_proc (t_proc th) (\<lambda>p. p\<lparr>syncs := l\<rparr>) s)
        })"

definition syscall_sync_destroy :: "int \<Rightarrow> 'z syncstate_scheme \<Rightarrow> (int \<times> 'z syncstate_scheme) option" where
  "syscall_sync_destroy idn s = do {
     th \<leftarrow> cur_thread s;
     p \<leftarrow> procs s (t_proc th);
     r \<leftarrow> find_sync (pid p) idn s;
     case r of
       None \<Rightarrow> Some (- EINVAL, s)
     | Some sn \<Rightarrow> do {
         l \<leftarrow> ll_del sn (syncs p);
         s \<leftarrow> shash_remove sn (upd_proc (t_proc th) (\<lambda>p. p\<lparr>syncs := l\<rparr>) s);
         Some (0, s\<lparr>sobjs := (sobjs s)(sn := None)\<rparr>)
       }
   }"

definition syscall_sync_lock :: "int \<Rightarrow> 'z syncstate_scheme \<Rightarrow> (int \<times> 'z syncstate_scheme) option" where
  "syscall_sync_lock idn s = do {
     let thr = current s;
     th \<leftarrow> cur_thread s;
     p \<leftarrow> procs s (t_proc th);
     r \<leftarrow> find_sync (pid p) idn s;
     case r of
       None \<Rightarrow> Some (- EINVAL, s)
     | Some sn \<Rightarrow> do {
         s \<leftarrow> remove_thread thr (upd_thread thr (\<lambda>th. th\<lparr>states := SYNC_BLOCKED\<rparr>) s);
         o' \<leftarrow> sobjs s sn;
         l \<leftarrow> ll_enqueue thr (wq o');
         s \<leftarrow> schedule (upd_sync sn (\<lambda>o'. o'\<lparr>wq := l\<rparr>) s);
         Some (0, s)
       }
   }"

definition syscall_sync_unlock :: "int \<Rightarrow> 'z syncstate_scheme \<Rightarrow> (int \<times> 'z syncstate_scheme) option" where
  "syscall_sync_unlock idn s = do {
     th \<leftarrow> cur_thread s;
     p \<leftarrow> procs s (t_proc th);
     r \<leftarrow> find_sync (pid p) idn s;
     case r of
       None \<Rightarrow> Some (- EINVAL, s)
     | Some sn \<Rightarrow> do {
         o' \<leftarrow> sobjs s sn;
         (thr, l) \<leftarrow> ll_dequeue (wq o');
         s \<leftarrow> enqueue_thread thr (upd_thread thr (\<lambda>th. th\<lparr>states := THREAD_RUNNING\<rparr>)
                (upd_sync sn (\<lambda>o'. o'\<lparr>wq := l\<rparr>) s));
         Some (0, s)
       }
   }"

partial_function (option) delete_sync :: "addr \<Rightarrow> 'z syncstate_scheme \<Rightarrow> 'z syncstate_scheme option" where
  "delete_sync process s = do {
     p \<leftarrow> procs s process;
     if syncs p = [] then Some s
     else do {
       (sn, l) \<leftarrow> ll_dequeue (syncs p);
       s \<leftarrow> shash_remove sn (upd_proc process (\<lambda>p. p\<lparr>syncs := l\<rparr>) s);
       delete_sync process (s\<lparr>sobjs := (sobjs s)(sn := None)\<rparr>)
     }
   }"

section \<open>Lemmas\<close>

lemma sync_simps [simp]:
  "sobjs (upd_thread t f s) = sobjs s" "shash (upd_thread t f s) = shash s"
  "sobjs (upd_proc p g s) = sobjs s" "shash (upd_proc p g s) = shash s"
  by (simp_all add: upd_thread_def upd_proc_def)

lemma upd_sync_simps [simp]:
  "sobjs (upd_sync a f s) = (sobjs s)(a := map_option f (sobjs s a))"
  "shash (upd_sync a f s) = shash s" "threads (upd_sync a f s) = threads s"
  "procs (upd_sync a f s) = procs s" "rq (upd_sync a f s) = rq s"
  "current (upd_sync a f s) = current s" "init_thread (upd_sync a f s) = init_thread s"
  by (simp_all add: upd_sync_def)

lemma rq_inv_upd_sync [simp]: "rq_inv (upd_sync a f s) \<longleftrightarrow> rq_inv s"
  by (simp add: rq_inv_def)

text \<open>Looking an object up depends only on the table and on the keys of the objects.\<close>

lemma find_sync_cong:
  "shash s' = shash s \<Longrightarrow> sync_key s' = sync_key s \<Longrightarrow> find_sync p idn s' = find_sync p idn s"
  by (simp only: find_sync_def)

lemma sync_key_simps [simp]:
  "sync_key (upd_thread t f s) = sync_key s" "sync_key (s\<lparr>rq := R\<rparr>) = sync_key s"
  "sync_key (s\<lparr>current := c\<rparr>) = sync_key s"
  "sync_key (upd_sync a (\<lambda>o'. o'\<lparr>wq := l\<rparr>) s) = sync_key s"
  by (auto simp: sync_key_def fun_eq_iff option.map_comp comp_def)

lemma enqueue_thread_ok:
  assumes "rq_inv s" "threads s t = Some th" "0 \<le> priority_dyn th" "priority_dyn th \<le> PRIO_RT_MAX"
    "\<not> on_runq t s"
  obtains R where "enqueue_thread t s = Some (s\<lparr>rq := R\<rparr>)" "rq_inv (s\<lparr>rq := R\<rparr>)" "queued R t"
proof -
  obtain i where i: "PRIOQ (priority_dyn th) = int i" "i < 32"
    using assms(3,4) by (intro that [of "nat (PRIOQ (priority_dyn th))"])
      (auto simp: PRIOQ_nonneg PRIO_RT_MAX_def)
  obtain R where R: "enqueue_thread t s = Some (s\<lparr>rq := R\<rparr>)"
    "run R = (run (rq s))[i := t # run (rq s) ! i]"
    using enqueue_thread_Some [OF assms(1,2) i assms(5)] by auto
  moreover have "rq_inv (s\<lparr>rq := R\<rparr>)" using enqueue_thread_inv [OF assms(1) R(1)] .
  moreover have "queued R t"
    unfolding queued_iff using R(2) i(2) rq_invD(1) [OF assms(1)] by (intro exI [of _ i]) auto
  ultimately show ?thesis using that by blast
qed

text \<open>A process with object 0, of which thread 1 is running and thread 2 is queued.\<close>

definition sync_ex :: syncstate where
  "sync_ex = kstate.extend (thread_ex\<lparr>procs := [7 \<mapsto> process0\<lparr>pid := 500, syncs := [64]\<rparr>]\<rparr>)
     (syncstate.fields [64 \<mapsto> \<lparr>sync_type = 0, sync_id = 0, wq = [], sy_owner = 500\<rparr>]
        \<lparr>heads = (replicate NWORDS None)[0 := Some 64], links = Map.empty\<rparr>)"

lemma sync_ex_props:
  "rq sync_ex = rq thread_ex" "threads sync_ex = threads thread_ex" "current sync_ex = 1"
  "procs sync_ex 7 = Some (process0\<lparr>pid := 500, syncs := [64]\<rparr>)"
  "sobjs sync_ex 64 = Some \<lparr>sync_type = 0, sync_id = 0, wq = [], sy_owner = 500\<rparr>"
  "rq_inv sync_ex" "find_sync 500 0 sync_ex = Some (Some 64)"
proof -
  show rq: "rq sync_ex = rq thread_ex" "threads sync_ex = threads thread_ex"
    by (simp_all add: sync_ex_def kstate.defs syncstate.defs)
  then show "rq_inv sync_ex" using thread_ex_rq(1) by (simp add: rq_inv_def)
  show "find_sync 500 0 sync_ex = Some (Some 64)"
    by (simp add: find_sync_def sync_ex_def kstate.defs syncstate.defs shash_index_def sync_fn_def
        sync_key_def NWORDS_def)
qed (simp_all add: sync_ex_def kstate.defs syncstate.defs thread_ex_def sched_ex_def)

section \<open>Properties\<close>

text \<open>C32. Locking an object puts the running thread to sleep at the young end of the wait queue,
  off the run queue; when another thread of the process then unlocks the object, the thread that
  has slept longest (the locker itself if the queue was empty) is taken out of the wait queue,
  made running and put back in the run queue, which stays consistent throughout.\<close>

theorem sync_lock_then_unlock:
  assumes "rq_inv s" "threads s (current s) = Some cth" "on_runq (current s) s"
    "procs s (t_proc cth) = Some p" "find_sync (pid p) idn s = Some (Some sn)"
    "sobjs s sn = Some ob" "current s \<notin> set (wq ob)"
    "threads s d = Some dth" "t_proc dth = t_proc cth" "w = last (current s # wq ob)"
    "w \<noteq> current s \<longrightarrow> \<not> on_runq w s" "threads s w = Some wth"
    "0 \<le> priority_dyn wth" "priority_dyn wth \<le> PRIO_RT_MAX"
  shows "\<exists>s1 s2 x. syscall_sync_lock idn s = Some (0, s1) \<and> \<not> on_runq (current s) s1 \<and> rq_inv s1 \<and>
    sobjs s1 sn = Some (ob\<lparr>wq := current s # wq ob\<rparr>) \<and>
    syscall_sync_unlock idn (s1\<lparr>current := d\<rparr>) = Some (0, s2) \<and> rq_inv s2 \<and> on_runq w s2 \<and>
    threads s2 w = Some x \<and> states x = THREAD_RUNNING \<and>
    sobjs s2 sn = Some (ob\<lparr>wq := butlast (current s # wq ob)\<rparr>)"
proof -
  let ?c = "current s"
  let ?a = "upd_thread ?c (\<lambda>th. th\<lparr>states := SYNC_BLOCKED\<rparr>) s"
  have "rq_inv ?a" "on_runq ?c ?a" using assms(1,3) by simp_all
  then obtain R where R: "remove_thread ?c ?a = Some (?a\<lparr>rq := R\<rparr>)" "rq_inv (?a\<lparr>rq := R\<rparr>)"
    "\<And>u. queued R u \<longleftrightarrow> u \<noteq> ?c \<and> on_runq u s"
    using remove_thread_ok [of ?a ?c] by auto
  let ?b = "upd_sync sn (\<lambda>o'. o'\<lparr>wq := ?c # wq ob\<rparr>) (?a\<lparr>rq := R\<rparr>)"
  have "rq_inv ?b" using R(2) by simp
  then obtain new where new: "schedule ?b =
      Some (upd_thread new (\<lambda>th. th\<lparr>schedule_flag := 0\<rparr>) (?b\<lparr>current := new\<rparr>))"
    using schedule_ok by blast
  let ?s1 = "upd_thread new (\<lambda>th. th\<lparr>schedule_flag := 0\<rparr>) (?b\<lparr>current := new\<rparr>)"
  have lock: "syscall_sync_lock idn s = Some (0, ?s1)"
    using assms(2,4-7) R(1) new by (simp add: syscall_sync_lock_def cur_thread_def Let_def ll_enqueue_def)
  let ?e = "upd_thread w (\<lambda>th. th\<lparr>states := THREAD_RUNNING\<rparr>)
    (upd_sync sn (\<lambda>o'. o'\<lparr>wq := butlast (?c # wq ob)\<rparr>) (?s1\<lparr>current := d\<rparr>))"
  have e: "rq_inv ?e" "\<not> on_runq w ?e" using R(2,3) assms(11) by auto
  obtain y where y: "threads ?e w = Some y" "priority_dyn y = priority_dyn wth"
    "states y = THREAD_RUNNING"
    using assms(12) by (cases "new = w"; cases "w = ?c") simp_all
  obtain R' where R': "enqueue_thread w ?e = Some (?e\<lparr>rq := R'\<rparr>)" "rq_inv (?e\<lparr>rq := R'\<rparr>)" "queued R' w"
    using enqueue_thread_ok [OF e(1) y(1)] e(2) assms(13,14) y(2) by auto
  have "find_sync (pid p) idn (?s1\<lparr>current := d\<rparr>) = Some (Some sn)"
    using assms(5) by (subst find_sync_cong [of _ s]) simp_all
  moreover obtain x where "threads ?s1 d = Some x" "t_proc x = t_proc cth"
    using assms(8,9) by (cases "new = d"; cases "d = ?c") simp_all
  ultimately have "syscall_sync_unlock idn (?s1\<lparr>current := d\<rparr>) = Some (0, ?e\<lparr>rq := R'\<rparr>)"
    using assms(4,6,10) R'(1) by (simp add: syscall_sync_unlock_def cur_thread_def ll_dequeue_def)
  then show ?thesis
    using lock R(2,3) R' y assms(6)
    by (intro exI [of _ ?s1] exI [of _ "?e\<lparr>rq := R'\<rparr>"] exI [of _ y]) simp
qed

theorem sync_lock_then_unlock_witness:
  "\<exists>s1 s2. syscall_sync_lock 0 sync_ex = Some (0, s1) \<and> \<not> on_runq 1 s1 \<and>
    syscall_sync_unlock 0 (s1\<lparr>current := 2\<rparr>) = Some (0, s2) \<and> on_runq 1 s2"
proof -
  let ?t = "\<lambda>n. thread0\<lparr>tid := n, t_proc := 7, priority_stat := 40, priority_dyn := 40\<rparr>"
  have "threads sync_ex 1 = Some (?t 500)" "threads sync_ex 2 = Some (?t 501)"
    "on_runq 1 sync_ex" "PRIO_RT_MAX = 127"
    using thread_ex_rq(2) by (simp_all add: sync_ex_props thread_ex_def PRIO_RT_MAX_def)
  then show ?thesis
    using sync_lock_then_unlock [OF sync_ex_props(6), where idn = 0 and d = 2 and sn = 64 and
        cth = "?t 500" and dth = "?t 501" and w = 1 and wth = "?t 500" and
        ob = "\<lparr>sync_type = 0, sync_id = 0, wq = [], sy_owner = 500\<rparr>" and
        p = "process0\<lparr>pid := 500, syncs := [64]\<rparr>"] sync_ex_props
    by auto
qed

text \<open>\<open>find_sync\<close> can return an object of another process. Number 0 puts the objects of all
  processes in one bucket, and behind the first object the search stops at any object with the
  number looked for: with the object of a second process first in the bucket and that of a third
  one behind it, looking for the object 0 of any other process finds that of the third.\<close>

theorem find_sync_wrong_owner:
  assumes "heads (shash s) ! 0 = Some a" "length (heads (shash s)) = NWORDS"
    "links (shash s) a = Some b" "sync_key s a = Some (pa, 0)" "sync_key s b = Some (pb, 0)"
    "p \<noteq> pa" "p \<noteq> pb"
  shows "find_sync p 0 s = Some (Some b)"
  using assms
  by (simp add: find_sync_def shash_index_def sync_fn_def NWORDS_def find_sync_walk.simps)

theorem find_sync_wrong_owner_witness:
  "find_sync 500 0 (sync_ex\<lparr>sobjs := (\<lambda>_. Some \<lparr>sync_type = 0, sync_id = 0, wq = [], sy_owner = 501\<rparr>),
     shash := \<lparr>heads = (replicate NWORDS None)[0 := Some 1], links = [1 \<mapsto> 2, 2 \<mapsto> 3]\<rparr>\<rparr>) = Some (Some 2)"
  by (rule find_sync_wrong_owner [where a = 1 and pa = 501 and pb = 501]) (simp_all add: sync_key_def NWORDS_def)

text \<open>The number of the third and every later object of a user process leaves the table.\<close>

lemma sync_create_outside_table:
  assumes "threads s (current s) = Some th" "procs s (t_proc th) = Some p" "500 \<le> pid p"
    "3 \<le> sync_next p" "length (heads (shash s)) = NWORDS"
  shows "syscall_sync_create (Some m) ty s = None"
proof -
  have "1500 \<le> pid p * sync_next p" using mult_mono [of 500 "pid p" 3 "sync_next p"] assms(3,4) by simp
  then have "NWORDS \<le> nat (pid p * sync_next p)" by (simp add: NWORDS_def)
  then show ?thesis
    using assms(1,2,5) by (simp add: syscall_sync_create_def cur_thread_def shash_insert_def
        shash_index_def sync_fn_def hash_insert_def aget_def check_def Let_def split: prod.splits)
qed

end
