(* ===== verification/Ipc.thy ===== *)
theory Ipc
  imports KThread
begin

text \<open>
  Message passing (\<^verbatim>\<open>kernel/message.c\<close>). A sender queues itself at the receiver and
  sleeps; the receiver takes the message that has waited longest; a reply overwrites the
  message of the sleeping sender and wakes it.

  A function that sleeps is split at its call of \<open>schedule\<close>: \<open>Blocked\<close> is the outcome up
  to the switch. \<open>send_resume\<close> is the rest of \<open>send_message\<close>, run when the sender is
  current again; a blocked receiver starts \<open>receive_message\<close> over.

  Sharing memory between the address spaces of sender and receiver (\<open>vm_share_addr\<close>) is the
  argument \<open>share\<close>: from the two maps, an address, a size and a protection it gives a return
  value, the address at the receiver and the new state.
\<close>

datatype 'a outcome = Ret 'a | Blocked

type_synonym 'z share_fn =
  "addr \<Rightarrow> addr \<Rightarrow> u32 \<Rightarrow> u32 \<Rightarrow> u32 \<Rightarrow> 'z kstate_scheme \<Rightarrow> (int \<times> u32 \<times> 'z kstate_scheme) option"

definition MSG_SHORT :: u16 where "MSG_SHORT = 1"
definition MSG_MAP_SEND :: u16 where "MSG_MAP_SEND = 4"
definition MSG_MAP_RECEIVE :: u16 where "MSG_MAP_RECEIVE = 8"
definition MSG_NOREPLY :: u16 where "MSG_NOREPLY = 0x20"

unbundle bit_operations_syntax

section \<open>Blocking\<close>

definition make_send_blocked :: "addr \<Rightarrow> 'z kstate_scheme \<Rightarrow> 'z kstate_scheme option" where
  "make_send_blocked thr s = do {
     s \<leftarrow> remove_thread thr (upd_thread thr (\<lambda>th. th\<lparr>states := SEND_BLOCKED\<rparr>) s);
     schedule s
   }"

definition make_reply_blocked :: "addr \<Rightarrow> 'z kstate_scheme \<Rightarrow> 'z kstate_scheme option" where
  "make_reply_blocked thr s = do {
     s \<leftarrow> remove_thread thr (upd_thread thr (\<lambda>th. th\<lparr>states := REPLY_BLOCKED\<rparr>) s);
     schedule s
   }"

definition make_receive_blocked :: "addr \<Rightarrow> 'z kstate_scheme \<Rightarrow> 'z kstate_scheme option" where
  "make_receive_blocked thr s = do {
     s \<leftarrow> remove_thread thr (upd_thread thr (\<lambda>th. th\<lparr>states := RECEIVE_BLOCKED\<rparr>) s);
     schedule s
   }"

section \<open>Transfer\<close>

definition transfer_msg :: "'z share_fn \<Rightarrow> addr \<Rightarrow> addr \<Rightarrow> 'z kstate_scheme \<Rightarrow>
  (int \<times> 'z kstate_scheme) option" where
  "transfer_msg share rcv sndr s = do {
     sth \<leftarrow> threads s sndr;
     rth \<leftarrow> threads s rcv;
     let flags = m_flags (msg sth);
     if flags AND MSG_SHORT \<noteq> 0 then Some (0, s)
     else if flags AND MSG_MAP_RECEIVE \<noteq> 0 then do {
       rp \<leftarrow> procs s (t_proc rth);
       sp \<leftarrow> procs s (t_proc sth);
       (ret, rcvptr, s) \<leftarrow> share (p_map rp) (p_map sp) (w4 (msg sth)) (w5 (msg sth))
         (PAGE_RW OR PAGE_USER) s;
       Some (ret, upd_thread sndr (\<lambda>th. th\<lparr>msg := (msg th)\<lparr>w4 := rcvptr\<rparr>\<rparr>) s)
     }
     else if flags AND MSG_MAP_SEND \<noteq> 0 then do {
       rp \<leftarrow> procs s (t_proc rth);
       sp \<leftarrow> procs s (t_proc sth);
       (ret, sndptr, s) \<leftarrow> share (p_map rp) (p_map sp) (w2 (msg sth)) (w3 (msg sth)) PAGE_USER s;
       Some (ret, upd_thread sndr (\<lambda>th. th\<lparr>msg := (msg th)\<lparr>w2 := sndptr\<rparr>\<rparr>) s)
     }
     else Some (0, s)
   }"

text \<open>The part that would unmap shared memory is commented out in the source.\<close>

definition unmap_message :: "addr \<Rightarrow> addr \<Rightarrow> message \<Rightarrow> 'z kstate_scheme \<Rightarrow>
  (int \<times> 'z kstate_scheme) option" where
  "unmap_message sndr rcv message s = do {
     rth \<leftarrow> threads s rcv;
     if m_flags message AND MSG_SHORT \<noteq> 0
     then Some (0, upd_thread rcv (\<lambda>th. th\<lparr>msg := message\<rparr>) s)
     else Some (0, s)
   }"

section \<open>Send, receive, reply\<close>

definition send_message :: "'z share_fn \<Rightarrow> int \<Rightarrow> message \<Rightarrow> 'z kstate_scheme \<Rightarrow>
  (int outcome \<times> 'z kstate_scheme) option" where
  "send_message share t mesg s = do {
     let sender = current s;
     r \<leftarrow> find_by_tid t s;
     case r of
       None \<Rightarrow> Some (Ret (- ESRCH), s)
     | Some r_thr \<Rightarrow> do {
         sth \<leftarrow> threads s sender;
         let s = upd_thread sender (\<lambda>th. th\<lparr>msg := mesg\<lparr>m_tid := tid th\<rparr>\<rparr>) s;
         rth \<leftarrow> threads s r_thr;
         q \<leftarrow> ll_enqueue sender (rcvq rth);
         let s = upd_thread r_thr (\<lambda>th. th\<lparr>rcvq := q\<rparr>) s;
         (ret, s) \<leftarrow> transfer_msg share r_thr sender s;
         if ret < 0 then Some (Ret (- ENOMEM), s)
         else do {
           rth \<leftarrow> threads s r_thr;
           s \<leftarrow> (if states rth AND RECEIVE_BLOCKED \<noteq> 0 then wakeup r_thr s else Some s);
           s \<leftarrow> make_send_blocked sender s;
           Some (Blocked, s)
         }
       }
   }"

definition send_resume :: "addr \<Rightarrow> 'z kstate_scheme \<Rightarrow> (int \<times> message) option" where
  "send_resume sender s = do {
     th \<leftarrow> threads s sender;
     Some (sint (w1 (msg th)), msg th)
   }"

definition receive_message :: "'z kstate_scheme \<Rightarrow>
  ((int \<times> message) outcome \<times> 'z kstate_scheme) option" where
  "receive_message s = do {
     let rcv = current s;
     rth \<leftarrow> threads s rcv;
     if rcvq rth = [] then do {
       s \<leftarrow> make_receive_blocked rcv s;
       Some (Blocked, s)
     } else do {
       (sndr, q) \<leftarrow> ll_dequeue (rcvq rth);
       let s = upd_thread rcv (\<lambda>th. th\<lparr>rcvq := q\<rparr>) s;
       sth \<leftarrow> threads s sndr;
       if m_flags (msg sth) AND MSG_NOREPLY \<noteq> 0 then do {
         s \<leftarrow> wakeup sndr s;
         Some (Ret (0, msg sth), s)
       } else
         Some (Ret (tid sth, msg sth), upd_thread sndr (\<lambda>th. th\<lparr>states := REPLY_BLOCKED\<rparr>) s)
     }
   }"

definition reply_message :: "int \<Rightarrow> message \<Rightarrow> 'z kstate_scheme \<Rightarrow> (int \<times> 'z kstate_scheme) option" where
  "reply_message t m s = do {
     let sndr = current s;
     r \<leftarrow> find_by_tid t s;
     case r of
       None \<Rightarrow> Some (- ESRCH, s)
     | Some wait \<Rightarrow> do {
         wth \<leftarrow> threads s wait;
         if states wth AND REPLY_BLOCKED = 0 then Some (- ESRCH, s)
         else do {
           (ret, s) \<leftarrow> unmap_message sndr wait m (upd_thread wait (\<lambda>th. th\<lparr>msg := m\<rparr>) s);
           s \<leftarrow> wakeup wait s;
           Some (ret, s)
         }
       }
   }"

section \<open>Lemmas\<close>

lemma tid_at_current [simp]: "tid_at (s\<lparr>current := c\<rparr>) = tid_at s"
  by (simp add: tid_at_def fun_eq_iff)

lemma thread_inv_current [simp]: "thread_inv (s\<lparr>current := c\<rparr>) B \<longleftrightarrow> thread_inv s B"
  by (simp add: thread_inv_def)

lemma blocked_bits:
  "RECEIVE_BLOCKED AND RECEIVE_BLOCKED \<noteq> 0" "REPLY_BLOCKED AND REPLY_BLOCKED \<noteq> 0"
  "REPLY_BLOCKED AND RECEIVE_BLOCKED \<noteq> 0" "SEND_BLOCKED AND REPLY_BLOCKED \<noteq> 0"
  by (simp_all add: state_defs)

lemma make_send_blocked_ok:
  assumes "rq_inv s" "on_runq thr s"
  obtains R new where "make_send_blocked thr s = Some (upd_thread new (\<lambda>th. th\<lparr>schedule_flag := 0\<rparr>)
      ((upd_thread thr (\<lambda>th. th\<lparr>states := SEND_BLOCKED\<rparr>) s)\<lparr>rq := R, current := new\<rparr>))"
    "rq_inv ((upd_thread thr (\<lambda>th. th\<lparr>states := SEND_BLOCKED\<rparr>) s)\<lparr>rq := R\<rparr>)"
    "\<And>u. queued R u \<longleftrightarrow> u \<noteq> thr \<and> on_runq u s"
proof -
  let ?s = "upd_thread thr (\<lambda>th. th\<lparr>states := SEND_BLOCKED\<rparr>) s"
  have "rq_inv ?s" "on_runq thr ?s" using assms by simp_all
  then obtain R where R: "remove_thread thr ?s = Some (?s\<lparr>rq := R\<rparr>)" "rq_inv (?s\<lparr>rq := R\<rparr>)"
    "\<And>u. queued R u \<longleftrightarrow> u \<noteq> thr \<and> on_runq u ?s"
    using remove_thread_ok by blast
  obtain new where "schedule (?s\<lparr>rq := R\<rparr>) =
      Some (upd_thread new (\<lambda>th. th\<lparr>schedule_flag := 0\<rparr>) (?s\<lparr>rq := R, current := new\<rparr>))"
    using schedule_ok [OF R(2)] by blast
  then show ?thesis using that R by (simp add: make_send_blocked_def)
qed

text \<open>
  Sending a short message to a thread that sleeps in any way that the mask
  \<open>RECEIVE_BLOCKED\<close> meets.
\<close>

lemma send_short_wakes:
  assumes "thread_inv s B" "rq_inv s" "on_runq (current s) s" "threads s (current s) = Some cth"
    "in_table r B" "threads s r = Some rth" "r \<noteq> current s" "\<not> on_runq r s"
    "current s \<notin> set (rcvq rth)" "states rth AND RECEIVE_BLOCKED \<noteq> 0"
    "0 \<le> priority_stat rth" "priority_stat rth \<le> PRIO_RT_MAX" "m_flags m AND MSG_SHORT \<noteq> 0"
  obtains s' cth' rth' where "send_message share (tid rth) m s = Some (Blocked, s')" "rq_inv s'"
    "thread_inv s' B" "threads s' (current s) = Some cth'" "tid cth' = tid cth"
    "states cth' = SEND_BLOCKED" "msg cth' = m\<lparr>m_tid := tid cth\<rparr>" "priority_stat cth' = priority_stat cth"
    "threads s' r = Some rth'" "rcvq rth' = current s # rcvq rth" "states rth' = THREAD_READY"
    "msg rth' = msg rth" "tid rth' = tid rth"
    "\<And>u. on_runq u s' \<longleftrightarrow> u \<noteq> current s \<and> (u = r \<or> on_runq u s)"
proof -
  let ?c = "current s"
  let ?a = "upd_thread r (\<lambda>th. th\<lparr>rcvq := ?c # rcvq rth\<rparr>)
    (upd_thread ?c (\<lambda>th. th\<lparr>msg := m\<lparr>m_tid := tid th\<rparr>\<rparr>) s)"
  have "tid_at s r = Some (tid rth)" using assms(6) by (simp add: tid_at_def)
  then have find: "find_by_tid (tid rth) s = Some (Some r)"
    using thread_inv_find [OF assms(1,5)] by blast
  have tr: "transfer_msg share r ?c ?a = Some (0, ?a)"
    using assms(4,6,7,13) by (simp add: transfer_msg_def)
  have a: "rq_inv ?a" "\<not> on_runq r ?a" using assms(2,8) by simp_all
  have th: "threads ?a r = Some (rth\<lparr>rcvq := ?c # rcvq rth\<rparr>)" using assms(6,7) by simp
  let ?b = "\<lambda>R. (upd_thread r (\<lambda>th. th\<lparr>states := THREAD_READY,
       priority_dyn := priority_stat th\<rparr>) ?a)\<lparr>rq := R\<rparr>"
  obtain R where R: "wakeup r ?a = Some (?b R)" "rq_inv (?b R)"
    "\<And>u. queued R u \<longleftrightarrow> u = r \<or> on_runq u ?a"
    using wakeup_ok [OF a th] assms(11,12) by auto
  let ?d = "\<lambda>R'. (upd_thread ?c (\<lambda>th. th\<lparr>states := SEND_BLOCKED\<rparr>) (?b R))\<lparr>rq := R'\<rparr>"
  let ?e = "\<lambda>R' new. upd_thread new (\<lambda>th. th\<lparr>schedule_flag := 0\<rparr>) (?d R'\<lparr>current := new\<rparr>)"
  have "on_runq ?c (?b R)" using R(3) assms(3) by simp
  then obtain R' new where b: "make_send_blocked ?c (?b R) = Some (?e R' new)" "rq_inv (?d R')"
    "\<And>u. queued R' u \<longleftrightarrow> u \<noteq> ?c \<and> on_runq u (?b R)"
    using make_send_blocked_ok [OF R(2)] by blast
  let ?s' = "?e R' new"
  have "send_message share (tid rth) m s = Some (Blocked, ?s')"
    using find assms(4,6,7,9,10) tr R(1) b(1)
    by (simp add: send_message_def Let_def ll_enqueue_def)
  moreover have "rq_inv ?s'" using b(2) by simp
  moreover have "thread_inv ?s' B" using assms(1) by simp
  moreover have "\<exists>x. threads ?s' ?c = Some x \<and> tid x = tid cth \<and> states x = SEND_BLOCKED \<and>
      msg x = m\<lparr>m_tid := tid cth\<rparr> \<and> priority_stat x = priority_stat cth"
    using assms(4,7) by (cases "new = ?c") simp_all
  moreover have "\<exists>x. threads ?s' r = Some x \<and> rcvq x = ?c # rcvq rth \<and> states x = THREAD_READY \<and>
      msg x = msg rth \<and> tid x = tid rth"
    using assms(6,7) by (cases "new = r") simp_all
  moreover have "on_runq u ?s' \<longleftrightarrow> u \<noteq> ?c \<and> (u = r \<or> on_runq u s)" for u
    using b(3) R(3) by simp
  ultimately show ?thesis using that by blast
qed

lemma reply_wakes:
  assumes "thread_inv s B" "rq_inv s" "in_table w B" "threads s w = Some wth" "\<not> on_runq w s"
    "states wth AND REPLY_BLOCKED \<noteq> 0" "0 \<le> priority_stat wth" "priority_stat wth \<le> PRIO_RT_MAX"
  shows "\<exists>s' x. reply_message (tid wth) m s = Some (0, s') \<and> rq_inv s' \<and> on_runq w s' \<and>
    threads s' w = Some x \<and> states x = THREAD_READY \<and> msg x = m"
proof -
  have "tid_at s w = Some (tid wth)" using assms(4) by (simp add: tid_at_def)
  then have find: "find_by_tid (tid wth) s = Some (Some w)"
    using thread_inv_find [OF assms(1,3)] by blast
  let ?a = "upd_thread w (\<lambda>th. th\<lparr>msg := m\<rparr>) s"
  obtain b where b: "unmap_message (current s) w m ?a = Some (0, b)" "rq b = rq s" "rq_inv b"
    "threads b w = Some (wth\<lparr>msg := m\<rparr>)"
    using assms(2,4) by (cases "m_flags m AND MSG_SHORT = 0") (simp_all add: unmap_message_def)
  obtain R where "wakeup w b = Some ((upd_thread w (\<lambda>th. th\<lparr>states := THREAD_READY,
       priority_dyn := priority_stat th\<rparr>) b)\<lparr>rq := R\<rparr>)"
    "rq_inv ((upd_thread w (\<lambda>th. th\<lparr>states := THREAD_READY,
       priority_dyn := priority_stat th\<rparr>) b)\<lparr>rq := R\<rparr>)" "queued R w"
    using wakeup_ok [OF b(3) _ b(4)] assms(5,7,8) b(2) by auto
  then show ?thesis
    using find assms(4,6) b by (simp add: reply_message_def Let_def)
qed

text \<open>\<open>receives n\<close> is the running thread receiving \<open>n\<close> times without sleeping.\<close>

primrec receives :: "nat \<Rightarrow> 'z kstate_scheme \<Rightarrow> ((int \<times> message) list \<times> 'z kstate_scheme) option" where
  "receives 0 s = Some ([], s)"
| "receives (Suc n) s = do {
     (r, s) \<leftarrow> receive_message s;
     case r of
       Blocked \<Rightarrow> None
     | Ret v \<Rightarrow> do { (vs, s) \<leftarrow> receives n s; Some (v # vs, s) }
   }"

text \<open>A running client 1 and a server 2 that waits to receive.\<close>

definition ipc_ex :: kstate where
  "ipc_ex = upd_thread 2 (\<lambda>th. th\<lparr>states := RECEIVE_BLOCKED\<rparr>)
     (thread_ex\<lparr>rq := \<lparr>rq_bitmap = 0x400, run = (replicate MAXQ [])[10 := [1]], nthreads = 1\<rparr>\<rparr>)"

lemma ipc_ex_props:
  "rq_inv ipc_ex" "on_runq 1 ipc_ex" "\<not> on_runq 2 ipc_ex" "current ipc_ex = 1"
  "thread_inv ipc_ex thread_ex_B" "in_table 1 thread_ex_B" "in_table 2 thread_ex_B"
  "threads ipc_ex 1 = Some (thread0\<lparr>tid := 500, t_proc := 7, priority_stat := 40, priority_dyn := 40\<rparr>)"
  "threads ipc_ex 2 = Some (thread0\<lparr>tid := 501, t_proc := 7, priority_stat := 40, priority_dyn := 40,
     states := RECEIVE_BLOCKED\<rparr>)"
proof -
  let ?R = "\<lparr>rq_bitmap = 0x400, run = (replicate MAXQ [])[10 := [1]], nthreads = 1\<rparr>"
  have "remove_thread 2 thread_ex = Some (thread_ex\<lparr>rq := ?R\<rparr>)"
    using remove_thread_Some [OF thread_ex_rq(1), of 10 2]
    by (simp add: thread_ex_def sched_ex_def MAXQ_def)
  then have "rq_inv (thread_ex\<lparr>rq := ?R\<rparr>)" using thread_ex_rq(1) remove_thread_inv by blast
  then show "rq_inv ipc_ex" by (simp add: ipc_ex_def)
  show "on_runq 1 ipc_ex"
    unfolding queued_iff by (rule exI [of _ 10]) (simp add: ipc_ex_def MAXQ_def)
  show "\<not> on_runq 2 ipc_ex" by (auto simp: queued_iff ipc_ex_def MAXQ_def nth_list_update)
  show "thread_inv ipc_ex thread_ex_B" using thread_ex_inv by (simp add: ipc_ex_def)
  show "in_table 1 thread_ex_B"
    unfolding in_table_def by (rule exI [of _ 501]) (simp add: NWORDS_def)
  show "in_table 2 thread_ex_B"
    unfolding in_table_def by (rule exI [of _ 500]) (simp add: NWORDS_def)
qed (simp_all add: ipc_ex_def thread_ex_def sched_ex_def)

definition short_msg :: "u32 \<Rightarrow> message" where
  "short_msg w = message0\<lparr>w1 := w, m_flags := MSG_SHORT\<rparr>"

lemma short_msg_flags: "m_flags (short_msg w) AND MSG_SHORT \<noteq> 0" "m_flags (short_msg w) AND MSG_NOREPLY = 0"
  by (simp_all add: short_msg_def MSG_SHORT_def MSG_NOREPLY_def)

section \<open>Properties\<close>

text \<open>C3. A message exchange: a thread sends a short message to another thread that waits to
  receive, the receiver runs and receives, and it replies. The sender sleeps until the reply;
  the receiver gets the sender's message, marked with the sender's id, and that id as the result
  of receiving; the reply succeeds, makes the sender ready and queued again, and what
  \<open>send_message\<close> then hands back to the sender is the reply and its first word.\<close>

theorem ipc_round_trip:
  assumes "thread_inv s B" "rq_inv s" "on_runq (current s) s" "in_table (current s) B"
    "threads s (current s) = Some cth" "0 \<le> priority_stat cth" "priority_stat cth \<le> PRIO_RT_MAX"
    "in_table r B" "threads s r = Some rth" "r \<noteq> current s" "\<not> on_runq r s" "rcvq rth = []"
    "states rth = RECEIVE_BLOCKED" "0 \<le> priority_stat rth" "priority_stat rth \<le> PRIO_RT_MAX"
    "m_flags m AND MSG_SHORT \<noteq> 0" "m_flags m AND MSG_NOREPLY = 0"
  shows "\<exists>s1 s2 s3 x. send_message share (tid rth) m s = Some (Blocked, s1) \<and>
    \<not> on_runq (current s) s1 \<and> on_runq r s1 \<and>
    receive_message (s1\<lparr>current := r\<rparr>) = Some (Ret (tid cth, m\<lparr>m_tid := tid cth\<rparr>), s2) \<and>
    \<not> on_runq (current s) s2 \<and>
    reply_message (tid cth) m' s2 = Some (0, s3) \<and> rq_inv s3 \<and>
    on_runq (current s) s3 \<and> threads s3 (current s) = Some x \<and> states x = THREAD_READY \<and>
    send_resume (current s) s3 = Some (sint (w1 m'), m')"
proof -
  let ?c = "current s"
  have "states rth AND RECEIVE_BLOCKED \<noteq> 0" "?c \<notin> set (rcvq rth)"
    using assms(12,13) blocked_bits by auto
  then obtain s1 cth1 rth1 where s1: "send_message share (tid rth) m s = Some (Blocked, s1)"
    "rq_inv s1" "thread_inv s1 B" "threads s1 ?c = Some cth1" "tid cth1 = tid cth"
    "msg cth1 = m\<lparr>m_tid := tid cth\<rparr>" "priority_stat cth1 = priority_stat cth"
    "threads s1 r = Some rth1" "rcvq rth1 = [?c]"
    "\<And>u. on_runq u s1 \<longleftrightarrow> u \<noteq> ?c \<and> (u = r \<or> on_runq u s)"
    using send_short_wakes [OF assms(1-3,5,8-11) _ _ assms(14-16)] assms(12) by metis
  let ?s2 = "upd_thread ?c (\<lambda>th. th\<lparr>states := REPLY_BLOCKED\<rparr>)
    (upd_thread r (\<lambda>th. th\<lparr>rcvq := []\<rparr>) (s1\<lparr>current := r\<rparr>))"
  have recv: "receive_message (s1\<lparr>current := r\<rparr>) = Some (Ret (tid cth, m\<lparr>m_tid := tid cth\<rparr>), ?s2)"
    using s1(4-9) assms(10,17) by (simp add: receive_message_def Let_def ll_dequeue_def)
  have "threads ?s2 ?c = Some (cth1\<lparr>states := REPLY_BLOCKED\<rparr>)" using s1(4) assms(10) by simp
  then obtain s3 x where "reply_message (tid cth) m' ?s2 = Some (0, s3)" "rq_inv s3"
    "on_runq ?c s3" "threads s3 ?c = Some x" "states x = THREAD_READY" "msg x = m'"
    using reply_wakes [of ?s2 B ?c "cth1\<lparr>states := REPLY_BLOCKED\<rparr>" m'] s1(2,3,5,7,10) assms(4,6,7)
      blocked_bits by auto
  then show ?thesis
    using s1(1,10) recv assms(10)
    by (intro exI [of _ s1] exI [of _ ?s2] exI [of _ s3] exI [of _ x]) (simp add: send_resume_def)
qed

theorem ipc_round_trip_witness:
  "\<exists>s1 s2 s3. send_message (\<lambda>_ _ p _ _ s. Some (0, p, s)) 501 (short_msg 5) ipc_ex = Some (Blocked, s1) \<and>
    receive_message (s1\<lparr>current := 2\<rparr>) = Some (Ret (500, short_msg 5\<lparr>m_tid := 500\<rparr>), s2) \<and>
    reply_message 500 (short_msg 6) s2 = Some (0, s3) \<and> send_resume 1 s3 = Some (6, short_msg 6)"
proof -
  let ?cth = "thread0\<lparr>tid := 500, t_proc := 7, priority_stat := 40, priority_dyn := 40\<rparr>"
  let ?rth = "thread0\<lparr>tid := 501, t_proc := 7, priority_stat := 40, priority_dyn := 40,
     states := RECEIVE_BLOCKED\<rparr>"
  have r: "tid ?cth = 500" "tid ?rth = 501" "rcvq ?rth = []" "states ?rth = RECEIVE_BLOCKED" "sint (w1 (short_msg 6)) = 6"
    and prio: "0 \<le> priority_stat ?cth" "priority_stat ?cth \<le> PRIO_RT_MAX"
      "0 \<le> priority_stat ?rth" "priority_stat ?rth \<le> PRIO_RT_MAX"
    by (simp_all add: thread0_def PRIO_RT_MAX_def short_msg_def)
  have c: "on_runq (current ipc_ex) ipc_ex" "in_table (current ipc_ex) thread_ex_B"
    "threads ipc_ex (current ipc_ex) = Some ?cth" "2 \<noteq> current ipc_ex"
    unfolding ipc_ex_props(4) using ipc_ex_props by simp_all
  note ipc_round_trip [OF ipc_ex_props(5,1) c(1-3) prio(1,2) ipc_ex_props(7,9) c(4) ipc_ex_props(3) r(3,4) prio(3,4)
      short_msg_flags, of "\<lambda>_ _ p _ _ s. Some (0, p, s)" 5 "short_msg 6"]
  then show ?thesis unfolding r ipc_ex_props(4) by blast
qed



text \<open>C31. The test for a waiting receiver accepts every sleeping thread. A thread that has been
  received from and waits for its reply is woken by a third thread that merely sends it a message;
  its \<open>send_message\<close> then returns its own message as if that were the reply.\<close>

theorem send_interrupts_reply_wait:
  assumes "thread_inv s B" "rq_inv s" "on_runq (current s) s" "threads s (current s) = Some cth"
    "in_table r B" "threads s r = Some rth" "r \<noteq> current s" "\<not> on_runq r s"
    "current s \<notin> set (rcvq rth)" "states rth = REPLY_BLOCKED"
    "0 \<le> priority_stat rth" "priority_stat rth \<le> PRIO_RT_MAX" "m_flags m AND MSG_SHORT \<noteq> 0"
  shows "\<exists>s'. send_message share (tid rth) m s = Some (Blocked, s') \<and> on_runq r s' \<and>
    send_resume r s' = Some (sint (w1 (msg rth)), msg rth)"
proof -
  have "states rth AND RECEIVE_BLOCKED \<noteq> 0" using assms(10) blocked_bits by simp
  then obtain s' rth' where "send_message share (tid rth) m s = Some (Blocked, s')"
    "threads s' r = Some rth'" "msg rth' = msg rth"
    "\<And>u. on_runq u s' \<longleftrightarrow> u \<noteq> current s \<and> (u = r \<or> on_runq u s)"
    using send_short_wakes [OF assms(1-9) _ assms(11-13)] by metis
  then show ?thesis using assms(7) by (auto simp: send_resume_def)
qed

theorem send_interrupts_reply_wait_witness:
  "\<exists>s'. send_message (\<lambda>_ _ p _ _ s. Some (0, p, s)) 501 (short_msg 5)
      (upd_thread 2 (\<lambda>th. th\<lparr>states := REPLY_BLOCKED\<rparr>) ipc_ex) = Some (Blocked, s') \<and>
    on_runq 2 s' \<and> send_resume 2 s' = Some (0, message0)"
proof -
  let ?s = "upd_thread 2 (\<lambda>th. th\<lparr>states := REPLY_BLOCKED\<rparr>) ipc_ex"
  let ?rth = "thread0\<lparr>tid := 501, t_proc := 7, priority_stat := 40, priority_dyn := 40,
     states := REPLY_BLOCKED\<rparr>"
  have s: "thread_inv ?s thread_ex_B" "rq_inv ?s" "on_runq (current ?s) ?s" "\<not> on_runq 2 ?s"
    "threads ?s (current ?s) = Some (thread0\<lparr>tid := 500, t_proc := 7, priority_stat := 40, priority_dyn := 40\<rparr>)"
    "threads ?s 2 = Some ?rth" "2 \<noteq> current ?s"
    using ipc_ex_props by simp_all
  have r: "tid ?rth = 501" "rcvq ?rth = []" "states ?rth = REPLY_BLOCKED" "priority_stat ?rth = 40"
    "msg ?rth = message0" "sint (w1 message0) = 0"
    by (simp_all add: thread0_def message0_def)
  show ?thesis
    using send_interrupts_reply_wait [OF s(1-3,5) ipc_ex_props(7) s(6,7,4) _ r(3) _ _ short_msg_flags(1)]
    unfolding r by (simp add: PRIO_RT_MAX_def)
qed

end
