(* ===== verification/KSignal.thy ===== *)
theory KSignal
  imports Ipc
begin

text \<open>
  Signals (\<^verbatim>\<open>kernel/signal.c\<close>): the queue of a process, masks and actions, sending and
  handling. The queue is in the order of the links, the latest signal first. The memory of a new
  queue element is an argument (\<open>None\<close> when the cache has none).
\<close>

definition MAX_SIGNAL :: int where "MAX_SIGNAL = 32"
definition SIG_DFL :: u32 where "SIG_DFL = 0"
definition SIG_IGN :: u32 where "SIG_IGN = 1"
definition SIGCHLD :: int where "SIGCHLD = 4"
definition SIGCONT :: int where "SIGCONT = 5"
definition SIGKILL :: int where "SIGKILL = 10"
definition SIGSTOP :: int where "SIGSTOP = 15"
definition SIGTSTP :: int where "SIGTSTP = 19"
definition SIGTTIN :: int where "SIGTTIN = 20"
definition SIGTTOU :: int where "SIGTTOU = 21"
definition SIG_BLOCK :: int where "SIG_BLOCK = 1"
definition SIG_UNBLOCK :: int where "SIG_UNBLOCK = 2"
definition SIG_SETMASK :: int where "SIG_SETMASK = 4"
definition SS_ONSTACK :: u32 where "SS_ONSTACK = 1"
definition SS_DISABLE :: u32 where "SS_DISABLE = 2"
definition MINSIGSTKSZ :: u32 where "MINSIGSTKSZ = 512"
definition WSIGNAL :: u32 where "WSIGNAL = 0x00FF00"
definition WIFSIG :: u32 where "WIFSIG = 0x020000"
definition ON_SIGHAND :: u32 where "ON_SIGHAND = 4"

section \<open>Masks and queues\<close>

definition addmask :: "u32 \<Rightarrow> u32 \<Rightarrow> u32" where "addmask st m = st OR m"
definition delmask :: "u32 \<Rightarrow> u32 \<Rightarrow> u32" where "delmask st m = st AND NOT m"

definition is_queued :: "process \<Rightarrow> bool" where
  "is_queued p \<longleftrightarrow> sigqueue p \<noteq> []"

definition is_blocked :: "thread \<Rightarrow> int \<Rightarrow> bool" where
  "is_blocked th signal \<longleftrightarrow> check_set (sa_mask th) signal \<noteq> 0"

text \<open>The first element in link order whose signal is not blocked is taken out.\<close>

definition dequeue_signal :: "addr \<Rightarrow> 'z kstate_scheme \<Rightarrow> (sigqueue_t option \<times> 'z kstate_scheme) option" where
  "dequeue_signal thr s = do {
     th \<leftarrow> threads s thr;
     p \<leftarrow> procs s (t_proc th);
     case List.find (\<lambda>q. \<not> is_blocked th (sq_signal q)) (sigqueue p) of
       None \<Rightarrow> Some (None, s)
     | Some q \<Rightarrow> Some (Some q, upd_proc (t_proc th) (\<lambda>p. p\<lparr>sigqueue := remove1 q (sigqueue p)\<rparr>) s)
   }"

text \<open>
  The loop of \<open>is_pending\<close> stops before the last element. On an empty queue it reads the list
  head as an element; \<open>junk\<close> is what it returns then.
\<close>

definition is_pending :: "bool \<Rightarrow> addr \<Rightarrow> 'z kstate_scheme \<Rightarrow> bool option" where
  "is_pending junk thr s = do {
     th \<leftarrow> threads s thr;
     p \<leftarrow> procs s (t_proc th);
     if sigqueue p = [] then Some junk
     else Some (list_ex (\<lambda>q. \<not> is_blocked th (sq_signal q)) (butlast (sigqueue p)))
   }"

section \<open>Sending\<close>

text \<open>\<open>action[signal - 1]\<close> is outside the array for signal 0.\<close>

definition send_signal :: "sigqueue_t option \<Rightarrow> addr \<Rightarrow> int \<Rightarrow> siginfo option \<Rightarrow> 'z kstate_scheme \<Rightarrow>
  (int \<times> 'z kstate_scheme) option" where
  "send_signal mem thr signal sinfo s =
     (if signal < 0 \<or> signal > MAX_SIGNAL then Some (- EINVAL, s)
      else do {
        th \<leftarrow> threads s thr;
        r \<leftarrow> (if is_blocked th signal then Some (Some s)
              else do {
                p \<leftarrow> procs s (t_proc th);
                check (1 \<le> signal);
                act \<leftarrow> aget (action p) (nat (signal - 1));
                if sa_handler act = SIG_IGN then Some (Some s)
                else case mem of
                  None \<Rightarrow> Some None
                | Some q0 \<Rightarrow>
                    (let q = q0\<lparr>sq_info := (case sinfo of None \<Rightarrow> sq_info q0 | Some i \<Rightarrow> i),
                                sq_signal := signal\<rparr>
                     in Some (Some (upd_thread thr (\<lambda>th. th\<lparr>sigpending := 1\<rparr>)
                          (upd_proc (t_proc th) (\<lambda>p. p\<lparr>sigqueue := q # sigqueue p\<rparr>) s))))
              });
        case r of
          None \<Rightarrow> Some (- EAGAIN, s)
        | Some s' \<Rightarrow> do {
            s' \<leftarrow> (if states th = THREAD_INT then wakeup thr s' else Some s');
            Some (0, s')
          }
      })"

text \<open>The threads of the process in link order, the latest first.\<close>

fun send_to_first :: "sigqueue_t option \<Rightarrow> addr list \<Rightarrow> int \<Rightarrow> siginfo option \<Rightarrow> 'z kstate_scheme \<Rightarrow>
  (int \<times> 'z kstate_scheme) option" where
  "send_to_first mem [] signal sinfo s = Some (0, s)"
| "send_to_first mem (thr # thrs) signal sinfo s = do {
     th \<leftarrow> threads s thr;
     if \<not> is_blocked th signal then send_signal mem thr signal sinfo s
     else send_to_first mem thrs signal sinfo s
   }"

definition send_signal_any :: "sigqueue_t option \<Rightarrow> addr \<Rightarrow> int \<Rightarrow> siginfo option \<Rightarrow> 'z kstate_scheme \<Rightarrow>
  (int \<times> 'z kstate_scheme) option" where
  "send_signal_any mem process signal sinfo s = do {
     p \<leftarrow> procs s process;
     send_to_first mem (p_threads p) signal sinfo s
   }"

section \<open>Handling\<close>

text \<open>
  \<open>exit_fn\<close> is \<open>syscall_exit(NULL, 1)\<close>, which does not return; \<open>frame\<close> is
  \<open>signal_frame\<close>, which writes the handler's frame to the user stack.
\<close>

definition handle_signal :: "bool \<Rightarrow> ('z kstate_scheme \<Rightarrow> 'z kstate_scheme option) \<Rightarrow>
  (addr \<Rightarrow> sigqueue_t \<Rightarrow> sigaction_t \<Rightarrow> 'z kstate_scheme \<Rightarrow> 'z kstate_scheme) \<Rightarrow>
  addr \<Rightarrow> 'z kstate_scheme \<Rightarrow> 'z kstate_scheme option" where
  "handle_signal junk exit_fn frame thr s = do {
     th \<leftarrow> threads s thr;
     (r, s) \<leftarrow> dequeue_signal thr s;
     let finish = (\<lambda>s. do {
       pend \<leftarrow> is_pending junk thr s;
       Some (if pend then s else upd_thread thr (\<lambda>th. th\<lparr>sigpending := 0\<rparr>) s)
     });
     case r of
       None \<Rightarrow> finish s
     | Some q \<Rightarrow> do {
         p \<leftarrow> procs s (t_proc th);
         check (1 \<le> sq_signal q);
         act \<leftarrow> aget (action p) (nat (sq_signal q - 1));
         if sa_handler act = SIG_IGN then finish s
         else if sa_handler act = SIG_DFL then
           (if sq_signal q \<in> {SIGCHLD, SIGCONT, SIGTSTP, SIGTTIN, SIGTTOU, SIGSTOP} then finish s
            else exit_fn (upd_thread thr (\<lambda>th. th\<lparr>states := PROCESS_EXITING\<rparr>)
              (upd_proc (t_proc th) (\<lambda>p. p\<lparr>exit_status := exit_status p OR WIFSIG OR
                 (push_bit 8 (word_of_int (sq_signal q)) AND WSIGNAL)\<rparr>) s)))
         else finish (frame thr q act
           (upd_proc (t_proc th) (\<lambda>p. p\<lparr>p_status := ON_SIGHAND\<rparr>) s))
       }
   }"

text \<open>Each element is freed before its link is read.\<close>

definition exit_signals :: "addr \<Rightarrow> 'z kstate_scheme \<Rightarrow> 'z kstate_scheme option" where
  "exit_signals process s = do {
     p \<leftarrow> procs s process;
     check (sigqueue p = []);
     Some s
   }"

definition sigaction0 :: sigaction_t where
  "sigaction0 = \<lparr>sig_mask = 0, sa_flags = 0, sa_handler = SIG_DFL\<rparr>"

text \<open>The loop over the \<open>MAX_SIGNAL\<close> elements of an array.\<close>

definition init_signals :: "sigaction_t list \<Rightarrow> sigaction_t list" where
  "init_signals act = replicate (nat MAX_SIGNAL) sigaction0 @ drop (nat MAX_SIGNAL) act"

section \<open>System calls\<close>

text \<open>The two results are the return value and, where asked for, the old value.\<close>

definition sigaction :: "int \<Rightarrow> sigaction_t option \<Rightarrow> 'z kstate_scheme \<Rightarrow>
  (int \<times> sigaction_t option \<times> 'z kstate_scheme) option" where
  "sigaction signal act s =
     (if signal \<le> 0 \<or> signal > MAX_SIGNAL then Some (- EINVAL, None, s)
      else if signal = SIGKILL \<or> signal = SIGSTOP then Some (- EINVAL, None, s)
      else do {
        th \<leftarrow> cur_thread s;
        p \<leftarrow> procs s (t_proc th);
        old \<leftarrow> aget (action p) (nat (signal - 1));
        case act of
          None \<Rightarrow> Some (0, Some old, s)
        | Some a \<Rightarrow> do {
            l \<leftarrow> aput (action p) (nat (signal - 1)) a;
            Some (0, Some old, upd_proc (t_proc th) (\<lambda>p. p\<lparr>action := l\<rparr>) s)
          }
      })"

definition sigprocmask :: "int \<Rightarrow> u32 option \<Rightarrow> 'z kstate_scheme \<Rightarrow> (int \<times> u32 \<times> 'z kstate_scheme) option" where
  "sigprocmask how st s = do {
     let thr = current s;
     th \<leftarrow> threads s thr;
     let oset = sa_mask th;
     case st of
       None \<Rightarrow> Some (0, oset, s)
     | Some m \<Rightarrow>
         Some (if how = SIG_BLOCK
               then (0, oset, upd_thread thr (\<lambda>th. th\<lparr>sa_mask := addmask (sa_mask th) m\<rparr>) s)
               else if how = SIG_UNBLOCK
               then (0, oset, upd_thread thr (\<lambda>th. th\<lparr>sa_mask := delmask (sa_mask th) m\<rparr>) s)
               else if how = SIG_SETMASK
               then (0, oset, upd_thread thr (\<lambda>th. th\<lparr>sa_mask := m\<rparr>) s)
               else (- EINVAL, oset, s))
   }"

definition sigsuspend :: "u32 \<Rightarrow> 'z kstate_scheme \<Rightarrow> (int \<times> 'z kstate_scheme) option" where
  "sigsuspend st s = do {
     let thr = current s;
     s \<leftarrow> remove_thread thr (upd_thread thr (\<lambda>th. th\<lparr>sa_mask := st, states := THREAD_INT\<rparr>) s);
     s \<leftarrow> schedule s;
     Some (0, s)
   }"

text \<open>The size that is checked is that of the stack in use so far.\<close>

definition sigaltstack :: "sigstack_t option \<Rightarrow> 'z kstate_scheme \<Rightarrow>
  (int \<times> sigstack_t \<times> 'z kstate_scheme) option" where
  "sigaltstack st s = do {
     th \<leftarrow> cur_thread s;
     p \<leftarrow> procs s (t_proc th);
     let oss = ss p;
     case st of
       None \<Rightarrow> Some (0, oss, s)
     | Some n \<Rightarrow>
         Some (if ss_flags n AND SS_DISABLE \<noteq> 0 then (- EINVAL, oss, s)
               else if ss_flags (ss p) AND SS_ONSTACK \<noteq> 0 then (- EPERM, oss, s)
               else if ss_size (ss p) < MINSIGSTKSZ then (- ENOMEM, oss, s)
               else (0, oss, upd_proc (t_proc th) (\<lambda>p. p\<lparr>ss := n\<rparr>) s))
   }"

text \<open>The set is combined with the number of the signal, not with its bit.\<close>

definition set_has_signal :: "u32 \<Rightarrow> int \<Rightarrow> bool" where
  "set_has_signal st signal \<longleftrightarrow> st AND word_of_int signal \<noteq> 0"

definition find_queued :: "process \<Rightarrow> u32 \<Rightarrow> sigqueue_t option" where
  "find_queued p st = (if \<not> is_queued p then None
     else List.find (\<lambda>q. set_has_signal st (sq_signal q)) (sigqueue p))"

section \<open>Properties\<close>



text \<open>C35. \<open>sigprocmask\<close> returns the old mask and changes exactly which signals the running
  thread blocks: adding, removing or setting the given signals; another \<open>how\<close> is refused and
  nothing changes.\<close>

theorem sigprocmask_blocks:
  assumes "threads s (current s) = Some th"
  shows "\<exists>r s' th'. sigprocmask how (Some m) s = Some (r, sa_mask th, s') \<and>
    threads s' (current s) = Some th' \<and>
    (how \<in> {SIG_BLOCK, SIG_UNBLOCK, SIG_SETMASK} \<longrightarrow> r = 0 \<and>
       (\<forall>signal. 0 \<le> signal \<and> signal < 32 \<longrightarrow> (is_blocked th' signal \<longleftrightarrow>
          (if how = SIG_BLOCK then is_blocked th signal \<or> bit m (nat signal)
           else if how = SIG_UNBLOCK then is_blocked th signal \<and> \<not> bit m (nat signal)
           else bit m (nat signal))))) \<and>
    (how \<notin> {SIG_BLOCK, SIG_UNBLOCK, SIG_SETMASK} \<longrightarrow> r = - EINVAL \<and> s' = s)"
proof -
  have "bit (NOT m) (nat signal) \<longleftrightarrow> \<not> bit m (nat signal)" if "0 \<le> signal" "signal < 32" for signal
    using that by (simp add: bit_not_iff nat_less_iff)
  then show ?thesis
    using assms by (auto simp: sigprocmask_def Let_def is_blocked_def check_set_def addmask_def
        delmask_def SIG_BLOCK_def SIG_UNBLOCK_def SIG_SETMASK_def bit_or_iff bit_and_iff)
qed

theorem sigprocmask_blocks_witness:
  "\<exists>s' th'. sigprocmask SIG_BLOCK (Some 512) thread_ex = Some (0, 0, s') \<and>
    threads s' 1 = Some th' \<and> is_blocked th' 9"
proof -
  have c: "current thread_ex = 1" "bit (512 :: u32) 9"
    by (simp_all add: thread_ex_def sched_ex_def)
  let ?th = "thread0\<lparr>tid := 500, t_proc := 7, priority_stat := 40, priority_dyn := 40\<rparr>"
  have th: "threads thread_ex (current thread_ex) = Some ?th" "sa_mask ?th = 0"
    unfolding c by (simp_all add: thread_ex_def thread0_def)
  show ?thesis
    using sigprocmask_blocks [OF th(1), of SIG_BLOCK 512] c th(2) by fastforce
qed

text \<open>The set of signals waited for is tested with the number of the signal, not with its bit:
  signal 8 is not found in the set of signal 8.\<close>

lemma set_has_signal_by_number: "\<not> set_has_signal (set_bit 8 0) 8" "set_has_signal (set_bit 3 0) 8"
  by (simp_all add: set_has_signal_def)

end
