(* ===== verification/Timer.thy ===== *)
theory Timer
  imports KSync KSignal
begin

unbundle bit_operations_syntax

text \<open>
  Timers and clocks: \<^verbatim>\<open>src/microkernel/kernel/timer.c\<close>, the system calls of
  \<^verbatim>\<open>src/microkernel/arch/i386/timer.c\<close>, and \<open>signal_wait\<close> of
  \<^verbatim>\<open>kernel/signal.c\<close>, which sleeps on a timer.

  The ring of armed timers is an explicit heap of links (\<open>tlinks\<close>), because \<open>insert_timer\<close>
  leaves rings that are not well-formed. The buckets of the table of timers are themselves timer
  structures, \<open>TIMER_SIZE\<close> bytes apart from the address \<open>tmhash\<close> on; those inside the page of
  the table are zero, and the others are not mapped.
\<close>

definition TM_SLEEP :: u32 where "TM_SLEEP = 1"
definition TM_TIMER :: u32 where "TM_TIMER = 2"
definition TM_ONESHOT :: u32 where "TM_ONESHOT = 4"
definition TM_NOACTION :: u32 where "TM_NOACTION = 8"
definition CLOCK_REALTIME :: int where "CLOCK_REALTIME = 0"
definition SIGEV_NONE :: int where "SIGEV_NONE = 0"
definition SIGEV_SIGNAL :: int where "SIGEV_SIGNAL = 1"
definition SIGEV_THREAD :: int where "SIGEV_THREAD = 2"
definition SIGALRM :: int where "SIGALRM = 2"
definition TIMER_SIZE :: nat where "TIMER_SIZE = 60"

record sigevent_t =
  sigev_notify :: int
  sigev_signo :: int
  sigev_value :: int

record timer_t =
  timeout :: "64 word"
  nextarm :: int
  sigv :: sigevent_t
  tm_owner :: addr
  tm_flag :: u32
  clkid :: int
  timer_id :: int
  tm_next :: addr

record timespec =
  tv_sec :: int
  tv_nsec :: int

record timestate = syncstate +
  timers :: "addr \<Rightarrow> timer_t option"
  tlinks :: lheap
  tmlist :: addr
  tmhash :: addr
  ticks :: "64 word"
  ctime :: timespec

definition upd_timer :: "addr \<Rightarrow> (timer_t \<Rightarrow> timer_t) \<Rightarrow> 'z timestate_scheme \<Rightarrow> 'z timestate_scheme" where
  "upd_timer a f s = s\<lparr>timers := (timers s)(a := map_option f (timers s a))\<rparr>"

section \<open>The table of timers\<close>

definition tm_bucket :: "int \<Rightarrow> 'z timestate_scheme \<Rightarrow> addr" where
  "tm_bucket k s = tmhash s + TIMER_SIZE * hash_fn k"

text \<open>The new timer is linked to the bucket, but the bucket, a local variable, is not changed.\<close>

definition tmhash_insert :: "addr \<Rightarrow> 'z timestate_scheme \<Rightarrow> 'z timestate_scheme option" where
  "tmhash_insert timer s = do {
     t \<leftarrow> timers s timer;
     Some (upd_timer timer (\<lambda>t. t\<lparr>tm_next := tm_bucket (timer_id t) s\<rparr>) s)
   }"

partial_function (option) timer_walk :: "(addr \<Rightarrow> timer_t option) \<Rightarrow> int \<Rightarrow> addr \<Rightarrow> addr option option" where
  "timer_walk tms k link =
     (if link = 0 then Some None
      else do {
        t \<leftarrow> tms link;
        if timer_id t = k then Some (Some link) else timer_walk tms k (tm_next t)
      })"

definition timer_by_id :: "int \<Rightarrow> 'z timestate_scheme \<Rightarrow> addr option option" where
  "timer_by_id k s = do {
     let tm = tm_bucket k s;
     t \<leftarrow> timers s tm;
     if timer_id t = k then Some (Some tm) else timer_walk (timers s) k (tm_next t)
   }"

section \<open>Arming, creating and deleting\<close>

text \<open>The head of the ring is a timer too, with timeout 0; \<open>tmo\<close> reads the timeout of either.\<close>

definition tmo :: "'z timestate_scheme \<Rightarrow> addr \<Rightarrow> 64 word option" where
  "tmo s a = (if a = tmlist s then Some 0 else map_option timeout (timers s a))"

partial_function (option) timer_place :: "(addr \<Rightarrow> 64 word option) \<Rightarrow> (addr \<Rightarrow> addr) \<Rightarrow> 64 word \<Rightarrow> addr \<Rightarrow> addr option" where
  "timer_place tmos nx t tm = do {
     t' \<leftarrow> tmos tm;
     if t' > t then timer_place tmos nx t (nx tm) else Some tm
   }"

definition insert_timer :: "addr \<Rightarrow> 'z timestate_scheme \<Rightarrow> 'z timestate_scheme option" where
  "insert_timer item s = do {
     let head = tmlist s;
     t \<leftarrow> timers s item;
     let h = (if list_isempty head (tlinks s) then list_enqueue head item (tlinks s) else tlinks s);
     tm \<leftarrow> timer_place (tmo s) (lnext h) (timeout t) (lnext h head);
     Some (s\<lparr>tlinks := list_add_next (lprev h tm) item h\<rparr>)
   }"

definition delete_timer :: "int \<Rightarrow> 'z timestate_scheme \<Rightarrow> (int \<times> 'z timestate_scheme) option" where
  "delete_timer k s = do {
     r \<leftarrow> timer_by_id k s;
     case r of
       None \<Rightarrow> Some (- 1, s)
     | Some tm \<Rightarrow> do {
         t \<leftarrow> timers s tm;
         th \<leftarrow> threads s (tm_owner t);
         p \<leftarrow> procs s (t_proc th);
         l \<leftarrow> ll_del tm (p_timers p);
         Some (0, (upd_proc (t_proc th) (\<lambda>p. p\<lparr>p_timers := l\<rparr>) s)\<lparr>timers := (timers s)(tm := None)\<rparr>)
       }
   }"

text \<open>
  The result is the address of the timer or a negative error. The new timer is not given back
  when the clock is refused.
\<close>

definition timer_create :: "(addr \<times> timer_t) option \<Rightarrow> int \<Rightarrow> u32 \<Rightarrow> sigevent_t option \<Rightarrow>
  'z timestate_scheme \<Rightarrow> ((int + addr) \<times> 'z timestate_scheme) option" where
  "timer_create mem clk flags sig s = do {
     cth \<leftarrow> cur_thread s;
     case mem of
       None \<Rightarrow> Some (Inl (- EAGAIN), s)
     | Some (tm, t) \<Rightarrow>
         if clk \<noteq> CLOCK_REALTIME then Some (Inl (- EINVAL), s\<lparr>timers := (timers s)(tm \<mapsto> t)\<rparr>)
         else do {
           (i, tid') \<leftarrow> alloc_timerid (ids s);
           let t = t\<lparr>timer_id := i, clkid := clk, tm_flag := flags, tm_owner := current s\<rparr>;
           let t = (case sig of
                      None \<Rightarrow> if flags = TM_TIMER
                              then t\<lparr>sigv := \<lparr>sigev_notify = SIGEV_SIGNAL, sigev_signo = SIGALRM, sigev_value = i\<rparr>\<rparr>
                              else t
                    | Some e \<Rightarrow> t\<lparr>sigv := e\<rparr>);
           p \<leftarrow> procs s (t_proc cth);
           l \<leftarrow> ll_add tm (p_timers p);
           s \<leftarrow> tmhash_insert tm (upd_proc (t_proc cth) (\<lambda>p. p\<lparr>p_timers := l\<rparr>)
                  (s\<lparr>ids := tid', timers := (timers s)(tm \<mapsto> t)\<rparr>));
           Some (Inr tm, s)
         }
   }"

text \<open>The element of the list is read again after \<open>delete_timer\<close> for its link.\<close>

fun exit_timers_loop :: "addr list \<Rightarrow> 'z timestate_scheme \<Rightarrow> 'z timestate_scheme option" where
  "exit_timers_loop [] s = Some s"
| "exit_timers_loop (tm # tms) s = do {
     t \<leftarrow> timers s tm;
     (_, s) \<leftarrow> delete_timer (timer_id t) s;
     _ \<leftarrow> timers s tm;
     exit_timers_loop tms s
   }"

definition exit_timers :: "addr \<Rightarrow> 'z timestate_scheme \<Rightarrow> 'z timestate_scheme option" where
  "exit_timers process s = do { p \<leftarrow> procs s process; exit_timers_loop (p_timers p) s }"

section \<open>The timer interrupt\<close>

text \<open>
  \<open>mems\<close> are the allocations of the signals sent. \<open>thr\<close> is the local variable of that name,
  NULL at first.
\<close>

partial_function (option) check_timeouts :: "sigqueue_t option list \<Rightarrow> addr option \<Rightarrow>
  'z timestate_scheme \<Rightarrow> 'z timestate_scheme option" where
  "check_timeouts mems thr s =
     (if list_isempty (tmlist s) (tlinks s) then Some s
      else do {
        let lentry = last_entry (tmlist s) (tlinks s);
        t0 \<leftarrow> tmo s lentry;
        if t0 \<ge> ticks s then do {
          let (lentry, h) = list_dequeue (tmlist s) (tlinks s);
          let s = s\<lparr>tlinks := h\<rparr>;
          t \<leftarrow> timers s lentry;
          if tm_flag t AND TM_SLEEP \<noteq> 0 then do {
            _ \<leftarrow> threads s (tm_owner t);
            s \<leftarrow> enqueue_thread (tm_owner t) (upd_thread (tm_owner t) (\<lambda>th. th\<lparr>states := THREAD_RUNNING\<rparr>) s);
            (_, s) \<leftarrow> delete_timer (timer_id t) s;
            check_timeouts mems (Some (tm_owner t)) s
          }
          else if tm_flag t AND TM_TIMER \<noteq> 0 then do {
            (mems, s) \<leftarrow> (if sigev_notify (sigv t) = SIGEV_SIGNAL then do {
                            oth \<leftarrow> threads s (tm_owner t);
                            (_, s) \<leftarrow> send_signal_any (case mems of [] \<Rightarrow> None | m # _ \<Rightarrow> m) (t_proc oth)
                                        (sigev_signo (sigv t)) None s;
                            Some (tl mems, s)
                          }
                          else Some (mems, s));
            s \<leftarrow> (if tm_flag t AND TM_ONESHOT \<noteq> 0 then do {
                   (_, s) \<leftarrow> delete_timer (timer_id t) s;
                   a \<leftarrow> thr;
                   ath \<leftarrow> threads s a;
                   _ \<leftarrow> procs s (t_proc ath);
                   Some (upd_proc (t_proc ath) (\<lambda>p. p\<lparr>alarm := None\<rparr>) s)
                 }
                 else Some s);
            t \<leftarrow> timers s lentry;
            if nextarm t = 0 then check_timeouts mems thr s
            else do {
              s \<leftarrow> insert_timer lentry (upd_timer lentry (\<lambda>t. t\<lparr>timeout := timeout t + word_of_int (nextarm t)\<rparr>) s);
              check_timeouts mems thr s
            }
          }
          else check_timeouts mems thr s
        }
        else Some s
      })"

definition timer_int :: "sigqueue_t option list \<Rightarrow> 'z timestate_scheme \<Rightarrow> 'z timestate_scheme option" where
  "timer_int mems s = do {
     s \<leftarrow> check_timeouts mems None (s\<lparr>ticks := ticks s + 1\<rparr>);
     s \<leftarrow> sched_timer s;
     schedule s
   }"

section \<open>Sleeping\<close>

definition timespec_to_tick :: "timespec \<Rightarrow> int" where
  "timespec_to_tick tm = tv_sec tm * HZ + cdiv (cdiv (tv_nsec tm) 1000000) HZ"

text \<open>
  A pointer from the upper half of the address space would count as an error. The product of
  \<open>timespec_to_tick\<close> is a \<^verbatim>\<open>long\<close>.
\<close>

definition do_nsleep :: "(addr \<times> timer_t) option \<Rightarrow> timespec \<Rightarrow> 'z timestate_scheme \<Rightarrow>
  (int \<times> 'z timestate_scheme) option" where
  "do_nsleep mem rqtp s =
     (if tv_sec rqtp = 0 \<and> tv_nsec rqtp = 0 \<or> tv_nsec rqtp < 0 \<or> tv_nsec rqtp > 1000000
      then Some (- EINVAL, s)
      else do {
        let nsecs = timespec_to_tick rqtp;
        check (- (2 ^ 31) \<le> nsecs \<and> nsecs < 2 ^ 31);
        (r, s) \<leftarrow> timer_create mem CLOCK_REALTIME (TM_NOACTION OR TM_SLEEP) None s;
        case r of
          Inl e \<Rightarrow> Some (e, s)
        | Inr tmer \<Rightarrow>
            if 2 ^ 31 \<le> tmer then Some (int tmer - 2 ^ 32, s)
            else do {
              s \<leftarrow> insert_timer tmer (upd_timer tmer (\<lambda>t. t\<lparr>timeout := ticks s + word_of_int nsecs\<rparr>) s);
              s \<leftarrow> remove_thread (current s) (upd_thread (current s) (\<lambda>th. th\<lparr>states := THREAD_INT\<rparr>) s);
              s \<leftarrow> schedule s;
              Some (0, s)
            }
      })"

text \<open>\<open>signal_wait\<close> up to the point where it sleeps, with the value of \<open>err\<close>, and from there on.\<close>

definition signal_wait_sleep :: "(addr \<times> timer_t) option \<Rightarrow> u32 \<Rightarrow> timespec option \<Rightarrow>
  'z timestate_scheme \<Rightarrow> (int \<times> 'z timestate_scheme) option" where
  "signal_wait_sleep mem st tmout s = do {
     p \<leftarrow> cur_proc s;
     case find_queued p st of
       None \<Rightarrow> do { s \<leftarrow> sleep_interruptible (current s) s; Some (- 1, s) }
     | Some _ \<Rightarrow> (case tmout of
          Some ts \<Rightarrow> do_nsleep mem ts s
        | None \<Rightarrow> do { s \<leftarrow> sleep_interruptible (current s) s; Some (- 1, s) })
   }"

definition signal_wait_resume :: "bool \<Rightarrow> int \<Rightarrow> u32 \<Rightarrow> 'z timestate_scheme \<Rightarrow>
  (int \<times> siginfo option \<times> 'z timestate_scheme) option" where
  "signal_wait_resume junk err st s = do {
     th \<leftarrow> cur_thread s;
     p \<leftarrow> cur_proc s;
     case find_queued p st of
       None \<Rightarrow> Some (- EAGAIN, None, s)
     | Some q \<Rightarrow>
         if err < 0 then Some (err, None, s)
         else do {
           let s = upd_proc (t_proc th) (\<lambda>p. p\<lparr>sigqueue := remove1 q (sigqueue p)\<rparr>) s;
           pend \<leftarrow> is_pending junk (current s) s;
           Some (0, Some (sq_info q), if pend then s else upd_thread (current s) (\<lambda>th. th\<lparr>sigpending := 0\<rparr>) s)
         }
   }"

section \<open>Clocks\<close>

definition timer_res :: "int list" where "timer_res = [cdiv 1000000000 HZ, 0]"

definition getresolution :: "int \<Rightarrow> (int \<times> timespec option)" where
  "getresolution clk = (if clk \<noteq> CLOCK_REALTIME then (- EINVAL, None)
     else (0, Some \<lparr>tv_sec = 0, tv_nsec = timer_res ! nat clk\<rparr>))"

definition mktime :: "u32 \<Rightarrow> u32 \<Rightarrow> u32 \<Rightarrow> u32 \<Rightarrow> u32 \<Rightarrow> u32 \<Rightarrow> u32" where
  "mktime seconds minutes hours dom' month year =
     seconds + minutes * 60 + hours * 3600 + dom' * 86400 + (year - 70) * 31536000 +
     ((year - 69) div 4) * 86400 - ((year - 1) div 100) * 86400 + ((year + 299) div 400) * 86400"

text \<open>\<open>usecs\<close> is the time since the last call, from the time stamp counter. The parameter \<open>tm\<close>
  of the source is a local pointer, so that nothing is returned through it.\<close>

definition do_gettime :: "u32 \<Rightarrow> 'z timestate_scheme \<Rightarrow> int \<times> 'z timestate_scheme" where
  "do_gettime usecs s = (
     let ns = tv_nsec (ctime s) + uint (usecs mod 1000000) * 1000;
         sec = tv_sec (ctime s) + uint (usecs div 1000000)
     in (0, s\<lparr>ctime := (if ns \<ge> 1000000000
                  then \<lparr>tv_sec = sec + cdiv sec 1000000000, tv_nsec = cmod ns 1000000000\<rparr>
                  else \<lparr>tv_sec = sec, tv_nsec = ns\<rparr>)\<rparr>))"

definition do_settime :: "timespec \<Rightarrow> 'z timestate_scheme \<Rightarrow> 'z timestate_scheme" where
  "do_settime tm s = s\<lparr>ctime := tm\<rparr>"

text \<open>\<open>junk\<close> is the uninitialised structure of the caller.\<close>

definition syscall_gettime :: "timespec \<Rightarrow> u32 \<Rightarrow> int \<Rightarrow> 'z timestate_scheme \<Rightarrow>
  int \<times> timespec option \<times> 'z timestate_scheme" where
  "syscall_gettime junk usecs ebx s =
     (if ebx \<noteq> CLOCK_REALTIME then (- EINVAL, None, s)
      else (tv_sec junk, Some junk, snd (do_gettime usecs s)))"

definition syscall_settime :: "timespec \<Rightarrow> int \<Rightarrow> 'z timestate_scheme \<Rightarrow> int \<times> 'z timestate_scheme" where
  "syscall_settime tm edx s = (if edx \<noteq> CLOCK_REALTIME then (- EINVAL, s) else (0, do_settime tm s))"

text \<open>The timeout of the alarm is read before the pointer to it is tested, and the rest of the
  function runs only when the pointer is NULL.\<close>

definition syscall_alarm :: "'z timestate_scheme \<Rightarrow> (u32 \<times> 'z timestate_scheme) option" where
  "syscall_alarm s = do {
     p \<leftarrow> cur_proc s;
     a \<leftarrow> alarm p;
     t \<leftarrow> timers s a;
     Some ((ucast (timeout t - ticks s) :: u32) div 1000000000, s)
   }"

definition syscall_timer_create :: "(addr \<times> timer_t) option \<Rightarrow> int \<Rightarrow> sigevent_t \<Rightarrow> 'z timestate_scheme \<Rightarrow>
  (int \<times> 'z timestate_scheme) option" where
  "syscall_timer_create mem clk evp s = do {
     (r, s) \<leftarrow> timer_create mem clk TM_TIMER (Some evp) s;
     case r of
       Inl e \<Rightarrow> Some (e, s)
     | Inr tm \<Rightarrow> if 2 ^ 31 \<le> tm then Some (int tm - 2 ^ 32, s)
                 else do { t \<leftarrow> timers s tm; Some (timer_id t, s) }
   }"

definition syscall_timer_delete :: "int \<Rightarrow> 'z timestate_scheme \<Rightarrow> (int \<times> 'z timestate_scheme) option" where
  "syscall_timer_delete k s = delete_timer k s"

text \<open>\<open>tick_to_timespec\<close> is empty, so that zero times are copied out.\<close>

definition syscall_get_timer :: "int \<Rightarrow> 'z timestate_scheme \<Rightarrow> (int \<times> (timespec \<times> timespec) option) option" where
  "syscall_get_timer k s = do {
     r \<leftarrow> timer_by_id k s;
     case r of
       None \<Rightarrow> Some (- EINVAL, None)
     | Some tm \<Rightarrow> do {
         _ \<leftarrow> timers s tm;
         Some (0, Some (\<lparr>tv_sec = 0, tv_nsec = 0\<rparr>, \<lparr>tv_sec = 0, tv_nsec = 0\<rparr>))
       }
   }"

section \<open>Lemmas\<close>

lemma time_simps [simp]:
  "timers (upd_thread t f s) = timers s" "tlinks (upd_thread t f s) = tlinks s"
  "tmlist (upd_thread t f s) = tmlist s" "tmhash (upd_thread t f s) = tmhash s"
  "ticks (upd_thread t f s) = ticks s"
  "timers (upd_proc p g s) = timers s" "tlinks (upd_proc p g s) = tlinks s"
  "tmlist (upd_proc p g s) = tmlist s" "tmhash (upd_proc p g s) = tmhash s"
  "ticks (upd_proc p g s) = ticks s"
  by (simp_all add: upd_thread_def upd_proc_def)

lemma rq_inv_tlinks [simp]: "rq_inv (s\<lparr>tlinks := h\<rparr>) \<longleftrightarrow> rq_inv s"
  by (simp add: rq_inv_def)

text \<open>A loop through an item that is its own successor does not end.\<close>

lemma timer_place_stuck:
  assumes "tmos tm = Some t'" "t < t'" "nx tm = tm"
  shows "timer_place tmos nx t tm = None"
proof -
  have "\<not> (tmos tm = Some t' \<and> t < t' \<and> nx tm = tm)" if "timer_place tmos nx t tm = Some r" for r
    by (rule timer_place.raw_induct [of "\<lambda>tmos nx t tm r. \<not> (tmos tm = Some t' \<and> t < t' \<and> nx tm = tm)", OF _ that])
      (auto simp: bind_Some split: if_splits)
  then show ?thesis using assms by (cases "timer_place tmos nx t tm") auto
qed

text \<open>C39. Arming the first timer breaks the ring of timers: \<open>insert_timer\<close> enqueues it and then
  inserts it again behind the head, which makes it its own successor. From then on arming a
  timer that is due earlier does not return.\<close>

theorem insert_timer_first_breaks_ring:
  assumes "list_isempty (tmlist s) (tlinks s)" "timers s item = Some t" "item \<noteq> tmlist s"
  shows "\<exists>s'. insert_timer item s = Some s' \<and> lnext (tlinks s') (tmlist s) = item \<and>
    lnext (tlinks s') item = item \<and>
    (\<forall>item2 t2. timers s' item2 = Some t2 \<and> timeout t2 < timeout t \<longrightarrow> insert_timer item2 s' = None)"
proof -
  let ?head = "tmlist s"
  let ?h = "list_enqueue ?head item (tlinks s)"
  have h: "lnext ?h ?head = item" "lprev ?h item = ?head"
    using assms(1,3) by (simp_all add: list_enqueue_def list_isempty_def Let_def)
  have "timer_place (tmo s) (lnext ?h) (timeout t) item = Some item"
    using assms(2,3) by (subst timer_place.simps) (simp add: tmo_def)
  then have run: "insert_timer item s = Some (s\<lparr>tlinks := list_add_next ?head item ?h\<rparr>)"
    using assms(1,2) h by (simp add: insert_timer_def Let_def)
  let ?s = "s\<lparr>tlinks := list_add_next ?head item ?h\<rparr>"
  have self: "lnext (tlinks ?s) ?head = item" "lnext (tlinks ?s) item = item"
    using h assms(3) by (simp_all add: list_add_next_def Let_def)
  have "insert_timer item2 ?s = None" if "timers ?s item2 = Some t2" "timeout t2 < timeout t" for item2 t2
  proof -
    have "timer_place (tmo ?s) (lnext (tlinks ?s)) (timeout t2) item = None"
      using self(2) assms(2,3) that(2) by (intro timer_place_stuck [of _ _ "timeout t"]) (auto simp: tmo_def)
    moreover have "\<not> list_isempty (tmlist ?s) (tlinks ?s)"
      using self(1) assms(3) unfolding list_isempty_def by simp
    ultimately show ?thesis using that(1) self(1) by (simp add: insert_timer_def)
  qed
  then show ?thesis using run self by blast
qed

text \<open>A kernel with a sleeping thread 3, a timer for it at 32, and no armed timer.\<close>

definition timer0 :: timer_t where
  "timer0 = \<lparr>timeout = 0, nextarm = 0, sigv = \<lparr>sigev_notify = 0, sigev_signo = 0, sigev_value = 0\<rparr>,
     tm_owner = 0, tm_flag = 0, clkid = 0, timer_id = 0, tm_next = 0\<rparr>"

definition time_ex :: timestate where
  "time_ex = syncstate.extend
     (sync_ex\<lparr>threads := (threads thread_ex)(3 \<mapsto> thread0\<lparr>tid := 502, t_proc := 7, priority_stat := 40,
        priority_dyn := 40, states := THREAD_INT\<rparr>)\<rparr>)
     (timestate.fields
        [32 \<mapsto> timer0\<lparr>timeout := 100, tm_owner := 3, tm_flag := TM_SLEEP, timer_id := 1\<rparr>, 1060 \<mapsto> timer0]
        \<lparr>lnext = id, lprev = id\<rparr> 30 1000 7 \<lparr>tv_sec = 0, tv_nsec = 0\<rparr>)"

lemma time_ex_simps:
  "threads time_ex = (threads thread_ex)(3 \<mapsto> thread0\<lparr>tid := 502, t_proc := 7, priority_stat := 40,
     priority_dyn := 40, states := THREAD_INT\<rparr>)"
  "timers time_ex = [32 \<mapsto> timer0\<lparr>timeout := 100, tm_owner := 3, tm_flag := TM_SLEEP, timer_id := 1\<rparr>, 1060 \<mapsto> timer0]"
  "tlinks time_ex = \<lparr>lnext = id, lprev = id\<rparr>" "tmlist time_ex = 30" "tmhash time_ex = 1000" "ticks time_ex = 7"
  "rq time_ex = rq thread_ex"
  by (simp_all add: time_ex_def kstate.defs syncstate.defs timestate.defs sync_ex_def)

theorem insert_timer_first_breaks_ring_witness:
  "\<exists>s'. insert_timer 32 time_ex = Some s' \<and> lnext (tlinks s') 32 = 32"
  using insert_timer_first_breaks_ring [of time_ex 32]
  by (auto simp: time_ex_simps list_isempty_def)

text \<open>A timer is not found by its number when its bucket is a zeroed structure, which is what
  every bucket inside the page of the table stays.\<close>

lemma timer_by_id_lost:
  assumes "timers s (tm_bucket k s) = Some z" "timer_id z \<noteq> k" "tm_next z = 0"
  shows "timer_by_id k s = Some None" "delete_timer k s = Some (- 1, s)"
  using assms by (simp_all add: timer_by_id_def delete_timer_def timer_walk.simps)

text \<open>C38. The test for expired timers is the wrong way round. With one armed timer of a sleeping
  thread, \<open>check_timeouts\<close> does nothing once the time of the timer has passed; as long as the
  time has not come it disarms the timer, makes the thread running and puts it in the run queue.
  The timer is not freed, because \<open>delete_timer\<close> does not find it.\<close>

theorem check_timeouts_before_time:
  assumes "lnext (tlinks s) (tmlist s) = item" "lprev (tlinks s) (tmlist s) = item"
    "lprev (tlinks s) item = tmlist s" "item \<noteq> tmlist s" "timers s item = Some t"
    "tm_flag t AND TM_SLEEP \<noteq> 0" "threads s (tm_owner t) = Some th" "rq_inv s"
    "\<not> on_runq (tm_owner t) s" "0 \<le> priority_dyn th" "priority_dyn th \<le> PRIO_RT_MAX"
    "timers s (tm_bucket (timer_id t) s) = Some z" "timer_id z \<noteq> timer_id t" "tm_next z = 0"
  shows "(timeout t < ticks s \<longrightarrow> check_timeouts mems thr s = Some s) \<and>
    (ticks s \<le> timeout t \<longrightarrow> (\<exists>s'. check_timeouts mems thr s = Some s' \<and>
       list_isempty (tmlist s') (tlinks s') \<and> on_runq (tm_owner t) s' \<and> rq_inv s' \<and>
       threads s' (tm_owner t) = Some (th\<lparr>states := THREAD_RUNNING\<rparr>) \<and> timers s' = timers s))"
proof -
  have ne: "\<not> list_isempty (tmlist s) (tlinks s)" and tmo: "tmo s item = Some (timeout t)"
    using assms(1,4,5) by (auto simp: list_isempty_def tmo_def)
  have le: "last_entry (tmlist s) (tlinks s) = item" using assms(2) by (simp add: last_entry_def)
  have past: "check_timeouts mems thr s = Some s" if "timeout t < ticks s"
  proof -
    have "\<not> ticks s \<le> timeout t" using that by simp
    then show ?thesis by (subst check_timeouts.simps) (simp only: ne le tmo bind.bind_lunit Let_def if_False)
  qed
  obtain h where h: "list_dequeue (tmlist s) (tlinks s) = (item, h)" "list_isempty (tmlist s) h"
    using assms(2-4) by (simp add: list_dequeue_def list_isempty_def Let_def)
  let ?o = "tm_owner t"
  let ?s1 = "upd_thread ?o (\<lambda>th. th\<lparr>states := THREAD_RUNNING\<rparr>) (s\<lparr>tlinks := h\<rparr>)"
  have inv: "rq_inv ?s1" "\<not> on_runq ?o ?s1" "threads ?s1 ?o = Some (th\<lparr>states := THREAD_RUNNING\<rparr>)"
    using assms(7-9) by simp_all
  obtain R where R: "enqueue_thread ?o ?s1 = Some (?s1\<lparr>rq := R\<rparr>)" "rq_inv (?s1\<lparr>rq := R\<rparr>)" "queued R ?o"
    using enqueue_thread_ok [OF inv(1,3) _ _ inv(2)] assms(10,11) by auto
  let ?s2 = "?s1\<lparr>rq := R\<rparr>"
  have del: "delete_timer (timer_id t) ?s2 = Some (- 1, ?s2)"
    using assms(12-14) by (intro timer_by_id_lost(2) [of _ _ z]) (simp_all add: tm_bucket_def)
  have fin: "check_timeouts mems (Some ?o) ?s2 = Some ?s2"
    using h(2) by (subst check_timeouts.simps) simp
  have "check_timeouts mems thr s = Some ?s2" if "ticks s \<le> timeout t"
    using that assms(5-7) R(1) del fin
    by (subst check_timeouts.simps) (simp add: ne le tmo h(1))
  moreover have "list_isempty (tmlist ?s2) (tlinks ?s2)" "on_runq ?o ?s2" "rq_inv ?s2"
    "threads ?s2 ?o = Some (th\<lparr>states := THREAD_RUNNING\<rparr>)" "timers ?s2 = timers s"
    using h(2) R(2,3) inv(3) by simp_all
  ultimately show ?thesis using past by blast
qed

theorem check_timeouts_before_time_witness:
  "\<exists>s1 s'. insert_timer 32 time_ex = Some s1 \<and> check_timeouts [] None s1 = Some s' \<and> on_runq 3 s'"
proof -
  obtain s1 where s1: "insert_timer 32 time_ex = Some s1" "s1 = time_ex\<lparr>tlinks := tlinks s1\<rparr>"
    "lnext (tlinks s1) 30 = 32" "lprev (tlinks s1) 30 = 32" "lprev (tlinks s1) 32 = 30"
    using timer_place.simps [of "tmo time_ex" _ 100 32]
    by (simp add: insert_timer_def time_ex_simps list_isempty_def list_enqueue_def list_add_next_def Let_def
        tmo_def)
  have f: "tmlist s1 = 30" "timers s1 = timers time_ex" "threads s1 = threads time_ex" "rq s1 = rq thread_ex"
    "ticks s1 = 7" "tmhash s1 = 1000"
    using time_ex_simps by (subst s1(2), simp)+
  have off: "\<not> on_runq 3 s1"
    unfolding f queued_iff by (auto simp: thread_ex_def sched_ex_def MAXQ_def nth_list_update split: if_splits)
  have "t \<noteq> 3" if "i < 32" "t \<in> set (run (rq thread_ex) ! i)" for i t
    using off that unfolding f queued_iff rq_invD(1) [OF thread_ex_rq(1)] by metis
  then have inv: "rq_inv s1"
    using thread_ex_rq(1) unfolding rq_inv_def f time_ex_simps by auto
  have hash: "tm_bucket 1 s1 = 1060" by (simp add: tm_bucket_def f TIMER_SIZE_def) code_simp
  let ?t = "timer0\<lparr>timeout := 100, tm_owner := 3, tm_flag := TM_SLEEP, timer_id := 1\<rparr>"
  let ?th = "thread0\<lparr>tid := 502, t_proc := 7, priority_stat := 40, priority_dyn := 40, states := THREAD_INT\<rparr>"
  have "timers s1 32 = Some ?t" "timers s1 (tm_bucket (timer_id ?t) s1) = Some timer0" "threads s1 3 = Some ?th"
    by (simp_all add: f time_ex_simps hash)
  then show ?thesis
    using check_timeouts_before_time [of s1 32 ?t ?th timer0 "[]" None] s1 f(1,5) inv off
    by (auto simp: timer0_def TM_SLEEP_def thread0_def PRIO_RT_MAX_def)
qed

end
