(* ===== verification/Fd.thy ===== *)
theory Fd
  imports KThread
begin

text \<open>
  File descriptors: \<^verbatim>\<open>src/microkernel/kernel/fd.c\<close> and the system calls of
  \<^verbatim>\<open>src/microkernel/arch/i386/syscall.c\<close> that use them. The descriptor table of a
  process holds pointers to open files (\<open>files\<close> of the kernel state), the first 32 in the
  process itself and the others in a page of its own (\<open>ftables\<close>).

  The result of an allocation is an argument: the address of the new file with its contents, or
  \<open>None\<close>. \<open>junk\<close> is the value \<^verbatim>\<open>bsfl\<close> leaves in its register when no bit is
  clear.
\<close>

definition MAX_DEF_FD :: nat where "MAX_DEF_FD = 32"

definition upd_fd :: "addr \<Rightarrow> (fd_t \<Rightarrow> fd_t) \<Rightarrow> 'z kstate_scheme \<Rightarrow> 'z kstate_scheme" where
  "upd_fd p f s = upd_proc p (\<lambda>q. q\<lparr>p_fd := f (p_fd q)\<rparr>) s"

definition fd_of :: "addr \<Rightarrow> 'z kstate_scheme \<Rightarrow> fd_t option" where
  "fd_of p s = map_option p_fd (procs s p)"

definition new_file :: "(addr \<times> file_t) option \<Rightarrow> 'z kstate_scheme \<Rightarrow> addr \<times> 'z kstate_scheme" where
  "new_file mem s = (case mem of
     None \<Rightarrow> (0, s)
   | Some (a, f) \<Rightarrow> (a, s\<lparr>files := (files s)(a \<mapsto> f)\<rparr>))"

definition free_file :: "addr \<Rightarrow> 'z kstate_scheme \<Rightarrow> 'z kstate_scheme option" where
  "free_file a s = do { _ \<leftarrow> files s a; Some (s\<lparr>files := (files s)(a := None)\<rparr>) }"

section \<open>Copying and freeing tables\<close>

text \<open>
  \<open>fd_copies\<close> copies the open files of a list of pointers, one allocation for each pointer that
  is not null; the copies are not stored anywhere. The result is the error code, if any.
\<close>

fun fd_copies :: "addr list \<Rightarrow> addr option list \<Rightarrow> 'z kstate_scheme \<Rightarrow>
  (int option \<times> addr option list \<times> 'z kstate_scheme) option" where
  "fd_copies [] mems s = Some (None, mems, s)"
| "fd_copies (ptr # ptrs) mems s =
     (if ptr = 0 then fd_copies ptrs mems s
      else case mems of
        Some cfile # mems \<Rightarrow> do {
          pfile \<leftarrow> files s ptr;
          fd_copies ptrs mems (s\<lparr>files := (files s)(cfile \<mapsto> pfile)\<rparr>)
        }
      | _ \<Rightarrow> Some (Some (- ENOMEM), mems, s))"

definition fd_fork :: "addr option list \<Rightarrow> addr \<Rightarrow> addr \<Rightarrow> 'z kstate_scheme \<Rightarrow>
  (int \<times> 'z kstate_scheme) option" where
  "fd_fork mems chld par s = do {
     _ \<leftarrow> procs s chld;
     fd \<leftarrow> fd_of par s;
     check (length (fileptr fd) = MAX_DEF_FD + 1);
     let most = fd_max fd - int MAX_DEF_FD;
     (err, mems, s) \<leftarrow> fd_copies (take MAX_DEF_FD (fileptr fd)) mems s;
     case err of
       Some e \<Rightarrow> Some (e, s)
     | None \<Rightarrow>
         if fileptr fd ! MAX_DEF_FD = 0 then Some (0, s)
         else do {
           tab \<leftarrow> ftables s (fileptr fd ! MAX_DEF_FD);
           check (most \<le> int (length tab));
           (err, mems, s) \<leftarrow> fd_copies (take (nat most) tab) mems s;
           Some (case err of Some e \<Rightarrow> e | None \<Rightarrow> 0, s)
         }
   }"

fun free_files :: "addr list \<Rightarrow> 'z kstate_scheme \<Rightarrow> 'z kstate_scheme option" where
  "free_files [] s = Some s"
| "free_files (ptr # ptrs) s =
     (if ptr = 0 then free_files ptrs s
      else do { s \<leftarrow> free_file ptr s; free_files ptrs s })"

text \<open>With no further table the loop over it does not run unless \<open>fd_max\<close> is above 32.\<close>

definition fd_free :: "addr \<Rightarrow> 'z kstate_scheme \<Rightarrow> 'z kstate_scheme option" where
  "fd_free p s = do {
     fd \<leftarrow> fd_of p s;
     check (length (fileptr fd) = MAX_DEF_FD + 1);
     let most = fd_max fd - int MAX_DEF_FD;
     s \<leftarrow> free_files (take MAX_DEF_FD (fileptr fd)) s;
     let table = fileptr fd ! MAX_DEF_FD;
     s \<leftarrow> (if 0 < most then do {
            tab \<leftarrow> ftables s table;
            check (most \<le> int (length tab));
            free_files (take (nat most) tab) s
          }
          else Some s);
     Some (s\<lparr>ftables := (ftables s)(table := None)\<rparr>)
   }"

section \<open>Allocating and freeing a descriptor\<close>

fun first_null :: "addr list \<Rightarrow> nat \<Rightarrow> nat \<Rightarrow> nat option option" where
  "first_null tab i 0 = Some None"
| "first_null tab i (Suc n) = do {
     t1 \<leftarrow> aget tab i;
     if t1 = 0 then Some (Some i) else first_null tab (i + 1) n
   }"

definition alloc_fdesc :: "int \<Rightarrow> (addr \<times> file_t) option \<Rightarrow> addr \<Rightarrow> 'z kstate_scheme \<Rightarrow>
  (int \<times> 'z kstate_scheme) option" where
  "alloc_fdesc junk mem p s = do {
     fd \<leftarrow> fd_of p s;
     let desc = (case ffc (fd_bitmap fd) of Some i \<Rightarrow> int i | None \<Rightarrow> junk);
     if desc < int MAX_DEF_FD \<and> desc \<ge> 0 then do {
       bm \<leftarrow> set_bit_k (fd_bitmap fd) (nat desc);
       let (newfd, s) = new_file mem s;
       ptrs \<leftarrow> aput (fileptr fd) (nat desc) newfd;
       Some (desc, upd_fd p (\<lambda>fd. fd\<lparr>fd_bitmap := bm, fileptr := ptrs\<rparr>) s)
     }
     else if fd_max fd \<le> int MAX_DEF_FD then Some (- 1, s)
     else do {
       table \<leftarrow> aget (fileptr fd) MAX_DEF_FD;
       if table = 0 then Some (- 1, s)
       else do {
         tab \<leftarrow> ftables s table;
         check (0 \<le> fd_hint fd);
         h \<leftarrow> aget tab (nat (fd_hint fd));
         r \<leftarrow> (if h = 0 then Some (Some (nat (fd_hint fd))) else first_null tab 0 (nat (fd_max fd)));
         case r of
           None \<Rightarrow> Some (- 1, s)
         | Some i \<Rightarrow> do {
             let (newfd, s) = new_file mem s;
             tab \<leftarrow> aput tab i newfd;
             Some (int i + int MAX_DEF_FD,
               upd_fd p (\<lambda>fd. fd\<lparr>fd_hint := int i + 1\<rparr>) (s\<lparr>ftables := (ftables s)(table \<mapsto> tab)\<rparr>))
           }
       }
     }
   }"

definition free_fdesc :: "addr \<Rightarrow> int \<Rightarrow> 'z kstate_scheme \<Rightarrow> (int \<times> 'z kstate_scheme) option" where
  "free_fdesc p desc s = do {
     fd \<leftarrow> fd_of p s;
     if desc < 0 \<or> desc > fd_max fd then Some (- 1, s)
     else do {
       let s = upd_fd p (\<lambda>fd. fd\<lparr>fd_hint := desc\<rparr>) s;
       if desc < int MAX_DEF_FD then do {
         bm \<leftarrow> clear_bit_k (fd_bitmap fd) (nat desc);
         ptr \<leftarrow> aget (fileptr fd) (nat desc);
         s \<leftarrow> free_file ptr s;
         Some (0, upd_fd p (\<lambda>fd. fd\<lparr>fd_bitmap := bm\<rparr>) s)
       }
       else do {
         table \<leftarrow> aget (fileptr fd) MAX_DEF_FD;
         tab \<leftarrow> ftables s table;
         ptr \<leftarrow> aget tab (nat desc - MAX_DEF_FD);
         s \<leftarrow> free_file ptr s;
         Some (0, s)
       }
     }
   }"

definition grow_fd :: "addr option \<Rightarrow> addr \<Rightarrow> int \<Rightarrow> 'z kstate_scheme \<Rightarrow> (int \<times> 'z kstate_scheme) option" where
  "grow_fd mem p fdmax s =
     (if fdmax \<le> int MAX_DEF_FD then Some (0, s)
      else case mem of
        None \<Rightarrow> Some (- ENOMEM, s)
      | Some ptr \<Rightarrow> do {
          fd \<leftarrow> fd_of p s;
          ptrs \<leftarrow> aput (fileptr fd) MAX_DEF_FD ptr;
          Some (0, upd_fd p (\<lambda>fd. fd\<lparr>fileptr := ptrs, fd_max := fdmax\<rparr>)
            (s\<lparr>ftables := (ftables s)(ptr \<mapsto> replicate 1024 0)\<rparr>))
        })"

text \<open>
  For descriptors from 32 on the first pointer is read at \<open>fd1\<close> itself. \<open>table\<close> is still NULL
  when it is indexed, so that the search of the further table faults.
\<close>

definition syscall_dup :: "int \<Rightarrow> int \<Rightarrow> int \<Rightarrow> 'z kstate_scheme \<Rightarrow> (int \<times> 'z kstate_scheme) option" where
  "syscall_dup junk fd1 fd2 s = do {
     th \<leftarrow> cur_thread s;
     fd \<leftarrow> fd_of (t_proc th) s;
     if fd1 < 0 \<or> fd1 > fd_max fd then Some (- EBADF, s)
     else if fd2 < 0 \<or> fd2 > fd_max fd then Some (- EBADF, s)
     else do {
       ptr \<leftarrow> aget (fileptr fd) (nat fd1);
       ptr \<leftarrow> (if fd1 < int MAX_DEF_FD then Some ptr
              else do { tab \<leftarrow> ftables s ptr; aget tab (nat fd1 - MAX_DEF_FD) });
       if ptr = 0 then Some (- EBADF, s)
       else do {
         let desc = (case ffc (fd_bitmap fd) of Some i \<Rightarrow> int i | None \<Rightarrow> junk);
         if desc < int MAX_DEF_FD \<and> desc \<ge> 0 then do {
           bm \<leftarrow> set_bit_k (fd_bitmap fd) (nat desc);
           ptrs \<leftarrow> aput (fileptr fd) (nat desc) ptr;
           Some (desc, upd_fd (t_proc th) (\<lambda>fd. fd\<lparr>fd_bitmap := bm, fileptr := ptrs\<rparr>) s)
         }
         else if fd_max fd \<le> int MAX_DEF_FD then Some (- 1, s)
         else None
       }
     }
   }"

section \<open>System calls of the file server\<close>

text \<open>
  \<open>file_at\<close> is the open file the two calls transfer; \<open>ufile\<close> is the structure at the user
  address in \<^verbatim>\<open>edx\<close>, if any, and the file returned by \<open>syscall_fd_free\<close> is the
  one copied there.
\<close>

definition file_at :: "addr \<Rightarrow> int \<Rightarrow> 'z kstate_scheme \<Rightarrow> addr option" where
  "file_at p desc s = do {
     fd \<leftarrow> fd_of p s;
     if desc < int MAX_DEF_FD then do { check (0 \<le> desc); aget (fileptr fd) (nat desc) }
     else do {
       ptr \<leftarrow> aget (fileptr fd) MAX_DEF_FD;
       tab \<leftarrow> ftables s ptr;
       aget tab (nat desc - MAX_DEF_FD)
     }
   }"

definition syscall_fd_alloc :: "int \<Rightarrow> (addr \<times> file_t) option \<Rightarrow> int \<Rightarrow> int \<Rightarrow> file_t option \<Rightarrow>
  'z kstate_scheme \<Rightarrow> (int \<times> 'z kstate_scheme) option" where
  "syscall_fd_alloc junk mem ebx flag ufile s = do {
     su \<leftarrow> superuser s;
     if \<not> su then Some (- EPERM, s)
     else if ebx = 0 then Some (- EINVAL, s)
     else do {
       r \<leftarrow> find_by_tid ebx s;
       case r of
         None \<Rightarrow> Some (- EINVAL, s)
       | Some t \<Rightarrow> do {
           th \<leftarrow> threads s t;
           _ \<leftarrow> procs s (t_proc th);
           (desc, s) \<leftarrow> (if flag < 0 then alloc_fdesc junk mem (t_proc th) s else Some (0, s));
           case ufile of
             None \<Rightarrow> Some (desc, s)
           | Some f \<Rightarrow> do {
               a \<leftarrow> file_at (t_proc th) desc s;
               _ \<leftarrow> files s a;
               Some (desc, s\<lparr>files := (files s)(a \<mapsto> f)\<rparr>)
             }
         }
     }
   }"

definition syscall_fd_free :: "int \<Rightarrow> int \<Rightarrow> bool \<Rightarrow> 'z kstate_scheme \<Rightarrow>
  (int \<times> file_t option \<times> 'z kstate_scheme) option" where
  "syscall_fd_free ebx desc want s = do {
     su \<leftarrow> superuser s;
     if \<not> su then Some (- EPERM, None, s)
     else if ebx = 0 then Some (- EINVAL, None, s)
     else do {
       r \<leftarrow> find_by_tid ebx s;
       case r of
         None \<Rightarrow> Some (- EINVAL, None, s)
       | Some t \<Rightarrow> do {
           th \<leftarrow> threads s t;
           _ \<leftarrow> procs s (t_proc th);
           (_, s) \<leftarrow> (if desc < 0 then free_fdesc (t_proc th) desc s else Some (0, s));
           if \<not> want then Some (desc, None, s)
           else do {
             a \<leftarrow> file_at (t_proc th) desc s;
             f \<leftarrow> files s a;
             Some (desc, Some f, s)
           }
         }
     }
   }"

section \<open>Properties\<close>

lemma fd_of_upd_fd [simp]:
  "fd_of p (upd_fd p f s) = map_option f (fd_of p s)" "files (upd_fd p f s) = files s"
  "ftables (upd_fd p f s) = ftables s" "fd_of p (files_update g s) = fd_of p s"
  "threads (upd_fd p f s) = threads s" "current (upd_fd p f s) = current s"
  by (simp_all add: fd_of_def upd_fd_def option.map_comp comp_def)

lemma file_at_upd:
  assumes "fd_of p s = Some fd" "length (fileptr fd) = 33" "i < 32"
  shows "file_at p d (upd_fd p (\<lambda>fd'. fd'\<lparr>fd_bitmap := bm, fileptr := (fileptr fd)[i := a]\<rparr>) s) =
    (if d = int i then Some a else file_at p d s)"
  using assms by (auto simp: file_at_def MAX_DEF_FD_def nat_less_iff nth_list_update nat_eq_iff)


text \<open>A process with descriptors 0 and 2 in use.\<close>

definition fd_ex :: kstate where
  "fd_ex = thread_ex\<lparr>procs := [7 \<mapsto> process0\<lparr>p_fd := fd0\<lparr>fd_bitmap := 5, fileptr := [90, 0, 91] @ replicate 30 0\<rparr>\<rparr>],
     files := [90 \<mapsto> \<lparr>f_access = 1, f_offset = 0, f_ref = 1, f_inode = 5, f_device = 1\<rparr>,
               91 \<mapsto> \<lparr>f_access = 1, f_offset = 0, f_ref = 1, f_inode = 6, f_device = 1\<rparr>]\<rparr>"

lemma fd_ex_fd:
  "fd_of 7 fd_ex = Some (fd0\<lparr>fd_bitmap := 5, fileptr := [90, 0, 91] @ replicate 30 0\<rparr>)"
  "cur_thread fd_ex = Some (thread0\<lparr>tid := 500, t_proc := 7, priority_stat := 40, priority_dyn := 40\<rparr>)"
  by (simp_all add: fd_ex_def fd_of_def process0_def thread_ex_def sched_ex_def cur_thread_def)

definition fd_ex_file :: file_t where
  "fd_ex_file = \<lparr>f_access = 1, f_offset = 0, f_ref = 1, f_inode = 9, f_device = 1\<rparr>"


text \<open>Closing a descriptor leaves its pointer in the table. After \<open>free_fdesc\<close> has freed the
  open file of a descriptor below 32, \<open>dup\<close> of the closed descriptor still succeeds, and the
  descriptor it returns refers to the freed file.\<close>

theorem closed_descriptor_dup:
  assumes "cur_thread s = Some th" "fd_of (t_proc th) s = Some fd" "length (fileptr fd) = 33"
    "32 \<le> fd_max fd" "desc < 32" "fileptr fd ! desc = a" "a \<noteq> 0" "files s a \<noteq> None"
  shows "\<exists>s' s'' d. free_fdesc (t_proc th) (int desc) s = Some (0, s') \<and> files s' a = None \<and>
    syscall_dup junk (int desc) 0 s' = Some (int d, s'') \<and> file_at (t_proc th) (int d) s'' = Some a \<and>
    files s'' a = None"
proof -
  let ?p = "t_proc th" and ?bm = "unset_bit desc (fd_bitmap fd)"
  let ?fd = "fd\<lparr>fd_hint := int desc, fd_bitmap := ?bm\<rparr>"
  let ?s' = "upd_fd ?p (\<lambda>fd. fd\<lparr>fd_bitmap := ?bm\<rparr>)
    (files_update (\<lambda>_. (files s)(a := None)) (upd_fd ?p (\<lambda>fd. fd\<lparr>fd_hint := int desc\<rparr>) s))"
  have free: "free_fdesc ?p (int desc) s = Some (0, ?s')"
    using assms by (auto simp: free_fdesc_def MAX_DEF_FD_def free_file_def)
  have s': "fd_of ?p ?s' = Some ?fd" "cur_thread ?s' = Some th" "files ?s' a = None"
    using assms(1,2) by (simp_all add: cur_thread_def)
  obtain d where d: "ffc ?bm = Some d"
    using assms(5) by (cases "ffc ?bm") (auto simp: ffc_None_iff u32_full_iff)
  then have d32: "d < 32" by (simp add: ffc_Some_iff)
  let ?s'' = "upd_fd ?p (\<lambda>fd'. fd'\<lparr>fd_bitmap := set_bit d ?bm, fileptr := (fileptr ?fd)[d := a]\<rparr>) ?s'"
  have "syscall_dup junk (int desc) 0 ?s' = Some (int d, ?s'')"
    using s'(2) d d32 assms(2-7) by (simp add: syscall_dup_def MAX_DEF_FD_def)
  moreover have "file_at ?p (int d) ?s'' = Some a"
    using file_at_upd [OF s'(1), where i = d and d = "int d" and bm = "set_bit d ?bm" and a = a] assms(3) d32 by simp
  moreover have "files ?s'' a = None" using s'(3) by simp
  ultimately show ?thesis using free s'(3) by blast
qed

theorem closed_descriptor_dup_witness:
  "\<exists>s' s'' d. free_fdesc 7 2 fd_ex = Some (0, s') \<and> syscall_dup 0 2 0 s' = Some (int d, s'') \<and>
    file_at 7 (int d) s'' = Some 91 \<and> files s'' 91 = None"
proof -
  have "files fd_ex 91 \<noteq> None" by (simp add: fd_ex_def)
  then show ?thesis
    using closed_descriptor_dup [OF fd_ex_fd(2), of _ 2 91 0] fd_ex_fd(1) by (auto simp: fd0_def)
qed

text \<open>
  The call with which the file server closes a descriptor frees nothing: it calls \<open>free_fdesc\<close>
  only with negative numbers, which are refused.
\<close>

lemma syscall_fd_free_frees_nothing:
  "syscall_fd_free ebx desc want s = Some (r, f, s') \<Longrightarrow> s' = s"
  by (auto simp: syscall_fd_free_def bind_Some free_fdesc_def split: if_splits option.splits)

text \<open>The copies \<open>fd_fork\<close> makes are not put into the table of the child, which stays as it was.\<close>

lemma fd_copies_procs: "fd_copies ptrs mems s = Some (e, mems', s') \<Longrightarrow> procs s' = procs s"
  by (induction ptrs mems s rule: fd_copies.induct) (auto simp: bind_Some split: if_splits list.splits option.splits)

lemma fd_fork_child_unchanged: "fd_fork mems chld par s = Some (r, s') \<Longrightarrow> fd_of chld s' = fd_of chld s"
  by (auto simp: fd_fork_def fd_of_def bind_Some Let_def dest!: fd_copies_procs split: if_splits option.splits)

end
