(* ===== verification/VmPage.thy ===== *)
theory VmPage
  imports KHash KList
begin

unbundle bit_operations_syntax

text \<open>
  Physical pages and memory objects: \<^verbatim>\<open>src/microkernel/mm/vm_page.c\<close> and
  \<^verbatim>\<open>mm/vm_object.c\<close>, with the records of the whole virtual memory system.

  \<open>vmem\<close> is the memory the VM system works on. A page, an object, a map entry, a map and a
  \<open>pmap\<close> is a record found at its address. The list links are cells of \<open>lheap\<close>s, because the
  link is the first field of a page, of an object, of a \<open>pmap\<close> and of a map entry, so that its
  address is the address of the structure: \<open>plinks\<close> holds the links of pages and the heads of
  the lists they are on, \<open>elinks\<close> the links of map entries. The hash chains (\<open>next\<close> of a page) are
  the links of \<open>pagehash\<close>. Reference counts are unbounded integers.

  \<open>frames\<close> is the physical memory as page-table entries: the kernel reads and writes page tables
  at physical addresses, which is what its segments, based at \<open>KERNEL_BASE\<close>, make of them.
\<close>

definition VM_PAGE_READ :: u32 where "VM_PAGE_READ = 1"
definition VM_PAGE_WRITE :: u32 where "VM_PAGE_WRITE = 2"
definition VM_PAGE_EXEC :: u32 where "VM_PAGE_EXEC = 4"
definition VM_PAGE_WIRED :: u16 where "VM_PAGE_WIRED = 16"
definition PAGE_ALLOC_KER :: nat where "PAGE_ALLOC_KER = 1"
definition PAGE_ALLOC_OTH :: nat where "PAGE_ALLOC_OTH = 0"

section \<open>The structures\<close>

record vm_page =
  pg_base :: u32
  pg_object :: addr
  pg_offset :: u32
  pg_count :: int
  pg_flags :: u16

record vn_object =
  vn_fd :: int
  blk_size :: int
  vn_page_size :: u32
  vn_va :: u32
  vn_offset :: u32
  map_type :: u32
  protection :: u32
  vn_size :: u32
  pager_id :: int
  noload_start :: u32
  noload_end :: u32

record vm_object =
  ob_ref :: int
  ob_npages :: int
  ob_size :: u32
  shadow :: "addr option"
  attribute :: u32
  vn :: vn_object

record vm_map_entry =
  en_start :: u32
  en_end :: u32
  en_object :: "addr option"
  en_type :: u16
  en_attr :: u16

record vm_map_struct =
  vmentry :: "addr option"
  m_pmap :: "addr option"
  m_size :: u32
  ref_count :: int
  m_start :: u32
  m_end :: u32
  hint :: "addr option"
  m_private :: u32
  m_attr :: u32

record pmap =
  pdbr :: u32

record vmem =
  pages :: "addr \<Rightarrow> vm_page option"
  objects :: "addr \<Rightarrow> vm_object option"
  ventries :: "addr \<Rightarrow> vm_map_entry option"
  vmaps :: "addr \<Rightarrow> vm_map_struct option"
  pmaps :: "addr \<Rightarrow> pmap option"
  plinks :: lheap
  elinks :: lheap
  pagehash :: htab
  free_page_list :: addr
  nfree_pages :: int
  nfree :: u32
  ntotal :: u32
  page_page :: addr
  vm_page_initialized :: bool
  total_mem :: u32
  used_mem :: u32
  used_ram :: u32
  kernel_object :: addr
  pmap_object :: addr
  kernel_map :: addr
  kernel_vmmap :: addr
  frames :: "u32 \<Rightarrow> nat \<Rightarrow> u32"
  start_va :: u32
  next_frame :: u32
  ending_mem :: u32
  available_mem :: u32

definition upd_page :: "addr \<Rightarrow> (vm_page \<Rightarrow> vm_page) \<Rightarrow> vmem \<Rightarrow> vmem" where
  "upd_page p f s = s\<lparr>pages := (pages s)(p := map_option f (pages s p))\<rparr>"

definition upd_object :: "addr \<Rightarrow> (vm_object \<Rightarrow> vm_object) \<Rightarrow> vmem \<Rightarrow> vmem" where
  "upd_object p f s = s\<lparr>objects := (objects s)(p := map_option f (objects s p))\<rparr>"

section \<open>The free list\<close>

text \<open>
  The comments of \<open>put_to_free_list\<close> and \<open>get_from_free_list\<close> leave the second of the three
  lists as the only one used.
\<close>

definition free_list :: "nat \<Rightarrow> vmem \<Rightarrow> addr" where
  "free_list i s = free_page_list s + 8 * i"

definition put_to_free_list :: "addr \<Rightarrow> vmem \<Rightarrow> vmem" where
  "put_to_free_list page s = s\<lparr>plinks := list_enqueue (free_list PAGE_ALLOC_KER s) page (plinks s)\<rparr>"

definition get_from_free_list :: "vmem \<Rightarrow> addr \<times> vmem" where
  "get_from_free_list s =
     (let (page, h) = list_dequeue (free_list PAGE_ALLOC_KER s) (plinks s) in (page, s\<lparr>plinks := h\<rparr>))"

text \<open>An empty list yields its own head, which is compared with the head of the list asked for.\<close>

definition get_page :: "nat \<Rightarrow> vmem \<Rightarrow> (addr option \<times> vmem) option" where
  "get_page flag s = do {
     check (vm_page_initialized s);
     let (page, s) = get_from_free_list s;
     if page = 0 \<or> page = free_list flag s then Some (None, s)
     else do {
       _ \<leftarrow> pages s page;
       let s = s\<lparr>nfree_pages := nfree_pages s - 1, plinks := list_init page (plinks s),
                 pagehash := (pagehash s)\<lparr>links := (links (pagehash s))(page := None)\<rparr>\<rparr>;
       let s = upd_page page (\<lambda>g. g\<lparr>pg_flags := 0\<rparr>) s;
       let used = total_mem s - of_int (nfree_pages s) * PAGE_SIZE;
       Some (Some page, s\<lparr>used_ram := used, used_mem := used\<rparr>)
     }
   }"

definition put_page :: "addr \<Rightarrow> vmem \<Rightarrow> vmem" where
  "put_page pg s = (
     let s = put_to_free_list pg s;
         used = used_mem s - PAGE_SIZE
     in s\<lparr>used_mem := used, used_ram := used\<rparr>)"

section \<open>The table of pages\<close>

definition page_hash :: "addr \<Rightarrow> u32 \<Rightarrow> nat" where
  "page_hash ob off = (let x = of_nat ob + addr_to_page off in unat ((drop_bit 8 x XOR x) AND (1024 - 1)))"

definition page_key :: "vmem \<Rightarrow> addr \<Rightarrow> (addr \<times> u32) option" where
  "page_key s p = map_option (\<lambda>g. (pg_object g, pg_offset g)) (pages s p)"

definition vm_page_insert :: "addr \<Rightarrow> addr \<Rightarrow> u32 \<Rightarrow> vmem \<Rightarrow> vmem option" where
  "vm_page_insert page ob off s = do {
     _ \<leftarrow> pages s page;
     let s = upd_page page (\<lambda>g. g\<lparr>pg_object := ob, pg_offset := off\<rparr>) s;
     h \<leftarrow> hash_insert (page_hash ob off) page (pagehash s);
     Some (s\<lparr>pagehash := h\<rparr>)
   }"

text \<open>
  The loop of \<open>vm_page_remove\<close> looks for the page itself and not for its predecessor. It then
  stores into the page the link the page already has.
\<close>

partial_function (option) self_walk :: "(addr \<Rightarrow> addr option) \<Rightarrow> addr \<Rightarrow> addr option \<Rightarrow> (addr \<Rightarrow> addr option) option" where
  "self_walk nx page new =
     (case new of
        None \<Rightarrow> Some nx
      | Some a \<Rightarrow> if a = page then Some (nx(a := nx page)) else self_walk nx page (nx a))"

definition vm_page_remove :: "addr \<Rightarrow> vmem \<Rightarrow> vmem option" where
  "vm_page_remove page s = do {
     g \<leftarrow> pages s page;
     let i = page_hash (pg_object g) (pg_offset g);
     first \<leftarrow> aget (heads (pagehash s)) i;
     if first = Some page then do {
       hs \<leftarrow> aput (heads (pagehash s)) i (links (pagehash s) page);
       Some (s\<lparr>pagehash := (pagehash s)\<lparr>heads := hs\<rparr>\<rparr>)
     }
     else do {
       nx \<leftarrow> self_walk (links (pagehash s)) page first;
       Some (s\<lparr>pagehash := (pagehash s)\<lparr>links := nx\<rparr>\<rparr>)
     }
   }"

partial_function (option) page_walk :: "(addr \<Rightarrow> addr option) \<Rightarrow> (addr \<Rightarrow> (addr \<times> u32) option) \<Rightarrow> addr \<Rightarrow> u32 \<Rightarrow>
  addr option \<Rightarrow> addr option option" where
  "page_walk nx key ob off new =
     (case new of
        None \<Rightarrow> Some None
      | Some a \<Rightarrow> do { k' \<leftarrow> key a; if k' = (ob, off) then Some (Some a) else page_walk nx key ob off (nx a) })"

text \<open>The first page of the bucket is looked at before it is known to exist.\<close>

definition page_find :: "htab \<Rightarrow> (addr \<Rightarrow> (addr \<times> u32) option) \<Rightarrow> addr \<times> u32 \<Rightarrow> addr option option" where
  "page_find h key k = do {
     first \<leftarrow> aget (heads h) (page_hash (fst k) (snd k));
     a \<leftarrow> first;
     k' \<leftarrow> key a;
     if k' = k then Some (Some a) else page_walk (links h) key (fst k) (snd k) first
   }"

definition vm_page_lookup :: "addr \<Rightarrow> u32 \<Rightarrow> vmem \<Rightarrow> addr option option" where
  "vm_page_lookup ob off s = page_find (pagehash s) (page_key s) (ob, off)"

section \<open>Objects\<close>

text \<open>\<open>mem\<close> is the memory of the object with what it holds there.\<close>

definition vm_object_create :: "addr \<times> vm_object \<Rightarrow> u32 \<Rightarrow> vmem \<Rightarrow> addr \<times> vmem" where
  "vm_object_create mem sz s =
     (let (ob, old) = mem
      in (ob, s\<lparr>objects := (objects s)(ob \<mapsto> old\<lparr>ob_size := sz, ob_ref := 1, shadow := None\<rparr>),
             plinks := list_init ob (plinks s)\<rparr>))"

text \<open>The loops over the pages of an object, from the first page to the head.\<close>

partial_function (option) wire_walk :: "addr \<Rightarrow> (u16 \<Rightarrow> u16) \<Rightarrow> u32 \<Rightarrow> u32 \<Rightarrow> addr \<Rightarrow> vmem \<Rightarrow> vmem option" where
  "wire_walk ob f start fin page s =
     (if page = ob then Some s
      else do {
        g \<leftarrow> pages s page;
        let s = (if start \<le> pg_offset g \<and> pg_offset g \<le> fin then upd_page page (\<lambda>g. g\<lparr>pg_flags := f (pg_flags g)\<rparr>) s
                 else s);
        wire_walk ob f start fin (lnext (plinks s) page) s
      })"

definition vm_lock_object :: "vm_map_entry \<Rightarrow> vmem \<Rightarrow> vmem option" where
  "vm_lock_object entry s = do {
     ob \<leftarrow> en_object entry;
     _ \<leftarrow> objects s ob;
     wire_walk ob (\<lambda>w. w OR VM_PAGE_WIRED) (en_start entry) (en_end entry) (lnext (plinks s) ob) s
   }"

definition vm_unlock_object :: "vm_map_entry \<Rightarrow> vmem \<Rightarrow> vmem option" where
  "vm_unlock_object entry s = do {
     ob \<leftarrow> en_object entry;
     _ \<leftarrow> objects s ob;
     wire_walk ob (\<lambda>w. w AND NOT VM_PAGE_WIRED) (en_start entry) (en_end entry) (lnext (plinks s) ob) s
   }"

definition page_dealloc :: "addr \<Rightarrow> u32 \<Rightarrow> vmem \<Rightarrow> (int \<times> vmem) option" where
  "page_dealloc ob off s = do {
     r \<leftarrow> vm_page_lookup ob off s;
     case r of
       None \<Rightarrow> Some (- 1, s)
     | Some page \<Rightarrow> do {
         let s = upd_page page (\<lambda>g. g\<lparr>pg_count := pg_count g - 1\<rparr>) s;
         g \<leftarrow> pages s page;
         if pg_count g \<noteq> 0 then Some (0, s)
         else do {
           s \<leftarrow> vm_page_remove page s;
           Some (0, put_page page (s\<lparr>plinks := list_del ob page (plinks s)\<rparr>))
         }
       }
   }"

text \<open>
  \<open>while(offset < end)\<close> in 32-bit arithmetic; with an end above the last page boundary the offset
  wraps to 0 and the loop does not end.
\<close>

partial_function (option) remove_pages_loop :: "addr \<Rightarrow> u32 \<Rightarrow> u32 \<Rightarrow> vmem \<Rightarrow> vmem option" where
  "remove_pages_loop ob off fin s =
     (if off < fin then do {
        (_, s) \<leftarrow> page_dealloc ob off s;
        remove_pages_loop ob (off + PAGE_SIZE) fin s
      }
      else Some s)"

text \<open>\<open>page_base\<close> also changes the start of the entry.\<close>

definition remove_pages :: "addr \<Rightarrow> vmem \<Rightarrow> vmem option" where
  "remove_pages e s = do {
     entry \<leftarrow> ventries s e;
     let off = page_base (en_start entry);
     let s = s\<lparr>ventries := (ventries s)(e \<mapsto> entry\<lparr>en_start := off\<rparr>)\<rparr>;
     ob \<leftarrow> en_object entry;
     remove_pages_loop ob off (en_end entry) s
   }"

text \<open>\<open>free_pages\<close> stops at the first page that has other references.\<close>

partial_function (option) free_pages :: "addr \<Rightarrow> vmem \<Rightarrow> vmem option" where
  "free_pages ob s =
     (if list_isempty ob (plinks s) then Some s
      else do {
        let (page, h) = list_remove ob (plinks s);
        let s = upd_page page (\<lambda>g. g\<lparr>pg_count := pg_count g - 1\<rparr>) (s\<lparr>plinks := h\<rparr>);
        g \<leftarrow> pages s page;
        if pg_count g \<noteq> 0 then Some s
        else do {
          s \<leftarrow> vm_page_remove page s;
          free_pages ob (put_page page s)
        }
      })"

definition delete_object :: "addr \<Rightarrow> vmem \<Rightarrow> vmem option" where
  "delete_object ob s = do {
     let s = upd_object ob (\<lambda>b. b\<lparr>ob_ref := ob_ref b - 1\<rparr>) s;
     b \<leftarrow> objects s ob;
     if ob_ref b = 0 then Some s
     else do {
       s \<leftarrow> free_pages ob s;
       Some (s\<lparr>objects := (objects s)(ob := None)\<rparr>)
     }
   }"

text \<open>\<open>mem\<close> is used when there is no object yet, which then is not handed back to the caller.\<close>

definition page_alloc :: "addr \<times> vm_object \<Rightarrow> addr option \<Rightarrow> u32 \<Rightarrow> vmem \<Rightarrow> (addr \<times> vmem) option" where
  "page_alloc mem object off s = do {
     let (ob, s) = (case object of None \<Rightarrow> vm_object_create mem PAGE_SIZE s | Some ob \<Rightarrow> (ob, s));
     (page, s) \<leftarrow> get_page PAGE_ALLOC_OTH s;
     page \<leftarrow> page;
     _ \<leftarrow> objects s ob;
     s \<leftarrow> vm_page_insert page ob (page_base off) (upd_page page (\<lambda>g. g\<lparr>pg_count := 1\<rparr>) s);
     Some (page, s\<lparr>plinks := list_add ob page (plinks s)\<rparr>)
   }"

definition page_free :: "addr \<Rightarrow> vmem \<Rightarrow> vmem option" where
  "page_free page s = do {
     g \<leftarrow> pages s page;
     s \<leftarrow> vm_page_remove page s;
     Some (put_page page (s\<lparr>plinks := list_del (pg_object g) page (plinks s)\<rparr>))
   }"

text \<open>\<open>junk\<close> is what the array of pages holds where it was not initialised.\<close>

definition create_vm_page :: "vm_page \<Rightarrow> addr \<times> vm_object \<Rightarrow> u32 \<Rightarrow> u32 \<Rightarrow> addr \<Rightarrow> vmem \<Rightarrow> (int \<times> vmem) option" where
  "create_vm_page junk mem pa off e s = do {
     entry \<leftarrow> ventries s e;
     let (ob, s) = (case en_object entry of
           None \<Rightarrow> let (ob, s) = vm_object_create mem PAGE_SIZE s
                   in (ob, s\<lparr>ventries := (ventries s)(e \<mapsto> entry\<lparr>en_object := Some ob\<rparr>)\<rparr>)
         | Some ob \<Rightarrow> (ob, s));
     let s = s\<lparr>nfree := nfree s + 1\<rparr>;
     if nfree s > ntotal s then Some (- 1, s)
     else do {
       let page = page_page s + 36 * unat (nfree s);
       let old = (case pages s page of None \<Rightarrow> junk | Some g \<Rightarrow> g);
       let s = s\<lparr>pages := (pages s)(page \<mapsto> old\<lparr>pg_base := page_base pa, pg_count := 1\<rparr>),
                 pagehash := (pagehash s)\<lparr>links := (links (pagehash s))(page := None)\<rparr>\<rparr>;
       s \<leftarrow> vm_page_insert page ob (page_base off) s;
       Some (0, s\<lparr>plinks := list_add ob page (plinks s)\<rparr>)
     }
   }"

section \<open>The table of pages is a directory\<close>

lemma page_hash_bound [simp]: "page_hash ob off < 1024"
proof -
  have "unat (x AND 0x3FF) < 1024" for x :: u32
    by (rule order.strict_trans1 [OF word_le_nat_alt [THEN iffD1, OF word_and_le1]]) simp
  then show ?thesis by (simp add: page_hash_def Let_def)
qed

lemma page_walk_find:
  assumes "chain nx l (xs @ p # ys)" "\<And>q. q \<in> set xs \<Longrightarrow> \<exists>k'. key q = Some k' \<and> k' \<noteq> (ob, off)" "key p = Some (ob, off)"
  shows "page_walk nx key ob off l = Some (Some p)"
  using assms
proof (induction xs arbitrary: l)
  case Nil
  then show ?case by (simp add: page_walk.simps)
next
  case (Cons x xs)
  obtain k' where "key x = Some k'" "k' \<noteq> (ob, off)" using Cons.prems(2) [of x] by auto
  then show ?case using Cons by (subst page_walk.simps) auto
qed

interpretation ptab: bucket_dir "\<lambda>k. page_hash (fst k) (snd k)" page_find
proof
  show "page_hash (fst k) (snd k) < NWORDS" for k by (simp add: NWORDS_def)
  show "page_find h key k = Some (Some p)"
    if "length (heads h) = NWORDS" and ch: "chain (links h) (heads h ! page_hash (fst k) (snd k)) (xs @ p # ys)"
      and key: "\<And>q. q \<in> set xs \<Longrightarrow> \<exists>k'. key q = Some k' \<and> k' \<noteq> k" "key p = Some k"
    for h k xs p ys key
  proof -
    have w: "page_walk (links h) key (fst k) (snd k) (heads h ! page_hash (fst k) (snd k)) = Some (Some p)"
      by (rule page_walk_find [OF ch]) (use key in auto)
    show ?thesis
    proof (cases xs)
      case Nil
      then show ?thesis using that(1) ch key(2) by (simp add: page_find_def NWORDS_def)
    next
      case (Cons x xs')
      obtain k' where "key x = Some k'" "k' \<noteq> k" using key(1) [of x] Cons by auto
      then show ?thesis using that(1) ch Cons w by (simp add: page_find_def NWORDS_def)
    qed
  qed
qed

section \<open>Well-formed page tables and lists\<close>

text \<open>
  \<open>F\<close> are the free pages, \<open>L ob\<close> the pages of an object, \<open>B\<close> the pages of every bucket of the
  hash table. A page is free, and then in no bucket, or belongs to the object it names, and then
  in the table under that object and its offset.
\<close>

definition vm_inv :: "vmem \<Rightarrow> (nat \<Rightarrow> addr list) \<Rightarrow> addr list \<Rightarrow> (addr \<Rightarrow> addr list) \<Rightarrow> bool" where
  "vm_inv s B F L \<longleftrightarrow> vm_page_initialized s \<and>
     dll (plinks s) (free_list PAGE_ALLOC_KER s) F \<and> (\<forall>ob \<in> dom (objects s). dll (plinks s) ob (L ob)) \<and>
     0 \<notin> dom (pages s) \<and> free_list PAGE_ALLOC_OTH s \<notin> dom (pages s) \<and>
     free_list PAGE_ALLOC_KER s \<notin> dom (objects s) \<and> free_list PAGE_ALLOC_KER s \<notin> dom (pages s) \<and>
     (\<forall>ob \<in> dom (objects s). ob \<notin> dom (pages s)) \<and> (\<forall>p \<in> set F. p \<in> dom (pages s)) \<and>
     (\<forall>p \<in> set F. \<not> in_table p B) \<and> (\<forall>ob \<in> dom (objects s). \<forall>p \<in> set (L ob). in_table p B) \<and>
     (\<forall>ob \<in> dom (objects s). \<forall>p \<in> set (L ob). \<exists>g. pages s p = Some g \<and> pg_object g = ob) \<and>
     htab_rep (pagehash s) B \<and> keyed (\<lambda>k. page_hash (fst k) (snd k)) (page_key s) B"

lemma vm_invD:
  assumes "vm_inv s B F L"
  shows "vm_page_initialized s" "dll (plinks s) (free_list PAGE_ALLOC_KER s) F"
    and "\<And>ob. ob \<in> dom (objects s) \<Longrightarrow> dll (plinks s) ob (L ob)"
    and "0 \<notin> dom (pages s)" "free_list PAGE_ALLOC_OTH s \<notin> dom (pages s)"
      "free_list PAGE_ALLOC_KER s \<notin> dom (objects s)" "free_list PAGE_ALLOC_KER s \<notin> dom (pages s)"
    and "\<And>ob. ob \<in> dom (objects s) \<Longrightarrow> ob \<notin> dom (pages s)"
    and "\<And>p. p \<in> set F \<Longrightarrow> p \<in> dom (pages s)" "\<And>p. p \<in> set F \<Longrightarrow> \<not> in_table p B"
    and "\<And>ob p. ob \<in> dom (objects s) \<Longrightarrow> p \<in> set (L ob) \<Longrightarrow> in_table p B"
    and "\<And>ob p. ob \<in> dom (objects s) \<Longrightarrow> p \<in> set (L ob) \<Longrightarrow> \<exists>g. pages s p = Some g \<and> pg_object g = ob"
    and "htab_rep (pagehash s) B" "keyed (\<lambda>k. page_hash (fst k) (snd k)) (page_key s) B"
  using assms by (simp_all add: vm_inv_def del: not_None_eq)

lemma vm_invI [kinv_intro]:
  assumes "vm_page_initialized s" "dll (plinks s) (free_list PAGE_ALLOC_KER s) F"
    and "\<And>ob. ob \<in> dom (objects s) \<Longrightarrow> dll (plinks s) ob (L ob)"
    and "0 \<notin> dom (pages s)" "free_list PAGE_ALLOC_OTH s \<notin> dom (pages s)"
      "free_list PAGE_ALLOC_KER s \<notin> dom (objects s)" "free_list PAGE_ALLOC_KER s \<notin> dom (pages s)"
    and "\<And>ob. ob \<in> dom (objects s) \<Longrightarrow> ob \<notin> dom (pages s)"
    and "\<And>p. p \<in> set F \<Longrightarrow> p \<in> dom (pages s)" "\<And>p. p \<in> set F \<Longrightarrow> \<not> in_table p B"
    and "\<And>ob p. ob \<in> dom (objects s) \<Longrightarrow> p \<in> set (L ob) \<Longrightarrow> in_table p B"
    and "\<And>ob p. ob \<in> dom (objects s) \<Longrightarrow> p \<in> set (L ob) \<Longrightarrow> \<exists>g. pages s p = Some g \<and> pg_object g = ob"
    and "htab_rep (pagehash s) B" "keyed (\<lambda>k. page_hash (fst k) (snd k)) (page_key s) B"
  shows "vm_inv s B F L"
  unfolding vm_inv_def using assms(1,2,4-7,13,14) assms(3,8,9,10,11,12)
  by (intro conjI ballI) (assumption | blast)+

text \<open>The rings of the free list and of the objects are disjoint.\<close>

lemma vm_inv_rings:
  assumes "vm_inv s B F L" "ob \<in> dom (objects s)"
  shows "set (free_list PAGE_ALLOC_KER s # F) \<inter> set (ob # L ob) = {}"
    and "\<And>ob'. ob' \<in> dom (objects s) \<Longrightarrow> ob' \<noteq> ob \<Longrightarrow> set (ob' # L ob') \<inter> set (ob # L ob) = {}"
proof -
  note I = vm_invD [OF assms(1)]
  have L: "q \<in> dom (pages s)" if "ob \<in> dom (objects s)" "q \<in> set (L ob)" for ob q using I(12) [OF that] by blast
  show "set (free_list PAGE_ALLOC_KER s # F) \<inter> set (ob # L ob) = {}"
    using I(6,7) I(8) [OF assms(2)] I(9,10) I(11) [OF assms(2)] L [OF assms(2)] assms(2) by auto
  show "set (ob' # L ob') \<inter> set (ob # L ob) = {}" if o: "ob' \<in> dom (objects s)" "ob' \<noteq> ob" for ob'
  proof -
    have "q \<notin> set (L ob)" if "q \<in> set (L ob')" for q
      using I(12) [OF o(1) that] I(12) [OF assms(2), of q] o(2) by force
    then show ?thesis using L [OF assms(2)] L [OF o(1)] I(8) [OF assms(2)] I(8) [OF o(1)] o by auto
  qed
qed

lemma vm_inv_find:
  assumes "vm_inv s B F L" "in_table p B" "page_key s p = Some (ob, off)"
  shows "vm_page_lookup ob off s = Some (Some p)"
  unfolding vm_page_lookup_def
  using assms keyed_bucket [of "\<lambda>k. page_hash (fst k) (snd k)" "page_key s" B p "(ob, off)"]
  by (intro ptab.find_member [of _ B]) (auto simp: vm_inv_def)

lemma htab_rep_link: "htab_rep h B \<Longrightarrow> \<not> in_table p B \<Longrightarrow> htab_rep (h\<lparr>links := (links h)(p := v)\<rparr>) B"
  by (auto simp: htab_rep_def in_table_def)

lemma upd_page_simps [simp]:
  "pages (upd_page p f s) = (pages s)(p := map_option f (pages s p))"
  "objects (upd_page p f s) = objects s" "plinks (upd_page p f s) = plinks s"
  "pagehash (upd_page p f s) = pagehash s" "free_page_list (upd_page p f s) = free_page_list s"
  "vm_page_initialized (upd_page p f s) = vm_page_initialized s" "nfree_pages (upd_page p f s) = nfree_pages s"
  "total_mem (upd_page p f s) = total_mem s" "used_mem (upd_page p f s) = used_mem s"
  "ventries (upd_page p f s) = ventries s" "vmaps (upd_page p f s) = vmaps s" "pmaps (upd_page p f s) = pmaps s"
  "frames (upd_page p f s) = frames s" "kernel_map (upd_page p f s) = kernel_map s"
  "kernel_object (upd_page p f s) = kernel_object s" "pmap_object (upd_page p f s) = pmap_object s"
  "elinks (upd_page p f s) = elinks s"
  by (simp_all add: upd_page_def)

lemma free_list_cong: "free_page_list s' = free_page_list s \<Longrightarrow> free_list i s' = free_list i s"
  by (simp add: free_list_def)

text \<open>The oldest free page is taken; it leaves the free list and is on no other.\<close>

lemma get_page_ok:
  assumes inv: "vm_inv s B (F @ [p]) L" and flag: "flag = PAGE_ALLOC_KER \<or> flag = PAGE_ALLOC_OTH"
  obtains s' h u where "get_page flag s = Some (Some p, s')"
    "s' = (upd_page p (\<lambda>g. g\<lparr>pg_flags := 0\<rparr>) s)\<lparr>nfree_pages := nfree_pages s - 1, plinks := h,
       pagehash := (pagehash s)\<lparr>links := (links (pagehash s))(p := None)\<rparr>, used_ram := u, used_mem := u\<rparr>"
    "vm_inv s' B F L" "p \<in> dom (pages s)" "p \<notin> set F" "\<not> in_table p B"
proof -
  note I = vm_invD [OF inv]
  let ?hd = "free_list PAGE_ALLOC_KER s"
  have p: "p \<in> dom (pages s)" "\<not> in_table p B" "p \<noteq> ?hd" "p \<noteq> free_list flag s" "p \<noteq> 0"
    using I(4,5,7,9,10) flag by auto
  have pF: "p \<notin> set F" using I(2) by (auto simp: dll_def)
  note dq = list_dequeue_dll [OF I(2)]
  let ?h = "list_init p (snd (list_dequeue ?hd (plinks s)))"
  have F: "dll ?h ?hd F" using dq pF p(3) by (intro list_init_other) auto
  have L: "dll ?h ob (L ob)" if "ob \<in> dom (objects s)" for ob
    using dll_other(3) [OF I(2) I(3) [OF that] vm_inv_rings(1) [OF inv that]] vm_inv_rings(1) [OF inv that]
    by (intro list_init_other) auto
  let ?u = "total_mem s - of_int (nfree_pages s - 1) * PAGE_SIZE"
  let ?s = "(upd_page p (\<lambda>g. g\<lparr>pg_flags := 0\<rparr>) s)\<lparr>nfree_pages := nfree_pages s - 1, plinks := ?h,
       pagehash := (pagehash s)\<lparr>links := (links (pagehash s))(p := None)\<rparr>, used_ram := ?u, used_mem := ?u\<rparr>"
  have "get_page flag s = Some (Some p, ?s)"
    using p dq I(1) by (auto simp: get_page_def get_from_free_list_def split_beta Let_def free_list_def upd_page_def)
  moreover have key: "page_key ?s = page_key s"
    by (auto simp: page_key_def fun_eq_iff option.map_comp comp_def)
  have dom: "dom (pages ?s) = dom (pages s)" by (auto simp: dom_def)
  have mem: "\<exists>g. pages ?s q = Some g \<and> pg_object g = ob" if "pages s q = Some g" "pg_object g = ob" for q g ob
    using that by (cases "q = p") auto
  have "vm_inv ?s B F L"
    unfolding vm_inv_def key dom
    using I(1,4-11,14) F L htab_rep_link [OF I(13) p(2), of None] mem I(12) by (simp add: free_list_def) blast
  ultimately show ?thesis using that p pF by blast
qed

text \<open>A page that is on no list and in no bucket is entered for an object.\<close>

lemma enter_page_inv:
  assumes inv: "vm_inv s B F L" and p: "pages s p = Some g" "p \<notin> set F" "\<not> in_table p B"
    and ob: "ob \<in> dom (objects s)" and free: "\<And>q. in_table q B \<Longrightarrow> page_key s q \<noteq> Some (ob, off)"
  obtains s' h where "vm_page_insert p ob off (upd_page p (\<lambda>g. g\<lparr>pg_count := 1\<rparr>) s) = Some s'"
    "s' = (upd_page p (\<lambda>g. g\<lparr>pg_count := 1, pg_object := ob, pg_offset := off\<rparr>) s)\<lparr>pagehash := h\<rparr>"
    "vm_inv (s'\<lparr>plinks := list_add ob p (plinks s')\<rparr>) (B(page_hash ob off := p # B (page_hash ob off))) F (L(ob := p # L ob))"
proof -
  note I = vm_invD [OF inv]
  let ?f = "\<lambda>g. g\<lparr>pg_count := 1, pg_object := ob, pg_offset := off\<rparr>"
  let ?s = "upd_page p ?f s"
  let ?B = "B(page_hash ob off := p # B (page_hash ob off))"
  have same: "page_key ?s q = page_key s q" if "in_table q B" for q using that p(3) by (auto simp: page_key_def)
  have kd: "keyed (\<lambda>k. page_hash (fst k) (snd k)) (page_key ?s) B"
    using I(14) keyed_cong [of B "page_key ?s" "page_key s" "\<lambda>k. page_hash (fst k) (snd k)", OF same] by blast
  have kp: "page_key ?s p = Some (ob, off)" using p(1) by (simp add: page_key_def)
  have lt: "page_hash ob off < NWORDS" by (simp add: NWORDS_def)
  have other: "page_key ?s q \<noteq> Some (ob, off)" if "q \<in> set (B (page_hash ob off))" for q
  proof -
    have "in_table q B" using that lt by (auto simp: in_table_def)
    then show ?thesis using free [of q] same [of q] by simp
  qed
  have absent: "\<forall>j<NWORDS. p \<notin> set (B j)" using p(3) by (auto simp: in_table_def)
  obtain h where h: "hash_insert (page_hash ob off) p (pagehash s) = Some h" "htab_rep h ?B"
    "keyed (\<lambda>k. page_hash (fst k) (snd k)) (page_key ?s) ?B" "page_find h (page_key ?s) (ob, off) = Some (Some p)"
    by (rule ptab.find_insert [OF I(13) kd kp _ absent, unfolded fst_conv snd_conv, OF other])
  let ?s1 = "?s\<lparr>pagehash := h\<rparr>"
  have run: "vm_page_insert p ob off (upd_page p (\<lambda>g. g\<lparr>pg_count := 1\<rparr>) s) = Some ?s1"
    using p(1) h(1) by (simp add: vm_page_insert_def Let_def upd_page_def)
  have it: "in_table q ?B \<longleftrightarrow> q = p \<or> in_table q B" for q using lt by simp
  let ?s2 = "?s1\<lparr>plinks := list_add ob p (plinks ?s1)\<rparr>"
  have pL: "p \<notin> set (L ob')" "p \<noteq> ob'" if "ob' \<in> dom (objects s)" for ob'
    using that I(8) [OF that] I(11) [OF that] p(1,3) by auto
  have ring: "dll (list_add ob p (plinks s)) (free_list PAGE_ALLOC_KER s) F"
    by (rule dll_other(1) [OF I(3) [OF ob] I(2)]) (use vm_inv_rings(1) [OF inv ob] p(1,2) I(7) in auto)
  have rings: "dll (list_add ob p (plinks s)) ob' ((L(ob := p # L ob)) ob')" if "ob' \<in> dom (objects s)" for ob'
  proof (cases "ob' = ob")
    case True
    then show ?thesis using list_add_dll [OF I(3) [OF ob]] pL [OF ob] by simp
  next
    case False
    have "dll (list_add ob p (plinks s)) ob' (L ob')"
      by (rule dll_other(1) [OF I(3) [OF ob] I(3) [OF that]])
        (use vm_inv_rings(2) [OF inv that ob] pL [OF that] False in auto)
    then show ?thesis using False by simp
  qed
  have key: "page_key ?s2 = page_key ?s" by (simp add: page_key_def fun_eq_iff)
  have mem: "\<exists>g. pages ?s2 q = Some g \<and> pg_object g = ob'"
    if "ob' \<in> dom (objects s)" "q \<in> set ((L(ob := p # L ob)) ob')" for q ob'
    using that I(12) [OF that(1), of q] p(1) pL [OF that(1)] by (cases "ob' = ob"; cases "q = p") auto
  have dom: "dom (pages ?s2) = dom (pages s)" "dom (objects ?s2) = dom (objects s)" using p(1) by auto
  have fl: "free_list i ?s2 = free_list i s" for i by (simp add: free_list_def)
  have "vm_inv ?s2 ?B F (L(ob := p # L ob))"
  proof (rule vm_invI, unfold dom fl key it)
    show "dll (plinks ?s2) (free_list PAGE_ALLOC_KER s) F" using ring by simp
    show "dll (plinks ?s2) ob' ((L(ob := p # L ob)) ob')" if "ob' \<in> dom (objects s)" for ob'
      using rings [OF that] by simp
    show "\<not> (q = p \<or> in_table q B)" if "q \<in> set F" for q using that I(10) p(2) by auto
    show "q = p \<or> in_table q B" if "ob' \<in> dom (objects s)" "q \<in> set ((L(ob := p # L ob)) ob')" for q ob'
      using that I(11) [OF that(1)] by (auto split: if_splits)
  qed (use h I(1) I(4-9) mem in simp_all)
  then show ?thesis using that [OF run] by simp
qed

lemma page_key_get: "(\<And>g. pg_object (f g) = pg_object g \<and> pg_offset (f g) = pg_offset g) \<Longrightarrow>
  page_key ((upd_page p f s)\<lparr>nfree_pages := n, plinks := h, pagehash := t, used_ram := u, used_mem := u\<rparr>) = page_key s"
  by (auto simp: page_key_def fun_eq_iff option.map_comp comp_def)

text \<open>\<open>page_alloc\<close> for an object that exists, with the state it leaves.\<close>

lemma page_alloc_ok:
  assumes inv: "vm_inv s B (F @ [p]) L" and ob: "ob \<in> dom (objects s)"
    and free: "\<forall>q. in_table q B \<longrightarrow> page_key s q \<noteq> Some (ob, page_base off)"
  obtains s' g h t u where "page_alloc mem (Some ob) off s = Some (p, s')" "pages s p = Some g"
    "s' = s\<lparr>pages := (pages s)(p \<mapsto> g\<lparr>pg_object := ob, pg_offset := page_base off, pg_count := 1, pg_flags := 0\<rparr>),
       plinks := h, pagehash := t, nfree_pages := nfree_pages s - 1, used_mem := u, used_ram := u\<rparr>"
    "vm_inv s' (B(page_hash ob (page_base off) := p # B (page_hash ob (page_base off)))) F (L(ob := p # L ob))"
    "\<not> in_table p B"
proof -
  let ?off = "page_base off"
  obtain s1 h u where run1: "get_page PAGE_ALLOC_OTH s = Some (Some p, s1)"
    and s1: "s1 = (upd_page p (\<lambda>g. g\<lparr>pg_flags := 0\<rparr>) s)\<lparr>nfree_pages := nfree_pages s - 1, plinks := h,
       pagehash := (pagehash s)\<lparr>links := (links (pagehash s))(p := None)\<rparr>, used_ram := u, used_mem := u\<rparr>"
    and inv1: "vm_inv s1 B F L" and p: "p \<in> dom (pages s)" "p \<notin> set F" "\<not> in_table p B"
    by (rule get_page_ok [OF inv disjI2 [OF refl]])
  have key1: "page_key s1 = page_key s" unfolding s1 by (rule page_key_get) simp
  obtain g where g: "pages s p = Some g" using p(1) by blast
  have free1: "\<And>q. in_table q B \<Longrightarrow> page_key s1 q \<noteq> Some (ob, ?off)" using free key1 by simp
  have ob1: "ob \<in> dom (objects s1)" using ob by (simp add: s1)
  obtain s2 h2 where run2: "vm_page_insert p ob ?off (upd_page p (\<lambda>g. g\<lparr>pg_count := 1\<rparr>) s1) = Some s2"
    and s2: "s2 = (upd_page p (\<lambda>g. g\<lparr>pg_count := 1, pg_object := ob, pg_offset := ?off\<rparr>) s1)\<lparr>pagehash := h2\<rparr>"
    and inv2: "vm_inv (s2\<lparr>plinks := list_add ob p (plinks s2)\<rparr>) (B(page_hash ob ?off := p # B (page_hash ob ?off)))
      F (L(ob := p # L ob))"
    by (rule enter_page_inv [OF inv1 _ p(2,3) ob1 free1, of "g\<lparr>pg_flags := 0\<rparr>"]) (simp_all add: s1 g)
  have run: "page_alloc mem (Some ob) off s = Some (p, s2\<lparr>plinks := list_add ob p (plinks s2)\<rparr>)"
    using run1 run2 ob1 by (auto simp: page_alloc_def)
  have "s2\<lparr>plinks := list_add ob p (plinks s2)\<rparr> =
      s\<lparr>pages := (pages s)(p \<mapsto> g\<lparr>pg_object := ob, pg_offset := ?off, pg_count := 1, pg_flags := 0\<rparr>),
       plinks := list_add ob p h, pagehash := h2, nfree_pages := nfree_pages s - 1, used_mem := u, used_ram := u\<rparr>"
    by (cases g) (simp add: s2 s1 upd_page_def g)
  then show ?thesis by (rule that [OF run g _ inv2 p(3)])
qed

section \<open>Properties\<close>

text \<open>
  C15. The data structures of the page allocator stay well-formed: from a state where every page
  is either free or in the table under the object it belongs to, \<open>page_alloc\<close> for an object and an
  offset that has no page yet takes the oldest free page and leaves such a state, with that page
  moved to the object. The page is then found under the base of the offset, and every other
  page where it was.
\<close>

theorem page_alloc_well_formed:
  assumes inv: "vm_inv s B (F @ [p]) L" and ob: "ob \<in> dom (objects s)"
    and free: "\<forall>q. in_table q B \<longrightarrow> page_key s q \<noteq> Some (ob, page_base off)"
  shows "\<exists>s' g. page_alloc mem (Some ob) off s = Some (p, s') \<and> pages s p = Some g \<and>
    pages s' p = Some (g\<lparr>pg_object := ob, pg_offset := page_base off, pg_count := 1, pg_flags := 0\<rparr>) \<and>
    vm_inv s' (B(page_hash ob (page_base off) := p # B (page_hash ob (page_base off)))) F (L(ob := p # L ob)) \<and>
    vm_page_lookup ob (page_base off) s' = Some (Some p) \<and>
    (\<forall>q k. in_table q B \<and> page_key s q = Some k \<longrightarrow> vm_page_lookup (fst k) (snd k) s' = Some (Some q)) \<and>
    nfree_pages s' = nfree_pages s - 1"
proof -
  let ?off = "page_base off"
  obtain s' g h t u where run: "page_alloc mem (Some ob) off s = Some (p, s')" and g: "pages s p = Some g"
    and s': "s' = s\<lparr>pages := (pages s)(p \<mapsto> g\<lparr>pg_object := ob, pg_offset := ?off, pg_count := 1, pg_flags := 0\<rparr>),
       plinks := h, pagehash := t, nfree_pages := nfree_pages s - 1, used_mem := u, used_ram := u\<rparr>"
    and inv': "vm_inv s' (B(page_hash ob ?off := p # B (page_hash ob ?off))) F (L(ob := p # L ob))"
    and p: "\<not> in_table p B"
    by (rule page_alloc_ok [OF assms])
  have kp: "page_key s' p = Some (ob, ?off)" by (simp add: page_key_def s')
  have kq: "page_key s' q = page_key s q" if "in_table q B" for q using that p by (auto simp: page_key_def s')
  have lt: "page_hash ob ?off < NWORDS" by (simp add: NWORDS_def)
  have "vm_page_lookup ob ?off s' = Some (Some p)" by (rule vm_inv_find [OF inv' _ kp]) (simp add: lt)
  moreover have "vm_page_lookup (fst k) (snd k) s' = Some (Some q)" if "in_table q B" "page_key s q = Some k" for q k
    by (rule vm_inv_find [OF inv']) (use that lt kq in simp_all)
  moreover have "pages s' p = Some (g\<lparr>pg_object := ob, pg_offset := ?off, pg_count := 1, pg_flags := 0\<rparr>)"
    "nfree_pages s' = nfree_pages s - 1" by (simp_all add: s')
  ultimately show ?thesis using run g inv' by blast
qed

text \<open>A small machine: page frames at 200 and 240, both free, and an object at 300.\<close>

definition object0 :: vm_object where
  "object0 = \<lparr>ob_ref = 1, ob_npages = 0, ob_size = 0, shadow = None, attribute = 0,
     vn = \<lparr>vn_fd = 0, blk_size = 0, vn_page_size = 0, vn_va = 0, vn_offset = 0, map_type = 0, protection = 0,
       vn_size = 0, pager_id = 0, noload_start = 0, noload_end = 0\<rparr>\<rparr>"

definition page0 :: vm_page where
  "page0 = \<lparr>pg_base = 0, pg_object = 0, pg_offset = 0, pg_count = 0, pg_flags = 0\<rparr>"

definition vm_ex :: vmem where
  "vm_ex = \<lparr>pages = [200 \<mapsto> page0\<lparr>pg_base := 0x100000\<rparr>, 240 \<mapsto> page0\<lparr>pg_base := 0x101000\<rparr>],
     objects = [300 \<mapsto> object0], ventries = Map.empty, vmaps = Map.empty, pmaps = Map.empty,
     plinks = list_enqueue 108 240 (list_enqueue 108 200 (list_init 108 \<lparr>lnext = id, lprev = id\<rparr>)),
     elinks = \<lparr>lnext = id, lprev = id\<rparr>, pagehash = htab_empty, free_page_list = 100, nfree_pages = 2, nfree = 2,
     ntotal = 2, page_page = 200, vm_page_initialized = True, total_mem = 0x200000, used_mem = 0, used_ram = 0,
     kernel_object = 300, pmap_object = 400, kernel_map = 500, kernel_vmmap = 600, frames = (\<lambda>_ _. 0),
     start_va = 0, next_frame = 0x102000, ending_mem = 0x200000, available_mem = 0\<rparr>"

lemma vm_ex_inv: "vm_inv vm_ex (\<lambda>_. []) ([240] @ [200]) (\<lambda>_. [])"
proof (rule vm_invI)
  show "keyed (\<lambda>k. page_hash (fst k) (snd k)) (page_key vm_ex) (\<lambda>_. [])" by (simp add: keyed_def)
qed (auto simp: vm_ex_def free_list_def PAGE_ALLOC_KER_def PAGE_ALLOC_OTH_def dll_def list_op_defs htab_rep_empty
    in_table_def split: if_splits)

theorem page_alloc_well_formed_witness:
  "\<exists>s'. page_alloc (0, object0) (Some 300) 0x5123 vm_ex = Some (200, s') \<and>
     vm_page_lookup 300 0x5000 s' = Some (Some 200) \<and> nfree_pages s' = 1"
proof -
  have "300 \<in> dom (objects vm_ex)" "\<forall>q. in_table q (\<lambda>_. []) \<longrightarrow> page_key vm_ex q \<noteq> Some (300, page_base 0x5123)"
    "nfree_pages vm_ex = 2" "page_base 0x5123 = 0x5000"
    by (simp_all add: vm_ex_def in_table_def page_base_def PAGE_SIZE_def)
  with page_alloc_well_formed [OF vm_ex_inv this(1,2), of "(0, object0)"] show ?thesis by auto
qed

lemma self_walk_found: "chain nx l xs \<Longrightarrow> p \<in> set xs \<Longrightarrow> self_walk nx p l = Some nx"
proof (induction xs arbitrary: l)
  case (Cons x xs)
  then show ?case by (subst self_walk.simps) auto
qed simp

text \<open>
  Only the first page of a bucket is taken out of the table. Any other page that is
  deallocated goes back to the free list and is still found under the object and the offset it had.
\<close>

theorem page_dealloc_leaves_stale:
  assumes inv: "vm_inv s B F L" and ob: "ob \<in> dom (objects s)" "p \<in> set (L ob)"
    and g: "pages s p = Some g" "pg_count g = 1"
    and later: "hd (B (page_hash ob (pg_offset g))) \<noteq> p"
  shows "\<exists>s'. page_dealloc ob (pg_offset g) s = Some (0, s') \<and>
    dll (plinks s') (free_list PAGE_ALLOC_KER s') (p # F) \<and> vm_page_lookup ob (pg_offset g) s' = Some (Some p)"
proof -
  note I = vm_invD [OF inv]
  let ?hd = "free_list PAGE_ALLOC_KER s"
  let ?i = "page_hash ob (pg_offset g)"
  have o: "pg_object g = ob" using I(12) [OF ob] g(1) by auto
  have key: "page_key s p = Some (ob, pg_offset g)" using g(1) o by (simp add: page_key_def)
  have found: "vm_page_lookup ob (pg_offset g) s = Some (Some p)"
    by (rule vm_inv_find [OF inv I(11) [OF ob] key])
  have lt: "?i < NWORDS" by (simp add: NWORDS_def)
  have mem: "p \<in> set (B ?i)" using keyed_bucket [OF I(14) I(11) [OF ob] key] by simp
  have ch: "chain (links (pagehash s)) (heads (pagehash s) ! ?i) (B ?i)" by (rule htab_repD(2) [OF I(13) lt])
  then have first: "heads (pagehash s) ! ?i \<noteq> Some p" using mem later by (cases "B ?i") auto
  let ?s1 = "upd_page p (\<lambda>g. g\<lparr>pg_count := pg_count g - 1\<rparr>) s"
  have "vm_page_remove p ?s1 = Some ?s1"
    using g(1) o first lt htab_repD(1) [OF I(13)] self_walk_found [OF ch mem]
    by (simp add: vm_page_remove_def Let_def NWORDS_def)
  then have run: "page_dealloc ob (pg_offset g) s = Some (0, put_page p (?s1\<lparr>plinks := list_del ob p (plinks s)\<rparr>))"
    using found g by (simp add: page_dealloc_def)
  let ?s = "put_page p (?s1\<lparr>plinks := list_del ob p (plinks s)\<rparr>)"
  have sep: "set (?hd # F) \<inter> set (ob # L ob) = {}" by (rule vm_inv_rings(1) [OF inv ob(1)])
  have "dll (list_del ob p (plinks s)) ?hd F"
    by (rule dll_other(5) [OF I(3) [OF ob(1)] I(2) _ ob(2)]) (use sep in blast)
  then have "dll (list_enqueue ?hd p (list_del ob p (plinks s))) ?hd (p # F)"
    using sep ob(2) by (intro list_enqueue_dll) auto
  then have "dll (plinks ?s) (free_list PAGE_ALLOC_KER ?s) (p # F)"
    by (simp add: put_page_def put_to_free_list_def free_list_def Let_def)
  moreover have "page_key ?s = page_key s" "pagehash ?s = pagehash s"
    by (auto simp: put_page_def put_to_free_list_def page_key_def Let_def fun_eq_iff option.map_comp comp_def)
  then have "vm_page_lookup ob (pg_offset g) ?s = Some (Some p)" using found by (simp add: vm_page_lookup_def)
  ultimately show ?thesis using run by blast
qed

text \<open>Two pages of the object at 300 whose keys fall into the same bucket.\<close>

definition stale_ex :: vmem where
  "stale_ex = vm_ex\<lparr>pages := [200 \<mapsto> page0\<lparr>pg_object := 300, pg_count := 1\<rparr>,
       240 \<mapsto> page0\<lparr>pg_object := 300, pg_count := 1, pg_offset := 0x3FC000\<rparr>],
     plinks := list_add 300 240 (list_add 300 200 (list_init 300 (list_init 108 \<lparr>lnext = id, lprev = id\<rparr>))),
     pagehash := \<lparr>heads = (replicate NWORDS None)[301 := Some 240], links = [240 \<mapsto> 200]\<rparr>\<rparr>"

lemma stale_ex_inv:
  "vm_inv stale_ex ((\<lambda>_. [])(301 := [240, 200])) [] ((\<lambda>_. [])(300 := [240, 200]))"
proof (rule vm_invI)
  have "page_hash 300 0 = 301" "page_hash 300 0x3FC000 = 301"
    by (simp_all add: page_hash_def addr_to_page_def)
  then show "keyed (\<lambda>k. page_hash (fst k) (snd k)) (page_key stale_ex) ((\<lambda>_. [])(301 := [240, 200]))"
    by (auto simp: keyed_def page_key_def stale_ex_def page0_def inj_on_def)
  show "htab_rep (pagehash stale_ex) ((\<lambda>_. [])(301 := [240, 200]))"
    by (auto simp: htab_rep_def stale_ex_def NWORDS_def nth_list_update)
qed (auto simp: stale_ex_def vm_ex_def free_list_def PAGE_ALLOC_KER_def PAGE_ALLOC_OTH_def dll_def list_op_defs
    in_table_def NWORDS_def page0_def split: if_splits)

theorem page_dealloc_leaves_stale_witness:
  "\<exists>s'. page_dealloc 300 0 stale_ex = Some (0, s') \<and> vm_page_lookup 300 0 s' = Some (Some 200)"
proof -
  let ?g = "page0\<lparr>pg_object := 300, pg_count := 1\<rparr>"
  have h: "page_hash 300 0 = 301" by (simp add: page_hash_def addr_to_page_def)
  have "300 \<in> dom (objects stale_ex)" "200 \<in> set (((\<lambda>_. [])(300 := [240, 200])) 300)"
    "pages stale_ex 200 = Some ?g" "pg_count ?g = 1" "pg_offset ?g = 0"
    "hd (((\<lambda>_. [])(301 := [240, 200])) (page_hash 300 (pg_offset ?g))) \<noteq> (200 :: addr)"
    by (simp_all add: stale_ex_def vm_ex_def page0_def h)
  with page_dealloc_leaves_stale [OF stale_ex_inv this(1-4,6)] show ?thesis by auto
qed

end
