(* ===== verification/PhysMem.thy ===== *)
theory PhysMem
  imports VmPage
begin

unbundle bit_operations_syntax

text \<open>
  The physical memory at boot: \<open>init_memory\<close>, \<open>get_next_frame\<close> and \<open>get_avail_mem\<close> of
  \<^verbatim>\<open>src/microkernel/arch/i386/memory.c\<close>. The multiboot information is an argument; the
  strings it points to are given by their addresses and lengths.
\<close>

record module_t =
  mod_lo :: u32
  mod_hi :: u32
  mod_string :: u32
  mod_strlen :: u32

record multiboot_info =
  mem_lower :: u32
  mem_upper :: u32
  cmdline :: u32
  cmdline_len :: u32
  mods_addr :: u32
  mods :: "module_t list"

text \<open>The static variables \<open>init_memory\<close> sets from the multiboot information.\<close>

definition mod_start :: "multiboot_info \<Rightarrow> u32" where
  "mod_start minfo = mods_addr minfo"

definition mod_end :: "multiboot_info \<Rightarrow> u32" where
  "mod_end minfo = mods_addr minfo + of_nat (length (mods minfo)) * 16"

definition cmdstart :: "multiboot_info \<Rightarrow> u32" where
  "cmdstart minfo = cmdline minfo"

definition cmdend :: "multiboot_info \<Rightarrow> u32" where
  "cmdend minfo = cmdline_len minfo + cmdline minfo"

definition init_memory :: "multiboot_info \<Rightarrow> vmem \<Rightarrow> vmem" where
  "init_memory minfo s = (
     let e = 0x100000 + mem_upper minfo * 1024
     in s\<lparr>ending_mem := e, available_mem := mem_upper minfo * 1024 + mem_lower minfo * 1024, total_mem := e\<rparr>)"

text \<open>
  The loop over the modules: where the frame must go on when it meets a module, \<open>None\<close> when it
  meets none.
\<close>

fun module_skip :: "module_t list \<Rightarrow> u32 \<Rightarrow> u32 \<Rightarrow> u32 option" where
  "module_skip [] nf nextend = None"
| "module_skip (m # ms) nf nextend = (
     let modcmd = mod_string m;
         modcmdend = mod_strlen m + modcmd
     in if nextend > modcmd \<and> nf < modcmdend then Some modcmdend
        else if nextend > mod_lo m \<and> nf < mod_hi m then Some (mod_hi m)
        else module_skip ms nf nextend)"

partial_function (option) get_next_frame :: "multiboot_info \<Rightarrow> vmem \<Rightarrow> (u32 \<times> vmem) option" where
  "get_next_frame minfo s = (
     let nf = align_page (next_frame s);
         s = s\<lparr>next_frame := nf\<rparr>;
         nextend = nf + PAGE_SIZE
     in if nf \<ge> ending_mem s then Some (0, s)
        else if nextend > mod_start minfo \<and> nf < mod_end minfo then
          get_next_frame minfo (s\<lparr>next_frame := mod_end minfo\<rparr>)
        else if nextend > cmdstart minfo \<and> nf < cmdend minfo then
          get_next_frame minfo (s\<lparr>next_frame := cmdend minfo\<rparr>)
        else case module_skip (mods minfo) nf nextend of
          Some a \<Rightarrow> get_next_frame minfo (s\<lparr>next_frame := a\<rparr>)
        | None \<Rightarrow> Some (nf, s\<lparr>next_frame := nf + PAGE_SIZE, available_mem := available_mem s - PAGE_SIZE\<rparr>))"

definition get_avail_mem :: "vmem \<Rightarrow> u32" where
  "get_avail_mem s = available_mem s"

section \<open>The frames handed out\<close>

text \<open>The regions that must not be handed out, as half-open intervals.\<close>

definition reserved :: "multiboot_info \<Rightarrow> (u32 \<times> u32) list" where
  "reserved minfo = (mod_start minfo, mod_end minfo) # (cmdstart minfo, cmdend minfo) #
     concat (map (\<lambda>m. [(mod_string m, mod_strlen m + mod_string m), (mod_lo m, mod_hi m)]) (mods minfo))"

definition clear_of :: "u32 \<Rightarrow> u32 \<times> u32 \<Rightarrow> bool" where
  "clear_of a r \<longleftrightarrow> unat a + 4096 \<le> unat (fst r) \<or> unat (snd r) \<le> unat a"

lemma module_skip_Some:
  "module_skip ms nf ne = Some a \<Longrightarrow> nf < a \<and> a \<in> (\<lambda>m. mod_strlen m + mod_string m) ` set ms \<union> mod_hi ` set ms"
  by (induction ms) (auto simp: Let_def split: if_splits)

lemma module_skip_None:
  "module_skip ms nf ne = None \<Longrightarrow> m \<in> set ms \<Longrightarrow>
   \<not> (ne > mod_string m \<and> nf < mod_strlen m + mod_string m) \<and> \<not> (ne > mod_lo m \<and> nf < mod_hi m)"
  by (induction ms) (auto simp: Let_def split: if_splits)

lemma reserved_ends:
  "mod_end minfo \<in> snd ` set (reserved minfo)" "cmdend minfo \<in> snd ` set (reserved minfo)"
  "m \<in> set (mods minfo) \<Longrightarrow> mod_hi m \<in> snd ` set (reserved minfo)"
  "m \<in> set (mods minfo) \<Longrightarrow> mod_strlen m + mod_string m \<in> snd ` set (reserved minfo)"
  by (force simp: reserved_def)+

lemma align_page_up:
  assumes "unat a \<le> 0xFFFFF000"
  shows "4096 dvd unat (align_page a)" "unat a \<le> unat (align_page a)" "unat (align_page a) \<le> 0xFFFFF000"
proof -
  have eq: "unat (align_page a) = (unat a + 4095) div 4096 * 4096"
    using assms by (simp add: unat_align_page minus_mod_eq_div_mult)
  show "4096 dvd unat (align_page a)" by (simp add: eq)
  show "unat a \<le> unat (align_page a)" unfolding eq by linarith
  have "(unat a + 4095) div 4096 < 0x100000" by (rule less_mult_imp_div_less) (use assms in simp)
  then show "unat (align_page a) \<le> 0xFFFFF000" unfolding eq by simp
qed

lemma next_frame_clear:
  assumes "unat nf + 4096 < 2 ^ 32" "\<not> (nf + PAGE_SIZE > lo \<and> nf < hi)"
  shows "clear_of nf (lo, hi)"
proof -
  have "unat (nf + PAGE_SIZE) = unat nf + 4096" using assms(1) by (simp add: PAGE_SIZE_def unat_word_ariths)
  then show ?thesis using assms(2) by (auto simp: clear_of_def word_less_nat_alt)
qed

text \<open>What a call hands out: the frame \<open>a\<close>, or 0, and the state \<open>s'\<close> it leaves.\<close>

definition frame_ok :: "multiboot_info \<Rightarrow> vmem \<Rightarrow> u32 \<Rightarrow> vmem \<Rightarrow> bool" where
  "frame_ok minfo s a s' \<longleftrightarrow> unat (next_frame s') \<le> 0xFFFFF000 \<and> ending_mem s' = ending_mem s \<and>
     unat (next_frame s) \<le> unat (next_frame s') \<and>
     (a \<noteq> 0 \<longrightarrow> 4096 dvd unat a \<and> a < ending_mem s \<and> unat (next_frame s) \<le> unat a \<and>
       unat (next_frame s') = unat a + 4096 \<and> available_mem s' = available_mem s - PAGE_SIZE \<and>
       (\<forall>r \<in> set (reserved minfo). clear_of a r)) \<and>
     (a = 0 \<longrightarrow> ending_mem s \<le> next_frame s' \<or> next_frame s = 0)"

lemma frame_ok_retry:
  assumes "frame_ok minfo (s\<lparr>next_frame := x\<rparr>) a s'" "unat (next_frame s) < unat x"
  shows "frame_ok minfo s a s'"
proof -
  have "x \<noteq> 0" using assms(2) by auto
  then show ?thesis using assms by (auto simp: frame_ok_def)
qed

lemma frame_ok_found:
  fixes s defines "nf \<equiv> align_page (next_frame s)"
  assumes "unat (next_frame s) \<le> 0xFFFFF000" "unat (ending_mem s) \<le> 0xFFFFF000" "\<not> nf \<ge> ending_mem s"
    and "\<And>r. r \<in> set (reserved minfo) \<Longrightarrow> \<not> (nf + PAGE_SIZE > fst r \<and> nf < snd r)"
  shows "frame_ok minfo s nf (s\<lparr>next_frame := nf + PAGE_SIZE, available_mem := available_mem s - PAGE_SIZE\<rparr>)"
proof -
  note up = align_page_up [OF assms(2), folded nf_def]
  have "unat nf < unat (ending_mem s)" using assms(4) by (simp add: word_le_nat_alt)
  then have small: "unat nf + 4096 \<le> 0xFFFFF000" using up(1) assms(3) by (auto elim!: dvdE)
  then have nx: "unat (nf + PAGE_SIZE) = unat nf + 4096" by (simp add: PAGE_SIZE_def unat_word_ariths)
  have "clear_of nf r" if "r \<in> set (reserved minfo)" for r
    using next_frame_clear [of nf "fst r" "snd r"] assms(5) [OF that] small by simp
  moreover have "nf = 0 \<Longrightarrow> next_frame s = 0" using up(2) by (simp add: unat_eq_0)
  ultimately show ?thesis using nx small up assms(4) by (auto simp: frame_ok_def)
qed

text \<open>
  C20. As long as memory ends below the last page, \<open>get_next_frame\<close> returns: either 0 because no
  memory is left, or the base of a page frame inside the memory that meets neither the table of
  modules, nor the command line, nor a module image or its command line. Every frame lies at or
  above the point where the search started, which is then moved behind it, so that no frame is
  handed out twice.
\<close>

theorem get_next_frame_safe:
  assumes "unat (next_frame s) \<le> 0xFFFFF000" "unat (ending_mem s) \<le> 0xFFFFF000"
    and "\<forall>r \<in> set (reserved minfo). unat (snd r) \<le> 0xFFFFF000"
  shows "\<exists>a s'. get_next_frame minfo s = Some (a, s') \<and> frame_ok minfo s a s'"
  using assms
proof (induction "0xFFFFF000 - unat (next_frame s)" arbitrary: s rule: less_induct)
  case less
  let ?nf = "align_page (next_frame s)"
  note up = align_page_up [OF less.prems(1)]
  have retry: ?case if "get_next_frame minfo s = get_next_frame minfo (s\<lparr>next_frame := a\<rparr>)" "?nf < a"
    "a \<in> snd ` set (reserved minfo)" for a
  proof -
    have lt: "unat (next_frame s) < unat a" using up(2) that(2) by (simp add: word_less_nat_alt)
    have le: "unat a \<le> 0xFFFFF000" using that(3) less.prems(3) by auto
    have "0xFFFFF000 - unat (next_frame (s\<lparr>next_frame := a\<rparr>)) < 0xFFFFF000 - unat (next_frame s)" using lt le by simp
    from less.hyps [OF this] show ?thesis
      using le less.prems that(1) frame_ok_retry [OF _ lt] by auto
  qed
  consider "?nf \<ge> ending_mem s"
    | "\<not> ?nf \<ge> ending_mem s" "?nf + PAGE_SIZE > mod_start minfo" "?nf < mod_end minfo"
    | "\<not> ?nf \<ge> ending_mem s" "\<not> (?nf + PAGE_SIZE > mod_start minfo \<and> ?nf < mod_end minfo)"
      "?nf + PAGE_SIZE > cmdstart minfo" "?nf < cmdend minfo"
    | a where "\<not> ?nf \<ge> ending_mem s" "\<not> (?nf + PAGE_SIZE > mod_start minfo \<and> ?nf < mod_end minfo)"
      "\<not> (?nf + PAGE_SIZE > cmdstart minfo \<and> ?nf < cmdend minfo)"
      "module_skip (mods minfo) ?nf (?nf + PAGE_SIZE) = Some a"
    | "\<not> ?nf \<ge> ending_mem s" "\<not> (?nf + PAGE_SIZE > mod_start minfo \<and> ?nf < mod_end minfo)"
      "\<not> (?nf + PAGE_SIZE > cmdstart minfo \<and> ?nf < cmdend minfo)"
      "module_skip (mods minfo) ?nf (?nf + PAGE_SIZE) = None"
    by (cases "module_skip (mods minfo) ?nf (?nf + PAGE_SIZE)") force+
  then show ?case
  proof cases
    case 1
    then have "get_next_frame minfo s = Some (0, s\<lparr>next_frame := ?nf\<rparr>)"
      by (subst get_next_frame.simps) (auto simp: Let_def)
    then show ?thesis using 1 up by (auto simp: frame_ok_def)
  next
    case 2
    then have "get_next_frame minfo s = get_next_frame minfo (s\<lparr>next_frame := mod_end minfo\<rparr>)"
      by (subst get_next_frame.simps) (auto simp: Let_def)
    then show ?thesis by (rule retry [OF _ 2(3) reserved_ends(1)])
  next
    case 3
    then have "get_next_frame minfo s = get_next_frame minfo (s\<lparr>next_frame := cmdend minfo\<rparr>)"
      by (subst get_next_frame.simps) (auto simp: Let_def)
    then show ?thesis by (rule retry [OF _ 3(4) reserved_ends(2)])
  next
    case 4
    then have "get_next_frame minfo s = get_next_frame minfo (s\<lparr>next_frame := a\<rparr>)"
      by (subst get_next_frame.simps) (auto simp: Let_def)
    moreover have "a \<in> snd ` set (reserved minfo)" "?nf < a"
      using module_skip_Some [OF 4(4)] reserved_ends(3,4) by auto
    ultimately show ?thesis by (intro retry [of a])
  next
    case 5
    have run: "get_next_frame minfo s = Some (?nf, s\<lparr>next_frame := ?nf + PAGE_SIZE, available_mem := available_mem s - PAGE_SIZE\<rparr>)"
      using 5 by (subst get_next_frame.simps) (auto simp: Let_def)
    have "\<not> (?nf + PAGE_SIZE > fst r \<and> ?nf < snd r)" if "r \<in> set (reserved minfo)" for r
      using that 5(2,3) module_skip_None [OF 5(4)] by (auto simp: reserved_def)
    then show ?thesis using run frame_ok_found [OF less.prems(1,2) 5(1)] by blast
  qed
qed

text \<open>One module, whose image covers the first frames looked at.\<close>

theorem get_next_frame_safe_witness:
  "\<exists>a s'. get_next_frame \<lparr>mem_lower = 640, mem_upper = 1024, cmdline = 0x500, cmdline_len = 10, mods_addr = 0x600,
      mods = [\<lparr>mod_lo = 0x101000, mod_hi = 0x104800, mod_string = 0x700, mod_strlen = 8\<rparr>]\<rparr> vm_ex = Some (a, s') \<and>
     frame_ok \<lparr>mem_lower = 640, mem_upper = 1024, cmdline = 0x500, cmdline_len = 10, mods_addr = 0x600,
      mods = [\<lparr>mod_lo = 0x101000, mod_hi = 0x104800, mod_string = 0x700, mod_strlen = 8\<rparr>]\<rparr> vm_ex a s'"
  by (rule get_next_frame_safe)
    (simp_all add: vm_ex_def reserved_def mod_end_def cmdend_def mod_start_def cmdstart_def)

end
