(* ===== verification/Pmap.thy ===== *)
theory Pmap
  imports PhysMem
begin

unbundle bit_operations_syntax

text \<open>
  Page tables: \<^verbatim>\<open>src/microkernel/arch/i386/pmap.c\<close>, and the functions of
  \<^verbatim>\<open>mm/vm_page.c\<close> that map the pages they allocate.

  A page directory or page table is a frame of \<open>frames\<close>. \<open>ups\<close> are the \<open>pmap\<close>s of all processes, in
  the order of the list of processes, which a new page table of the kernel is entered into.
\<close>

definition PAGE_PRESENT :: u32 where "PAGE_PRESENT = 1"
definition VM_PAGE_FREE :: u16 where "VM_PAGE_FREE = 1"
definition NTABLES :: nat where "NTABLES = 0x400"
definition KTABLE_START :: nat where "KTABLE_START = NTABLES - 128"

section \<open>Entries\<close>

text \<open>A table is read and written at the base of a frame; 0 is the null pointer.\<close>

definition fget :: "u32 \<Rightarrow> nat \<Rightarrow> vmem \<Rightarrow> u32 option" where
  "fget b i s = (if b \<noteq> 0 \<and> b AND 0xFFF = 0 then Some (frames s b i) else None)"

definition fput :: "u32 \<Rightarrow> nat \<Rightarrow> u32 \<Rightarrow> vmem \<Rightarrow> vmem option" where
  "fput b i v s =
     (if b \<noteq> 0 \<and> b AND 0xFFF = 0 then Some (s\<lparr>frames := (frames s)(b := (frames s b)(i := v))\<rparr>) else None)"

definition set_pdbr :: "addr \<Rightarrow> u32 \<Rightarrow> vmem \<Rightarrow> vmem" where
  "set_pdbr mp b s = s\<lparr>pmaps := (pmaps s)(mp := map_option (\<lambda>m. m\<lparr>pdbr := b\<rparr>) (pmaps s mp))\<rparr>"

fun kernel_map_update :: "addr list \<Rightarrow> u32 \<Rightarrow> nat \<Rightarrow> vmem \<Rightarrow> vmem option" where
  "kernel_map_update [] pte idx s = Some s"
| "kernel_map_update (mp # ups) pte idx s = do {
     m \<leftarrow> pmaps s mp;
     s \<leftarrow> fput (pdbr m) idx pte s;
     kernel_map_update ups pte idx s
   }"

text \<open>\<open>page_table_allocate\<close> up to the mapping of the new page in the kernel, and the clearing after it.\<close>

definition table_page :: "addr \<Rightarrow> vmem \<Rightarrow> (u32 \<times> vmem) option" where
  "table_page mp s = do {
     (page, s) \<leftarrow> get_page PAGE_ALLOC_KER s;
     page \<leftarrow> page;
     let s = upd_page page (\<lambda>g. g\<lparr>pg_count := 1\<rparr>) s;
     g \<leftarrow> pages s page;
     s \<leftarrow> vm_page_insert page (pmap_object s) (pg_base g) s;
     Some (pg_base g, s\<lparr>plinks := list_add mp page (plinks s)\<rparr>)
   }"

definition clear_frame :: "u32 \<Rightarrow> vmem \<Rightarrow> vmem" where
  "clear_frame b s = s\<lparr>frames := (frames s)(b := (\<lambda>_. 0))\<rparr>"

text \<open>
  \<open>pmap_enter\<close> and \<open>page_table_allocate\<close> call each other: a new table is itself mapped in the
  kernel, which may need another new table. The calls are put into \<open>pmap_enter\<close> here.
\<close>

partial_function (option) pmap_enter :: "addr list \<Rightarrow> addr \<Rightarrow> u32 \<Rightarrow> u32 \<Rightarrow> u32 \<Rightarrow> vmem \<Rightarrow> vmem option" where
  "pmap_enter ups mp paddr vaddr prot s = do {
     m \<leftarrow> pmaps s mp;
     (pde, s) \<leftarrow> (if pdbr m = 0 then do {
                    (b, s) \<leftarrow> table_page mp s;
                    s \<leftarrow> pmap_enter ups (kernel_map s) b (b + KERNEL_BASE) PAGE_RW s;
                    Some (b, set_pdbr mp b (clear_frame b s))
                  }
                  else Some (pdbr m, s));
     e \<leftarrow> fget pde (addr_to_pdenum vaddr) s;
     (pte, s) \<leftarrow> (if e = 0 then do {
                    (b, s) \<leftarrow> table_page mp s;
                    s \<leftarrow> pmap_enter ups (kernel_map s) b (b + KERNEL_BASE) PAGE_RW s;
                    let s = clear_frame b s;
                    let newpte = addr_to_pte b OR PAGE_PRESENT OR prot;
                    s \<leftarrow> (if mp = kernel_map s then kernel_map_update ups newpte (addr_to_pdenum vaddr) s else Some s);
                    s \<leftarrow> fput pde (addr_to_pdenum vaddr) newpte s;
                    Some (b, s)
                  }
                  else Some (addr_to_pte e, s));
     fput pte (addr_to_ptenum vaddr) (addr_to_pte paddr OR PAGE_PRESENT OR prot) s
   }"

definition page_table_allocate :: "addr list \<Rightarrow> addr \<Rightarrow> vmem \<Rightarrow> (u32 \<times> vmem) option" where
  "page_table_allocate ups mp s = do {
     (b, s) \<leftarrow> table_page mp s;
     s \<leftarrow> pmap_enter ups (kernel_map s) b (b + KERNEL_BASE) PAGE_RW s;
     Some (b, clear_frame b s)
   }"

text \<open>The last page entered begins at \<open>paddr + size\<close>, behind the range.\<close>

partial_function (option) enter_loop :: "addr list \<Rightarrow> addr \<Rightarrow> u32 \<Rightarrow> u32 \<Rightarrow> u32 \<Rightarrow> u32 \<Rightarrow> vmem \<Rightarrow> vmem option" where
  "enter_loop ups mp pa fin vaddr prot s =
     (if pa \<le> fin then do {
        s \<leftarrow> pmap_enter ups mp pa vaddr prot s;
        enter_loop ups mp (pa + PAGE_SIZE) fin (vaddr + PAGE_SIZE) prot s
      }
      else Some s)"

definition pmap_enter_range :: "addr list \<Rightarrow> addr \<Rightarrow> u32 \<Rightarrow> u32 \<Rightarrow> u32 \<Rightarrow> u32 \<Rightarrow> vmem \<Rightarrow> vmem option" where
  "pmap_enter_range ups mp paddr vaddr limit prot s =
     enter_loop ups mp paddr (paddr + align_page limit) vaddr prot s"

section \<open>Creation and destruction\<close>

definition pmap_const :: "pmap \<Rightarrow> pmap" where
  "pmap_const m = m\<lparr>pdbr := 0\<rparr>"

definition pmap_create :: "addr \<times> pmap \<Rightarrow> vmem \<Rightarrow> addr \<times> vmem" where
  "pmap_create mem s =
     (fst mem, s\<lparr>pmaps := (pmaps s)(fst mem \<mapsto> snd mem), plinks := list_init (fst mem) (plinks s)\<rparr>)"

partial_function (option) pmap_page_free :: "addr \<Rightarrow> vmem \<Rightarrow> vmem option" where
  "pmap_page_free pmap s =
     (if list_isempty pmap (plinks s) then Some s
      else do {
        let (page, h) = list_remove pmap (plinks s);
        let s = s\<lparr>plinks := h\<rparr>;
        g \<leftarrow> pages s page;
        (_, s) \<leftarrow> page_dealloc (pg_object g) (pg_offset g) s;
        pmap_page_free pmap s
      })"

definition pmap_destroy :: "addr \<Rightarrow> vmem \<Rightarrow> vmem option" where
  "pmap_destroy mp s = do {
     s \<leftarrow> pmap_page_free mp s;
     _ \<leftarrow> pmaps s mp;
     Some (s\<lparr>pmaps := (pmaps s)(mp := None)\<rparr>)
   }"

definition exec_pmap :: "addr \<Rightarrow> vmem \<Rightarrow> vmem option" where
  "exec_pmap mp s = do {
     s \<leftarrow> pmap_page_free mp s;
     m \<leftarrow> pmaps s mp;
     check (pdbr m \<noteq> 0);
     Some (s\<lparr>frames := (frames s)(pdbr m := (\<lambda>i. if i < KTABLE_START then 0 else frames s (pdbr m) i))\<rparr>)
   }"

text \<open>The entries of the kernel part that are in use are copied.\<close>

definition share_entries :: "u32 \<Rightarrow> u32 \<Rightarrow> vmem \<Rightarrow> vmem option" where
  "share_entries dest src s = do {
     _ \<leftarrow> fget src 0 s;
     _ \<leftarrow> fget dest 0 s;
     Some (s\<lparr>frames := (frames s)(dest := (\<lambda>i. if KTABLE_START \<le> i \<and> i < NTABLES \<and> frames s src i \<noteq> 0
        then frames s src i else frames s dest i))\<rparr>)
   }"

definition pmap_share_kernel :: "addr list \<Rightarrow> addr \<Rightarrow> vmem \<Rightarrow> vmem option" where
  "pmap_share_kernel ups nmap s = do {
     (b, s) \<leftarrow> page_table_allocate ups nmap s;
     let s = set_pdbr nmap b s;
     k \<leftarrow> pmaps s (kernel_map s);
     share_entries b (pdbr k) s
   }"

text \<open>The user tables, one directory entry after the other.\<close>

fun copy_tables :: "addr list \<Rightarrow> addr \<Rightarrow> u32 \<Rightarrow> u32 \<Rightarrow> nat list \<Rightarrow> vmem \<Rightarrow> vmem option" where
  "copy_tables ups mp dest src [] s = Some s"
| "copy_tables ups mp dest src (pde # pdes) s = do {
     e \<leftarrow> fget src pde s;
     if e = 0 then copy_tables ups mp dest src pdes s
     else do {
       (b, s) \<leftarrow> page_table_allocate ups mp s;
       e \<leftarrow> fget src pde s;
       _ \<leftarrow> fget (addr_to_pte e) 0 s;
       let s = s\<lparr>frames := (frames s)(b := (\<lambda>i. if i < NTABLES \<and> frames s (addr_to_pte e) i \<noteq> 0
                 then frames s (addr_to_pte e) i else frames s b i))\<rparr>;
       s \<leftarrow> fput dest pde (addr_to_pte b OR (e AND 0xFFF)) s;
       copy_tables ups mp dest src pdes s
     }
   }"

definition pmap_copy :: "addr list \<Rightarrow> addr \<times> pmap \<Rightarrow> addr \<Rightarrow> vmem \<Rightarrow> (addr \<times> vmem) option" where
  "pmap_copy ups mem src s = do {
     let (mp, s) = pmap_create mem s;
     (b, s) \<leftarrow> page_table_allocate ups mp s;
     let s = set_pdbr mp b s;
     m \<leftarrow> pmaps s src;
     s \<leftarrow> copy_tables ups mp b (pdbr m) [0..<KTABLE_START] s;
     k \<leftarrow> pmaps s (kernel_map s);
     s \<leftarrow> share_entries b (pdbr k) s;
     Some (mp, s)
   }"

section \<open>Changing entries\<close>

text \<open>
  \<open>pmap_remove\<close> uses the directory entry as the address of the table without masking its flags, so
  that the table it writes to is not at a frame.
\<close>

partial_function (option) remove_loop :: "u32 \<Rightarrow> u32 \<Rightarrow> u32 \<Rightarrow> vmem \<Rightarrow> vmem option" where
  "remove_loop pde sva eva s =
     (if sva < eva then do {
        pte \<leftarrow> fget pde (addr_to_pdenum sva) s;
        s \<leftarrow> fput pte (addr_to_ptenum sva) 0 s;
        remove_loop pde (sva + PAGE_SIZE) eva s
      }
      else Some s)"

definition pmap_remove :: "addr \<Rightarrow> u32 \<Rightarrow> u32 \<Rightarrow> vmem \<Rightarrow> vmem option" where
  "pmap_remove mp sva eva s = do {
     m \<leftarrow> pmaps s mp;
     if pdbr m = 0 then Some s else remove_loop (pdbr m) sva eva s
   }"

definition protect_entry :: "u32 \<Rightarrow> u32 \<Rightarrow> u32" where
  "protect_entry prot e = (
     let e = (if prot AND VM_PAGE_READ \<noteq> 0 \<or> prot AND VM_PAGE_EXEC \<noteq> 0 then e AND NOT PAGE_RW else e)
     in if prot AND VM_PAGE_WRITE \<noteq> 0 then e OR PAGE_RW else e)"

partial_function (option) change_loop :: "(u32 \<Rightarrow> u32) \<Rightarrow> u32 \<Rightarrow> u32 \<Rightarrow> u32 \<Rightarrow> vmem \<Rightarrow> vmem option" where
  "change_loop f pde sva eva s =
     (if sva < eva then do {
        e \<leftarrow> fget pde (addr_to_pdenum sva) s;
        v \<leftarrow> fget (addr_to_pte e) (addr_to_ptenum sva) s;
        s \<leftarrow> fput (addr_to_pte e) (addr_to_ptenum sva) (f v) s;
        change_loop f pde (sva + PAGE_SIZE) eva s
      }
      else Some s)"

definition pmap_protect :: "addr \<Rightarrow> u32 \<Rightarrow> u32 \<Rightarrow> u32 \<Rightarrow> vmem \<Rightarrow> (int \<times> vmem) option" where
  "pmap_protect mp sva eva prot s = do {
     m \<leftarrow> pmaps s mp;
     if pdbr m = 0 then Some (0, s)
     else do { s \<leftarrow> change_loop (protect_entry prot) (pdbr m) sva eva s; Some (1, s) }
   }"

definition pmap_cow :: "addr \<Rightarrow> u32 \<Rightarrow> u32 \<Rightarrow> vmem \<Rightarrow> vmem option" where
  "pmap_cow mp start fin s = do {
     m \<leftarrow> pmaps s mp;
     if pdbr m = 0 then Some s else change_loop (\<lambda>e. e AND NOT PAGE_RW) (pdbr m) start fin s
   }"

section \<open>Initialisation\<close>

text \<open>The identity table of the first 4 MB; \<open>text_start\<close>, \<open>text_end\<close> and \<open>image_end\<close> are linker symbols.\<close>

definition boot_pte :: "u32 \<Rightarrow> u32 \<Rightarrow> u32 \<Rightarrow> u32 \<Rightarrow> nat \<Rightarrow> u32" where
  "boot_pte text_start image_end pte pde i = (
     let a = of_nat i * PAGE_SIZE;
         e = addr_to_pte a OR PAGE_PRESENT OR PAGE_RW
     in if text_start \<le> a \<and> a \<le> image_end then e
        else if pte \<le> a \<and> a \<le> pte + PAGE_SIZE then e
        else if pde \<le> a \<and> a \<le> pde + PAGE_SIZE then e
        else 0)"

definition pmap_pre_init :: "u32 \<Rightarrow> u32 \<Rightarrow> multiboot_info \<Rightarrow> vmem \<Rightarrow> vmem option" where
  "pmap_pre_init text_start image_end minfo s = do {
     (pde, s) \<leftarrow> get_next_frame minfo s;
     (pte, s) \<leftarrow> get_next_frame minfo s;
     check (pde \<noteq> 0 \<and> pte \<noteq> 0);
     let e = addr_to_pte pte OR PAGE_PRESENT OR PAGE_RW;
     let s = set_pdbr (kernel_map s) pde s;
     let s = s\<lparr>frames := (frames s)(pde := (\<lambda>i. if i < NTABLES then (if i = addr_to_pdenum KERNEL_BASE \<or> i = 0 then e else 0)
                 else frames s pde i))\<rparr>;
     let s = s\<lparr>frames := (frames s)(pte := (\<lambda>i. if i < NTABLES then boot_pte text_start image_end pte pde i
                 else frames s pte i))\<rparr>;
     Some (s\<lparr>plinks := list_init (pmap_object s) (plinks s),
             objects := (objects s)(pmap_object s := map_option (\<lambda>b. b\<lparr>ob_size := ending_mem s\<rparr>) (objects s (pmap_object s)))\<rparr>)
   }"

fun physical_rest :: "addr list \<Rightarrow> multiboot_info \<Rightarrow> nat \<Rightarrow> u32 \<Rightarrow> vmem \<Rightarrow> (u32 \<times> vmem) option" where
  "physical_rest ups minfo 0 a s = Some (a, s)"
| "physical_rest ups minfo (Suc n) a s = do {
     (a, s) \<leftarrow> get_next_frame minfo s;
     s \<leftarrow> pmap_enter ups (kernel_map s) a (KERNEL_BASE + a) PAGE_RW s;
     physical_rest ups minfo n a s
   }"

definition alloc_physical_mem :: "addr list \<Rightarrow> multiboot_info \<Rightarrow> u32 \<Rightarrow> vmem \<Rightarrow> (u32 \<times> vmem) option" where
  "alloc_physical_mem ups minfo npages s = do {
     (a, s) \<leftarrow> get_next_frame minfo s;
     s \<leftarrow> pmap_enter ups (kernel_map s) a (KERNEL_BASE + a) PAGE_RW s;
     (last, s) \<leftarrow> physical_rest ups minfo (unat npages - 1) a s;
     Some (a, s\<lparr>start_va := last + PAGE_SIZE\<rparr>)
   }"

text \<open>The pages of the array, until no frame is left; \<open>junk\<close> is what the array holds.\<close>

fun page_fill :: "vm_page \<Rightarrow> multiboot_info \<Rightarrow> nat \<Rightarrow> nat \<Rightarrow> vmem \<Rightarrow> vmem option" where
  "page_fill junk minfo i 0 s = Some s"
| "page_fill junk minfo i (Suc n) s = do {
     let page = page_page s + 36 * i;
     (b, s) \<leftarrow> get_next_frame minfo s;
     let s = s\<lparr>pages := (pages s)(page \<mapsto> junk\<lparr>pg_count := 0, pg_base := b\<rparr>)\<rparr>;
     if b = 0 then Some s
     else do {
       let s = put_to_free_list page s;
       page_fill junk minfo (i + 1) n
         (upd_page page (\<lambda>g. g\<lparr>pg_flags := VM_PAGE_FREE\<rparr>) (s\<lparr>nfree_pages := nfree_pages s + 1\<rparr>))
     }
   }"

definition vm_page_init :: "vm_page \<Rightarrow> addr list \<Rightarrow> multiboot_info \<Rightarrow> vmem \<Rightarrow> vmem option" where
  "vm_page_init junk ups minfo s = do {
     let s = s\<lparr>nfree := get_avail_mem s div PAGE_SIZE, ntotal := ending_mem s div PAGE_SIZE\<rparr>;
     let npages = align_page (ntotal s * 36) div PAGE_SIZE + 1;
     (a, s) \<leftarrow> alloc_physical_mem ups minfo npages s;
     let s = s\<lparr>page_page := unat a, plinks := list_init (free_list 2 s) (list_init (free_list 1 s)
                 (list_init (free_list 0 s) (plinks s)))\<rparr>;
     s \<leftarrow> page_fill junk minfo 0 (unat (nfree s)) s;
     (_, s) \<leftarrow> alloc_physical_mem ups minfo 1 s;
     Some (s\<lparr>pagehash := htab_empty, vm_page_initialized := True\<rparr>)
   }"

section \<open>Kernel memory\<close>

definition kmem_page :: "addr list \<Rightarrow> vmem \<Rightarrow> (u32 \<times> vmem) option" where
  "kmem_page ups s = do {
     (page, s) \<leftarrow> get_page PAGE_ALLOC_KER s;
     page \<leftarrow> page;
     g \<leftarrow> pages s page;
     s \<leftarrow> vm_page_insert page (kernel_object s) (pg_base g) s;
     let s = s\<lparr>plinks := list_add (kernel_object s) page (plinks s)\<rparr>;
     s \<leftarrow> pmap_enter ups (kernel_map s) (pg_base g) (pg_base g + KERNEL_BASE) PAGE_RW s;
     Some (pg_base g, s)
   }"

fun kmem_rest :: "addr list \<Rightarrow> nat \<Rightarrow> vmem \<Rightarrow> vmem option" where
  "kmem_rest ups 0 s = Some s"
| "kmem_rest ups (Suc n) s = do { (_, s) \<leftarrow> kmem_page ups s; kmem_rest ups n s }"

text \<open>The pages need not be adjacent, only the address of the first is returned.\<close>

definition kmem_alloc :: "addr list \<Rightarrow> u32 \<Rightarrow> vmem \<Rightarrow> (u32 \<times> vmem) option" where
  "kmem_alloc ups sz s = do {
     let npages = align_page sz div PAGE_SIZE;
     (start, s) \<leftarrow> kmem_page ups s;
     s \<leftarrow> kmem_rest ups (unat npages - 1) s;
     Some (start, s)
   }"

definition alloc_zero_fill_page :: "addr list \<Rightarrow> addr \<times> vm_object \<Rightarrow> addr \<Rightarrow> addr \<Rightarrow> u32 \<Rightarrow> vmem \<Rightarrow>
  (int \<times> vmem) option" where
  "alloc_zero_fill_page ups mem mp e address s = do {
     entry \<leftarrow> ventries s e;
     let (ob, s) = (case en_object entry of
           None \<Rightarrow> let (ob, s) = vm_object_create mem PAGE_SIZE s
                   in (ob, s\<lparr>ventries := (ventries s)(e \<mapsto> entry\<lparr>en_object := Some ob\<rparr>)\<rparr>)
         | Some ob \<Rightarrow> (ob, s));
     let address = page_base address;
     (page, s) \<leftarrow> page_alloc mem (Some ob) address s;
     g \<leftarrow> pages s page;
     m \<leftarrow> vmaps s mp;
     pm \<leftarrow> m_pmap m;
     s \<leftarrow> pmap_enter ups pm (pg_base g) address (PAGE_USER OR PAGE_RW) s;
     Some (0, s)
   }"

section \<open>Translation\<close>

text \<open>
  The walk of the processor through the directory at \<open>pd\<close>: the physical address and the flags of
  the page-table entry, \<open>None\<close> for a page fault.
\<close>

definition translate :: "u32 \<Rightarrow> vmem \<Rightarrow> u32 \<Rightarrow> (u32 \<times> u32) option" where
  "translate pd s va = (
     let e = frames s pd (addr_to_pdenum va);
         t = frames s (addr_to_pte e) (addr_to_ptenum va)
     in if e AND PAGE_PRESENT = 0 \<or> t AND PAGE_PRESENT = 0 then None
        else Some (addr_to_pte t OR (va AND 0xFFF), t AND 0xFFF))"

text \<open>A directory whose tables are present, apart from each other and from the directory itself.\<close>

definition pd_ok :: "vmem \<Rightarrow> u32 \<Rightarrow> bool" where
  "pd_ok s pd \<longleftrightarrow> pd \<noteq> 0 \<and> pd AND 0xFFF = 0 \<and>
     (\<forall>i<NTABLES. frames s pd i \<noteq> 0 \<longrightarrow>
        frames s pd i AND PAGE_PRESENT \<noteq> 0 \<and> addr_to_pte (frames s pd i) \<notin> {0, pd}) \<and>
     (\<forall>i<NTABLES. \<forall>j<NTABLES. i \<noteq> j \<longrightarrow> frames s pd i \<noteq> 0 \<longrightarrow> frames s pd j \<noteq> 0 \<longrightarrow>
        addr_to_pte (frames s pd i) \<noteq> addr_to_pte (frames s pd j))"

lemma pd_ok_cong: "frames s' = frames s \<Longrightarrow> pd_ok s' pd = pd_ok s pd"
  by (simp add: pd_ok_def)

lemma addr_to_pte_aligned [simp]: "addr_to_pte a AND 0xFFF = 0"
  by (simp add: addr_to_pte_def and.assoc)

lemma addr_to_pte_mask: "addr_to_pte a = a AND NOT (mask 12)"
proof -
  have "(0xfffff000 :: u32) = NOT (mask 12)" by code_simp
  then show ?thesis by (simp only: addr_to_pte_def)
qed

lemma pte_present_part: "(addr_to_pte pa OR w) AND 0xFFF = w AND 0xFFF"
  by (simp add: word_ao_dist)

lemma pte_base_part: "w AND 0xFFF = w \<Longrightarrow> addr_to_pte (addr_to_pte pa OR w) = addr_to_pte pa"
proof -
  assume w: "w AND 0xFFF = w"
  have "w AND 0xFFFFF000 = (w AND 0xFFF) AND 0xFFFFF000" using w by simp
  also have "\<dots> = 0" by (simp add: and.assoc)
  finally show ?thesis by (simp add: addr_to_pte_def word_ao_dist and.assoc)
qed

lemma pd_index_bits: "addr_to_pdenum a = addr_to_pdenum b \<Longrightarrow> n < 32 \<Longrightarrow> 22 \<le> n \<Longrightarrow> bit a n = bit b n"
proof -
  assume "addr_to_pdenum a = addr_to_pdenum b" "n < 32" "22 \<le> n"
  then have "drop_bit 22 a AND 0x3FF = drop_bit 22 b AND 0x3FF"
    by (simp add: addr_to_pdenum_def unsigned_word_eqI)
  then have "bit (drop_bit 22 a AND mask 10) (n - 22) = bit (drop_bit 22 b AND mask 10) (n - 22)"
    by (simp add: mask_eq_exp_minus_1)
  moreover have "n - 22 < 10" "n - 22 < 32" using \<open>n < 32\<close> \<open>22 \<le> n\<close> by arith+
  ultimately show "bit a n = bit b n" using \<open>22 \<le> n\<close> by (simp add: bit_simps)
qed

lemma pt_index_bits: "addr_to_ptenum a = addr_to_ptenum b \<Longrightarrow> n < 22 \<Longrightarrow> 12 \<le> n \<Longrightarrow> bit a n = bit b n"
proof -
  assume "addr_to_ptenum a = addr_to_ptenum b" "n < 22" "12 \<le> n"
  then have "drop_bit 12 a AND 0x3FF = drop_bit 12 b AND 0x3FF"
    by (simp add: addr_to_ptenum_def unsigned_word_eqI)
  then have "bit (drop_bit 12 a AND mask 10) (n - 12) = bit (drop_bit 12 b AND mask 10) (n - 12)"
    by (simp add: mask_eq_exp_minus_1)
  moreover have "n - 12 < 10" "n - 12 < 32" using \<open>n < 22\<close> \<open>12 \<le> n\<close> by arith+
  ultimately show "bit a n = bit b n" using \<open>12 \<le> n\<close> by (simp add: bit_simps)
qed

text \<open>The two indices identify the page of an address.\<close>

lemma page_indices:
  "addr_to_pte a = addr_to_pte b \<longleftrightarrow> addr_to_pdenum a = addr_to_pdenum b \<and> addr_to_ptenum a = addr_to_ptenum b"
proof
  assume eq: "addr_to_pte a = addr_to_pte b"
  have bits: "bit a n = bit b n" if "12 \<le> n" for n
    using that eq bit_u32_lt [of a n] bit_u32_lt [of b n] unfolding addr_to_pte_mask by (auto simp: bit_eq_iff bit_simps)
  have "drop_bit 22 a = drop_bit 22 b" "drop_bit 12 a = drop_bit 12 b"
    using bits by (auto simp: bit_eq_iff bit_simps)
  then show "addr_to_pdenum a = addr_to_pdenum b \<and> addr_to_ptenum a = addr_to_ptenum b"
    by (simp add: addr_to_pdenum_def addr_to_ptenum_def)
next
  assume eq: "addr_to_pdenum a = addr_to_pdenum b \<and> addr_to_ptenum a = addr_to_ptenum b"
  have "bit a n = bit b n" if "12 \<le> n" for n
    using that eq pd_index_bits [of a b n] pt_index_bits [of a b n] bit_u32_lt [of a n] bit_u32_lt [of b n]
    by (cases "n < 22"; cases "n < 32") auto
  then show "addr_to_pte a = addr_to_pte b"
    unfolding addr_to_pte_mask by (auto simp: bit_eq_iff bit_simps)
qed

text \<open>Entering a page where the table exists changes the translation of that page and of no other.\<close>

lemma pmap_enter_present:
  assumes m: "pmaps s mp = Some m" and ok: "pd_ok s (pdbr m)"
    and tab: "frames s (pdbr m) (addr_to_pdenum va) \<noteq> 0" and prot: "prot AND 0xFFF = prot"
  obtains s' where "pmap_enter ups mp pa va prot s = Some s'" "\<exists>f. s' = s\<lparr>frames := f\<rparr>" "pd_ok s' (pdbr m)"
    "\<And>va'. addr_to_pte va' = addr_to_pte va \<Longrightarrow>
       translate (pdbr m) s' va' = Some (addr_to_pte pa OR (va' AND 0xFFF), prot OR PAGE_PRESENT)"
    "\<And>va'. addr_to_pte va' \<noteq> addr_to_pte va \<Longrightarrow> translate (pdbr m) s' va' = translate (pdbr m) s va'"
proof -
  let ?pd = "pdbr m" and ?i = "addr_to_pdenum va" and ?j = "addr_to_ptenum va"
  let ?t = "addr_to_pte (frames s ?pd ?i)" and ?v = "addr_to_pte pa OR PAGE_PRESENT OR prot"
  let ?s = "s\<lparr>frames := (frames s)(?t := (frames s ?t)(?j := ?v))\<rparr>"
  have idx: "addr_to_pdenum a < NTABLES" for a by (simp add: NTABLES_def)
  have t: "?t \<noteq> 0" "?t \<noteq> ?pd" "frames s ?pd ?i AND PAGE_PRESENT \<noteq> 0"
    using ok tab idx by (auto simp: pd_ok_def)
  have pd: "frames ?s ?pd = frames s ?pd" using t(2) by simp
  have run: "pmap_enter ups mp pa va prot s = Some ?s"
    using m ok tab t by (subst pmap_enter.simps) (auto simp: fget_def fput_def pd_ok_def)
  have ok': "pd_ok ?s ?pd" using ok unfolding pd_ok_def pd .
  have p: "PAGE_PRESENT AND 0xFFF = PAGE_PRESENT" by (simp add: PAGE_PRESENT_def)
  have w: "(PAGE_PRESENT OR prot) AND 0xFFF = PAGE_PRESENT OR prot" using prot p by (simp add: word_ao_dist)
  have v: "addr_to_pte ?v = addr_to_pte pa" "?v AND 0xFFF = prot OR PAGE_PRESENT"
    using pte_base_part [OF w] pte_present_part [of pa "PAGE_PRESENT OR prot"] w by (simp_all add: or.commute)
  have "0xFFF AND PAGE_PRESENT = PAGE_PRESENT" by (simp add: PAGE_PRESENT_def)
  then have "?v AND PAGE_PRESENT = (?v AND 0xFFF) AND PAGE_PRESENT" by (simp only: and.assoc)
  also have "\<dots> = PAGE_PRESENT" unfolding v by (simp add: word_ao_dist PAGE_PRESENT_def)
  finally have pres: "?v AND PAGE_PRESENT \<noteq> 0" by (simp add: PAGE_PRESENT_def)
  have same: "translate ?pd ?s va' = Some (addr_to_pte pa OR (va' AND 0xFFF), prot OR PAGE_PRESENT)"
    if "addr_to_pte va' = addr_to_pte va" for va'
  proof -
    have "addr_to_pdenum va' = ?i" "addr_to_ptenum va' = ?j" using that page_indices by auto
    then show ?thesis using t pres v by (simp add: translate_def Let_def)
  qed
  have other: "translate ?pd ?s va' = translate ?pd s va'" if ne: "addr_to_pte va' \<noteq> addr_to_pte va" for va'
  proof (cases "frames s ?pd (addr_to_pdenum va') = 0")
    case True
    then show ?thesis using t(2) by (simp add: translate_def Let_def)
  next
    case False
    then have "addr_to_pte (frames s ?pd (addr_to_pdenum va')) \<noteq> ?t \<or> addr_to_ptenum va' \<noteq> ?j"
      using ne page_indices [of va' va] ok tab idx unfolding pd_ok_def by metis
    then show ?thesis using t(2) by (auto simp: translate_def Let_def)
  qed
  show ?thesis using that [OF run _ ok' same other] by blast
qed

text \<open>Unmapping a page whose directory entry is present writes through a pointer with the flags in it.\<close>

lemma pmap_remove_undefined:
  assumes "pmaps s mp = Some m" "pdbr m \<noteq> 0" "sva < eva" "frames s (pdbr m) (addr_to_pdenum sva) AND PAGE_PRESENT \<noteq> 0"
  shows "pmap_remove mp sva eva s = None"
proof -
  have "w AND 0xFFF \<noteq> 0" if "w AND PAGE_PRESENT \<noteq> 0" for w :: u32
  proof
    assume "w AND 0xFFF = 0"
    moreover have "0xFFF AND PAGE_PRESENT = PAGE_PRESENT" by (simp add: PAGE_PRESENT_def)
    ultimately show False using that by (metis and.assoc word_bw_same(1) zero_and_eq)
  qed
  then have "fput (frames s (pdbr m) (addr_to_pdenum sva)) i v s = None" for i v
    using assms(4) by (simp add: fput_def)
  then have "remove_loop (pdbr m) sva eva s = None"
    using assms(3) by (subst remove_loop.simps) (simp add: fget_def)
  then show ?thesis using assms(1,2) by (simp add: pmap_remove_def)
qed

section \<open>Properties\<close>

lemma page_key_frames [simp]: "page_key (s\<lparr>frames := f\<rparr>) = page_key s"
  by (simp add: page_key_def fun_eq_iff)

lemma page_base_pte: "page_base a = addr_to_pte a"
  by (simp add: page_base_def page_mask addr_to_pte_mask)

lemma addr_to_pte_idem [simp]: "addr_to_pte (addr_to_pte a) = addr_to_pte a"
  by (simp add: addr_to_pte_mask and.assoc)

text \<open>
  A fault in zero-filled memory, from the page allocator to the page table: with a free page,
  an object without a page at the faulting address and a page table for it, \<open>alloc_zero_fill_page\<close>
  gives the object the oldest free page, which is then found at the page of the address. The
  faulting address translates to that page, readable and writable for the user, and the
  translation of every other page is unchanged.
\<close>

lemma zero_fill_maps:
  assumes inv: "vm_inv s B (F @ [p]) L" and ob: "ob \<in> dom (objects s)"
    and free: "\<forall>q. in_table q B \<longrightarrow> page_key s q \<noteq> Some (ob, page_base a)"
    and entry: "ventries s e = Some en" "en_object en = Some ob"
    and mp: "vmaps s vmp = Some m" "m_pmap m = Some pm" "pmaps s pm = Some q"
    and pd: "pd_ok s (pdbr q)" "frames s (pdbr q) (addr_to_pdenum a) \<noteq> 0"
  shows "\<exists>s' g. alloc_zero_fill_page ups mem vmp e a s = Some (0, s') \<and> pages s p = Some g \<and>
    vm_page_lookup ob (page_base a) s' = Some (Some p) \<and>
    translate (pdbr q) s' a = Some (addr_to_pte (pg_base g) OR (a AND 0xFFF), PAGE_USER OR PAGE_RW OR PAGE_PRESENT) \<and>
    (\<forall>va. addr_to_pte va \<noteq> addr_to_pte a \<longrightarrow> translate (pdbr q) s' va = translate (pdbr q) s va)"
proof -
  let ?a = "page_base a"
  have idem: "page_base ?a = ?a" "addr_to_pte ?a = addr_to_pte a" by (simp_all add: page_base_pte)
  obtain s1 g h t u where run1: "page_alloc mem (Some ob) ?a s = Some (p, s1)" and g: "pages s p = Some g"
    and s1: "s1 = s\<lparr>pages := (pages s)(p \<mapsto> g\<lparr>pg_object := ob, pg_offset := page_base ?a, pg_count := 1, pg_flags := 0\<rparr>),
       plinks := h, pagehash := t, nfree_pages := nfree_pages s - 1, used_mem := u, used_ram := u\<rparr>"
    and inv1: "vm_inv s1 (B(page_hash ob (page_base ?a) := p # B (page_hash ob (page_base ?a)))) F (L(ob := p # L ob))"
    and p: "\<not> in_table p B"
    by (rule page_alloc_ok [OF inv ob, of ?a]) (use free idem in simp)
  have q1: "pmaps s1 pm = Some q" "pd_ok s1 (pdbr q)" "frames s1 (pdbr q) (addr_to_pdenum ?a) \<noteq> 0"
    using mp(3) pd page_indices [of ?a a] idem by (simp_all add: s1 pd_ok_def)
  have prot: "(PAGE_USER OR PAGE_RW) AND 0xFFF = PAGE_USER OR PAGE_RW" by (simp add: PAGE_USER_def PAGE_RW_def)
  obtain s2 where run2: "pmap_enter ups pm (pg_base g) ?a (PAGE_USER OR PAGE_RW) s1 = Some s2"
    and s2: "\<exists>f. s2 = s1\<lparr>frames := f\<rparr>" "pd_ok s2 (pdbr q)"
    and tr: "\<And>va. addr_to_pte va = addr_to_pte ?a \<Longrightarrow>
       translate (pdbr q) s2 va = Some (addr_to_pte (pg_base g) OR (va AND 0xFFF), (PAGE_USER OR PAGE_RW) OR PAGE_PRESENT)"
    and oth: "\<And>va. addr_to_pte va \<noteq> addr_to_pte ?a \<Longrightarrow> translate (pdbr q) s2 va = translate (pdbr q) s1 va"
    by (rule pmap_enter_present [OF q1 prot, of ups "pg_base g"], rule that)
  have run: "alloc_zero_fill_page ups mem vmp e a s = Some (0, s2)"
    using entry mp run1 run2 by (simp add: alloc_zero_fill_page_def s1)
  have key: "page_key s1 p = Some (ob, ?a)" by (simp add: page_key_def s1 idem)
  have "vm_page_lookup ob ?a s1 = Some (Some p)"
    by (rule vm_inv_find [OF inv1 _ key]) (simp add: NWORDS_def)
  then have "vm_page_lookup ob ?a s2 = Some (Some p)"
    using s2(1) by (auto simp: vm_page_lookup_def)
  moreover have "translate (pdbr q) s1 va = translate (pdbr q) s va" for va by (simp add: translate_def s1)
  ultimately show ?thesis using run g tr [of a] oth idem by (auto simp: or.assoc)
qed

text \<open>A process map at 800 with an entry for the object at 300 and one page table.\<close>

definition pmap_ex :: vmem where
  "pmap_ex = vm_ex\<lparr>ventries := [700 \<mapsto> \<lparr>en_start = 0, en_end = 0x10000, en_object = Some 300, en_type = 1, en_attr = 0\<rparr>],
     vmaps := [800 \<mapsto> \<lparr>vmentry = Some 700, m_pmap = Some 900, m_size = 0, ref_count = 1, m_start = 0, m_end = 0xE0000000,
       hint = None, m_private = 0, m_attr = 0\<rparr>],
     pmaps := [900 \<mapsto> \<lparr>pdbr = 0x150000\<rparr>], frames := (\<lambda>_ _. 0)(0x150000 := (\<lambda>_. 0)(0 := 0x151007))\<rparr>"

lemma pmap_ex_ok:
  "vm_inv pmap_ex (\<lambda>_. []) ([240] @ [200]) (\<lambda>_. [])" "300 \<in> dom (objects pmap_ex)"
  "pmaps pmap_ex 900 = Some \<lparr>pdbr = 0x150000\<rparr>" "pages pmap_ex 200 = Some (page0\<lparr>pg_base := 0x100000\<rparr>)"
  "pd_ok pmap_ex 0x150000" "frames pmap_ex 0x150000 (addr_to_pdenum 0x5123) \<noteq> 0"
  "translate 0x150000 pmap_ex 0x6000 = None"
proof -
  have "page_key pmap_ex = page_key vm_ex" by (simp add: pmap_ex_def page_key_def fun_eq_iff)
  then show "vm_inv pmap_ex (\<lambda>_. []) ([240] @ [200]) (\<lambda>_. [])"
    using vm_ex_inv by (simp add: vm_inv_def) (simp add: pmap_ex_def free_list_def)
  have idx: "addr_to_pdenum 0x5123 = 0" "addr_to_pdenum 0x6000 = 0" "addr_to_ptenum 0x6000 = 6"
    by (simp_all add: addr_to_pdenum_def addr_to_ptenum_def)
  show "pd_ok pmap_ex 0x150000" "frames pmap_ex 0x150000 (addr_to_pdenum 0x5123) \<noteq> 0"
    using idx by (simp_all add: pd_ok_def pmap_ex_def PAGE_PRESENT_def addr_to_pte_def)
  show "translate 0x150000 pmap_ex 0x6000 = None" by (simp add: translate_def pmap_ex_def idx PAGE_PRESENT_def)
qed (simp_all add: pmap_ex_def vm_ex_def)

end
