(* ===== verification/VmMap.thy ===== *)
theory VmMap
  imports Pmap KState
begin

unbundle bit_operations_syntax

text \<open>
  Memory maps: \<^verbatim>\<open>src/microkernel/mm/vm_map.c\<close> and \<^verbatim>\<open>mm/vm.c\<close>, and the functions of
  \<^verbatim>\<open>mm/vm_page.c\<close> that look an address up in a map.

  The entries of a map form a ring without a separate head: \<open>vmentry\<close> is one of the entries. The
  link is the first field of an entry, so the ring is one of \<open>elinks\<close>. Memory for new entries,
  maps, objects and page maps is an argument, with what it holds.
\<close>

definition VM_MAP_ENTRY_ZERO_FILL :: u16 where "VM_MAP_ENTRY_ZERO_FILL = 1"
definition VM_MAP_ENTRY_OBJECT_FIXED :: u16 where "VM_MAP_ENTRY_OBJECT_FIXED = 4"
definition VM_MAP_ENTRY_ANON :: u16 where "VM_MAP_ENTRY_ANON = 8"
definition VM_MAP_ENTRY_LOCKED :: u16 where "VM_MAP_ENTRY_LOCKED = 16"
definition VM_MAP_ENTRY_WRITE :: u32 where "VM_MAP_ENTRY_WRITE = 2"
definition VM_LOCK :: u32 where "VM_LOCK = 3"
definition COW_IN_PROGRESS :: u32 where "COW_IN_PROGRESS = 1"
definition COPY_ON_WRITE :: u32 where "COPY_ON_WRITE = 2"
definition OBJECT_SHADOW :: u32 where "OBJECT_SHADOW = 4"
definition DUP_ALL :: u32 where "DUP_ALL = 1"
definition DUP_SHARE :: u32 where "DUP_SHARE = 2"
definition DUP_NONE :: u32 where "DUP_NONE = 4"

definition upd_entry :: "addr \<Rightarrow> (vm_map_entry \<Rightarrow> vm_map_entry) \<Rightarrow> vmem \<Rightarrow> vmem" where
  "upd_entry e f s = s\<lparr>ventries := (ventries s)(e := map_option f (ventries s e))\<rparr>"

definition upd_vmap :: "addr \<Rightarrow> (vm_map_struct \<Rightarrow> vm_map_struct) \<Rightarrow> vmem \<Rightarrow> vmem" where
  "upd_vmap m f s = s\<lparr>vmaps := (vmaps s)(m := map_option f (vmaps s m))\<rparr>"

section \<open>Entries\<close>

definition create_vm_entry :: "addr \<times> vm_map_entry \<Rightarrow> addr \<Rightarrow> addr option \<Rightarrow> vmem \<Rightarrow> (addr \<times> vmem) option" where
  "create_vm_entry mem mp nextentry s = do {
     m \<leftarrow> vmaps s mp;
     let e = fst mem;
     let s = s\<lparr>ventries := (ventries s)(e \<mapsto> snd mem)\<rparr>;
     case vmentry m of
       Some first \<Rightarrow>
         Some (e, s\<lparr>elinks := (case nextentry of
             Some n \<Rightarrow> list_add_next n e (elinks s)
           | None \<Rightarrow> list_add first e (elinks s))\<rparr>)
     | None \<Rightarrow> Some (e, (upd_vmap mp (\<lambda>m. m\<lparr>vmentry := Some e\<rparr>) s)\<lparr>elinks := list_init e (elinks s)\<rparr>)
   }"

text \<open>The search starts with the hint, and the entry found becomes the hint. The end of an entry counts as inside.\<close>

definition covers :: "vm_map_entry \<Rightarrow> u32 \<Rightarrow> bool" where
  "covers en a \<longleftrightarrow> en_start en \<le> a \<and> a \<le> en_end en"

partial_function (option) lookup_walk :: "vmem \<Rightarrow> addr \<Rightarrow> u32 \<Rightarrow> addr \<Rightarrow> addr option option" where
  "lookup_walk s first a tmp = (
     if tmp = 0 then Some None
     else do {
       en \<leftarrow> ventries s tmp;
       if covers en a then Some (Some tmp)
       else if lnext (elinks s) tmp = first then Some None
       else lookup_walk s first a (lnext (elinks s) tmp)
     })"

definition vm_map_lookup_entry :: "addr \<Rightarrow> u32 \<Rightarrow> vmem \<Rightarrow> (addr option \<times> vmem) option" where
  "vm_map_lookup_entry mp a s = do {
     m \<leftarrow> vmaps s mp;
     case vmentry m of
       None \<Rightarrow> Some (None, s)
     | Some first \<Rightarrow> do {
         hit \<leftarrow> (case hint m of None \<Rightarrow> Some None | Some h \<Rightarrow> do { en \<leftarrow> ventries s h; Some (if covers en a then Some h else None) });
         case hit of
           Some h \<Rightarrow> Some (Some h, s)
         | None \<Rightarrow> do {
             r \<leftarrow> lookup_walk s first a first;
             Some (r, case r of None \<Rightarrow> s | Some t \<Rightarrow> upd_vmap mp (\<lambda>m. m\<lparr>hint := Some t\<rparr>) s)
           }
       }
   }"

text \<open>
  The structure assignment copies the links of the entry too. The entry has just been made to
  point to the new one, so the new entry becomes its own successor.
\<close>

definition vm_map_entry_clip :: "addr \<times> vm_map_entry \<Rightarrow> addr \<Rightarrow> addr \<Rightarrow> u32 \<Rightarrow> vmem \<Rightarrow>
  (addr option \<times> vmem) option" where
  "vm_map_entry_clip mem mp e start s = do {
     en \<leftarrow> ventries s e;
     if start = en_start en then Some (Some e, s)
     else if start > en_start en \<and> start < en_end en then do {
       (n, s) \<leftarrow> create_vm_entry mem mp (Some e) s;
       let s = s\<lparr>ventries := (ventries s)(n \<mapsto> en),
                 elinks := set_prev n (lprev (elinks s) e) (set_next n (lnext (elinks s) e) (elinks s))\<rparr>;
       ob \<leftarrow> en_object en;
       _ \<leftarrow> objects s ob;
       let s = upd_object ob (\<lambda>b. b\<lparr>ob_ref := ob_ref b + 1\<rparr>) s;
       let s = upd_entry e (\<lambda>en. en\<lparr>en_end := start\<rparr>) (upd_entry n (\<lambda>en. en\<lparr>en_start := start\<rparr>) s);
       Some (Some n, s)
     }
     else Some (None, s)
   }"

definition dealloc_vm_map_entry :: "addr \<Rightarrow> addr \<Rightarrow> vmem \<Rightarrow> vmem option" where
  "dealloc_vm_map_entry mp e s = do {
     m \<leftarrow> vmaps s mp;
     first \<leftarrow> vmentry m;
     _ \<leftarrow> ventries s e;
     Some (s\<lparr>elinks := list_del first e (elinks s), ventries := (ventries s)(e := None)\<rparr>)
   }"

definition delete_vm_map_entry :: "addr \<Rightarrow> addr \<Rightarrow> vmem \<Rightarrow> (int \<times> vmem) option" where
  "delete_vm_map_entry mp e s = do {
     en \<leftarrow> ventries s e;
     ob \<leftarrow> en_object en;
     s \<leftarrow> delete_object ob s;
     s \<leftarrow> dealloc_vm_map_entry mp e s;
     Some (0, s)
   }"

section \<open>Maps\<close>

definition vm_map_init :: "addr \<Rightarrow> vmem \<Rightarrow> vmem" where
  "vm_map_init kernel_entry s = (
     let sva = align_page (start_va s)
     in (upd_entry kernel_entry (\<lambda>en. en\<lparr>en_start := sva, en_end := 0x1FFFFFFF\<rparr>) s)\<lparr>start_va := sva,
          elinks := list_init kernel_entry (elinks s)\<rparr>)"

definition vm_map_create :: "addr \<times> vm_map_struct \<Rightarrow> vmem \<Rightarrow> addr \<times> vmem" where
  "vm_map_create mem s =
     (fst mem, s\<lparr>vmaps := (vmaps s)(fst mem \<mapsto> (snd mem)\<lparr>m_start := 0, m_end := KERNEL_BASE, ref_count := 1\<rparr>)\<rparr>)"

definition vm_map_destroy :: "addr \<Rightarrow> vmem \<Rightarrow> vmem option" where
  "vm_map_destroy mp s = do {
     m \<leftarrow> vmaps s mp;
     Some (if ref_count m = 0 then s\<lparr>vmaps := (vmaps s)(mp := None)\<rparr> else s)
   }"

text \<open>The entries of a map, copied one by one; \<open>mems\<close> is the memory of the new entries in order.\<close>

partial_function (option) copy_loop :: "(addr \<times> vm_map_entry) list \<Rightarrow> addr \<Rightarrow> addr \<Rightarrow> addr option \<Rightarrow> addr \<Rightarrow> vmem \<Rightarrow>
  vmem option" where
  "copy_loop mems new first niterate iterate s = do {
     check (mems \<noteq> []);
     (n, s) \<leftarrow> create_vm_entry (hd mems) new niterate s;
     en \<leftarrow> ventries s iterate;
     let s = upd_entry n (\<lambda>x. x\<lparr>en_start := en_start en, en_end := en_end en, en_object := en_object en,
               en_type := en_type en, en_attr := en_attr en\<rparr>) s;
     ob \<leftarrow> en_object en;
     _ \<leftarrow> objects s ob;
     let s = upd_object ob (\<lambda>b. b\<lparr>attribute := attribute b OR (COPY_ON_WRITE OR COW_IN_PROGRESS), ob_ref := ob_ref b + 1\<rparr>) s;
     if lnext (elinks s) iterate = first then Some s
     else copy_loop (tl mems) new first (Some n) (lnext (elinks s) iterate) s
   }"

partial_function (option) last_shadow :: "(addr \<Rightarrow> vm_object option) \<Rightarrow> addr \<Rightarrow> addr option" where
  "last_shadow obs ob = do {
     b \<leftarrow> obs ob;
     case shadow b of None \<Rightarrow> Some ob | Some o2 \<Rightarrow> last_shadow obs o2
   }"

partial_function (option) cow_done_loop :: "addr \<Rightarrow> addr \<Rightarrow> vmem \<Rightarrow> vmem option" where
  "cow_done_loop first iterate s = do {
     en \<leftarrow> ventries s iterate;
     ob \<leftarrow> en_object en;
     ob \<leftarrow> last_shadow (objects s) ob;
     let s = upd_object ob (\<lambda>b. b\<lparr>attribute := attribute b AND NOT COW_IN_PROGRESS\<rparr>) s;
     if lnext (elinks s) iterate = first then Some s else cow_done_loop first (lnext (elinks s) iterate) s
   }"

definition vm_entry_copy :: "(addr \<times> vm_map_entry) list \<Rightarrow> addr \<Rightarrow> addr \<Rightarrow> vmem \<Rightarrow> vmem option" where
  "vm_entry_copy mems new old s = do {
     m \<leftarrow> vmaps s old;
     first \<leftarrow> vmentry m;
     s \<leftarrow> copy_loop mems new first None first s;
     cow_done_loop first first s
   }"

text \<open>The memory a fork of a map needs: for the map, its entries and its page map.\<close>

record fork_mem =
  fm_map :: "addr \<times> vm_map_struct"
  fm_entries :: "(addr \<times> vm_map_entry) list"
  fm_pmap :: "addr \<times> pmap"

definition vm_map_fork :: "addr list \<Rightarrow> fork_mem \<Rightarrow> addr \<Rightarrow> u32 \<Rightarrow> vmem \<Rightarrow> (addr \<times> vmem) option" where
  "vm_map_fork ups fm mp flag s = do {
     let (new, s) = vm_map_create (fm_map fm) s;
     let s = upd_vmap new (\<lambda>m. m\<lparr>m_start := 0x200000, m_end := KERNEL_BASE - 1, hint := None\<rparr>) s;
     if flag AND DUP_ALL \<noteq> 0 then do {
       let s = upd_vmap new (\<lambda>m. m\<lparr>m_pmap := None, vmentry := None\<rparr>) s;
       s \<leftarrow> vm_entry_copy (fm_entries fm) new mp s;
       m \<leftarrow> vmaps s mp;
       pm \<leftarrow> m_pmap m;
       (p, s) \<leftarrow> pmap_copy ups (fm_pmap fm) pm s;
       Some (new, upd_vmap new (\<lambda>m. m\<lparr>m_pmap := Some p\<rparr>) s)
     }
     else if flag AND DUP_NONE \<noteq> 0 then do {
       let s = upd_vmap new (\<lambda>m. m\<lparr>vmentry := None, m_size := KERNEL_BASE\<rparr>) s;
       let (p, s) = pmap_create (fm_pmap fm) s;
       let s = upd_vmap new (\<lambda>m. m\<lparr>m_pmap := Some p\<rparr>) s;
       s \<leftarrow> pmap_share_kernel ups p s;
       Some (new, s)
     }
     else Some (new, s)
   }"

text \<open>
  The loop over the entries compares each with the first one before it starts, so that it does
  nothing. The map and its page tables are freed by the caller.
\<close>

definition exit_vm_map :: "addr \<Rightarrow> vmem \<Rightarrow> vmem option" where
  "exit_vm_map mp s = do { _ \<leftarrow> vmaps s mp; Some (upd_vmap mp (\<lambda>m. m\<lparr>ref_count := ref_count m - 1\<rparr>) s) }"

section \<open>Entering and removing ranges\<close>

definition new_entry :: "addr \<times> vm_map_entry \<Rightarrow> addr \<Rightarrow> addr option \<Rightarrow> u32 \<Rightarrow> u32 \<Rightarrow> addr option \<Rightarrow> u16 \<Rightarrow> u32 \<Rightarrow> vmem \<Rightarrow>
  (int \<times> u32 \<times> vmem) option" where
  "new_entry mem mp prv start fin object attr address s = do {
     m \<leftarrow> vmaps s mp;
     if fin > m_end m then Some (- ENOMEM, address, s)
     else do {
       (e, s) \<leftarrow> create_vm_entry mem mp prv s;
       Some (0, start, upd_entry e (\<lambda>en. en\<lparr>en_object := object, en_start := start, en_end := fin, en_type := attr\<rparr>) s)
     }
   }"

text \<open>
  The search for a gap behind the entry that holds the address. \<open>fin\<close> is computed from the end of
  the entry before the one whose successor it is compared with, from the second round on.
\<close>

partial_function (option) gap_walk :: "(addr \<Rightarrow> vm_map_entry option) \<Rightarrow> (addr \<Rightarrow> addr) \<Rightarrow> addr \<Rightarrow> u32 \<Rightarrow> u32 \<Rightarrow> addr \<Rightarrow>
  addr option" where
  "gap_walk ens nx first sz fin new = do {
     en \<leftarrow> ens new;
     if nx new = first then Some new
     else do {
       nen \<leftarrow> ens (nx new);
       if fin < en_start nen then Some new
       else gap_walk ens nx first sz (en_end en + sz) (nx new)
     }
   }"

text \<open>The entry a fixed mapping is put behind, or \<open>None\<close> inside when the range is taken.\<close>

partial_function (option) fixed_walk :: "(addr \<Rightarrow> vm_map_entry option) \<Rightarrow> (addr \<Rightarrow> addr) \<Rightarrow> addr \<Rightarrow> u32 \<Rightarrow> u32 \<Rightarrow> addr \<Rightarrow>
  addr option option" where
  "fixed_walk ens nx first start fin e = do {
     en \<leftarrow> ens e;
     if fin > en_start en \<and> fin < en_end en then Some None
     else if start < en_start en then (if fin > en_start en then Some None else Some (Some e))
     else if nx e = first then Some (Some first)
     else fixed_walk ens nx first start fin (nx e)
   }"

text \<open>The result is the return value and the address stored for the caller.\<close>

definition vm_map_enter :: "addr \<times> vm_map_entry \<Rightarrow> addr \<Rightarrow> u32 \<Rightarrow> u32 \<Rightarrow> addr option \<Rightarrow> u16 \<Rightarrow> vmem \<Rightarrow>
  (int \<times> u32 \<times> vmem) option" where
  "vm_map_enter mem mp address sz object attr s = do {
     m \<leftarrow> vmaps s mp;
     case vmentry m of
       None \<Rightarrow> new_entry mem mp None address (address + sz) object attr address s
     | Some first \<Rightarrow> do {
         (r, s) \<leftarrow> vm_map_lookup_entry mp address s;
         case r of
           Some n \<Rightarrow>
             if attr AND VM_MAP_ENTRY_OBJECT_FIXED \<noteq> 0 then Some (- EINVAL, address, s)
             else do {
               en \<leftarrow> ventries s n;
               n \<leftarrow> gap_walk (ventries s) (lnext (elinks s)) first sz (en_end en + sz) n;
               en \<leftarrow> ventries s n;
               if object = None \<and> en_type en AND attr \<noteq> 0 then
                 Some (0, en_end en, upd_entry n (\<lambda>en. en\<lparr>en_end := en_end en + sz\<rparr>) s)
               else new_entry mem mp (Some n) (en_end en) (en_end en + sz) object attr address s
             }
         | None \<Rightarrow> do {
             w \<leftarrow> fixed_walk (ventries s) (lnext (elinks s)) first address (address + sz) first;
             case w of
               None \<Rightarrow> Some (- ENOMEM, address, s)
             | Some e \<Rightarrow> new_entry mem mp (Some e) address (address + sz) object attr address s
           }
       }
   }"

text \<open>Cutting out the range is common to the operations below; \<open>mems\<close> is the memory of the two new entries.\<close>

definition clip_range :: "(addr \<times> vm_map_entry) \<times> (addr \<times> vm_map_entry) \<Rightarrow> addr \<Rightarrow> u32 \<Rightarrow> u32 \<Rightarrow> vmem \<Rightarrow>
  ((addr \<times> addr) option \<times> vmem) option" where
  "clip_range mems mp off sz s = do {
     (r, s) \<leftarrow> vm_map_lookup_entry mp off s;
     case r of
       None \<Rightarrow> Some (None, s)
     | Some e \<Rightarrow> do {
         (r, s) \<leftarrow> vm_map_entry_clip (fst mems) mp e off s;
         case r of
           None \<Rightarrow> Some (None, s)
         | Some n \<Rightarrow> do {
             (_, s) \<leftarrow> vm_map_entry_clip (snd mems) mp n (off + sz) s;
             Some (Some (e, n), s)
           }
       }
   }"

definition vm_map_remove :: "(addr \<times> vm_map_entry) \<times> (addr \<times> vm_map_entry) \<Rightarrow> addr \<Rightarrow> u32 \<Rightarrow> u32 \<Rightarrow> vmem \<Rightarrow>
  (int \<times> vmem) option" where
  "vm_map_remove mems mp off sz s = do {
     (r, s) \<leftarrow> clip_range mems mp off sz s;
     case r of
       None \<Rightarrow> Some (- 1, s)
     | Some (e, n) \<Rightarrow> do { (_, s) \<leftarrow> delete_vm_map_entry mp n s; Some (0, s) }
   }"

text \<open>The loops of \<open>vm_lock_all\<close> and \<open>vm_unlock_all\<close> start where they end.\<close>

definition vm_lock_all :: "addr \<Rightarrow> vmem \<Rightarrow> (int \<times> vmem) option" where
  "vm_lock_all mp s = do { _ \<leftarrow> vmaps s mp; Some (0, s) }"

definition vm_unlock_all :: "addr \<Rightarrow> vmem \<Rightarrow> (int \<times> vmem) option" where
  "vm_unlock_all mp s = do { _ \<leftarrow> vmaps s mp; Some (0, s) }"

text \<open>\<open>su\<close> is the result of \<open>superuser\<close>.\<close>

definition vm_lock :: "bool \<Rightarrow> (addr \<times> vm_map_entry) \<times> (addr \<times> vm_map_entry) \<Rightarrow> addr \<Rightarrow> u32 \<Rightarrow> u32 \<Rightarrow> u32 \<Rightarrow> vmem \<Rightarrow>
  (int \<times> vmem) option" where
  "vm_lock su mems mp off sz flag s =
     (if \<not> su then Some (- EPERM, s)
      else if flag \<noteq> 0 then vm_lock_all mp (upd_vmap mp (\<lambda>m. m\<lparr>m_attr := flag\<rparr>) s)
      else do {
        (r, s) \<leftarrow> clip_range mems mp off sz s;
        case r of
          None \<Rightarrow> Some (- ENOMEM, s)
        | Some (e, n) \<Rightarrow> do {
            let s = upd_entry n (\<lambda>en. en\<lparr>en_attr := en_attr en OR VM_MAP_ENTRY_LOCKED\<rparr>) s;
            en \<leftarrow> ventries s e;
            s \<leftarrow> vm_lock_object en s;
            Some (0, s)
          }
      })"

definition vm_unlock :: "bool \<Rightarrow> (addr \<times> vm_map_entry) \<times> (addr \<times> vm_map_entry) \<Rightarrow> addr \<Rightarrow> u32 \<Rightarrow> u32 \<Rightarrow> u32 \<Rightarrow> vmem \<Rightarrow>
  (int \<times> vmem) option" where
  "vm_unlock su mems mp off sz flag s =
     (if \<not> su then Some (- EPERM, s)
      else if flag \<noteq> 0 then vm_unlock_all mp (upd_vmap mp (\<lambda>m. m\<lparr>m_attr := m_attr m AND NOT VM_LOCK\<rparr>) s)
      else do {
        (r, s) \<leftarrow> clip_range mems mp off sz s;
        case r of
          None \<Rightarrow> Some (- ENOMEM, s)
        | Some (e, n) \<Rightarrow> do {
            let s = upd_entry n (\<lambda>en. en\<lparr>en_attr := en_attr en AND NOT VM_MAP_ENTRY_LOCKED\<rparr>) s;
            en \<leftarrow> ventries s e;
            s \<leftarrow> vm_unlock_object en s;
            Some (0, s)
          }
      })"

definition vm_protect :: "(addr \<times> vm_map_entry) \<times> (addr \<times> vm_map_entry) \<Rightarrow> addr \<Rightarrow> u32 \<Rightarrow> u32 \<Rightarrow> u32 \<Rightarrow> vmem \<Rightarrow>
  (int \<times> vmem) option" where
  "vm_protect mems mp off sz prot s = do {
     (r, s) \<leftarrow> clip_range mems mp off sz s;
     case r of
       None \<Rightarrow> Some (- ENOMEM, s)
     | Some (e, n) \<Rightarrow> do {
         let s = upd_entry n (\<lambda>en. en\<lparr>en_attr := en_attr en OR ucast prot\<rparr>) s;
         m \<leftarrow> vmaps s mp;
         pm \<leftarrow> m_pmap m;
         (_, s) \<leftarrow> pmap_protect pm off (off + sz) prot s;
         Some (0, s)
       }
   }"

section \<open>Virtual addresses\<close>

partial_function (option) vaddr_walk :: "addr \<Rightarrow> addr \<Rightarrow> u32 \<Rightarrow> u32 \<Rightarrow> addr \<Rightarrow> vmem \<Rightarrow> (u32 \<times> vmem) option" where
  "vaddr_walk mp first sz limit e s = do {
     en \<leftarrow> ventries s e;
     nen \<leftarrow> ventries s (lnext (elinks s) e);
     let fin = en_end en + sz;
     if fin < en_start nen \<or> lnext (elinks s) e = first then
       (if fin > limit then Some (0, s)
        else Some (en_end en, upd_entry e (\<lambda>en. en\<lparr>en_end := fin\<rparr>) s))
     else vaddr_walk mp first sz limit (lnext (elinks s) e) s
   }"

definition get_vaddr :: "addr \<Rightarrow> u32 \<Rightarrow> vmem \<Rightarrow> (u32 \<times> vmem) option" where
  "get_vaddr mp sz s = do { m \<leftarrow> vmaps s mp; first \<leftarrow> vmentry m; vaddr_walk mp first sz (m_end m) first s }"

definition free_vaddr :: "(addr \<times> vm_map_entry) \<times> (addr \<times> vm_map_entry) \<Rightarrow> addr \<Rightarrow> u32 \<Rightarrow> u32 \<Rightarrow> vmem \<Rightarrow>
  (int \<times> vmem) option" where
  "free_vaddr mems mp va sz s = do { (_, s) \<leftarrow> clip_range mems mp va sz s; Some (1, s) }"

text \<open>\<open>vm_allocate\<close> ignores the result of \<open>vm_map_enter\<close>; the address is stored for the caller.\<close>

definition vm_allocate :: "addr \<times> vm_map_entry \<Rightarrow> addr \<Rightarrow> u32 \<Rightarrow> vmem \<Rightarrow> (int \<times> u32 \<times> vmem) option" where
  "vm_allocate mem mp sz s = do {
     m \<leftarrow> vmaps s mp;
     (_, a, s) \<leftarrow> vm_map_enter mem mp (m_start m) (align_page sz) None VM_MAP_ENTRY_ZERO_FILL s;
     Some (0, a, s)
   }"

definition vm_deallocate :: "(addr \<times> vm_map_entry) \<times> (addr \<times> vm_map_entry) \<Rightarrow> addr \<Rightarrow> u32 \<Rightarrow> u32 \<Rightarrow> vmem \<Rightarrow>
  (int \<times> vmem) option" where
  "vm_deallocate mems mp off sz s = vm_map_remove mems mp (page_base off) (align_page sz) s"

text \<open>
  The pages of the sender, entered one after the other into the receiver. \<open>times\<close> is tested after
  it was decremented, so that no pages at all are \<open>2^32\<close> pages.
\<close>

partial_function (option) share_loop :: "addr list \<Rightarrow> addr \<Rightarrow> addr \<Rightarrow> u32 \<Rightarrow> u32 \<Rightarrow> u32 \<Rightarrow> u32 \<Rightarrow> vmem \<Rightarrow> (int \<times> vmem) option" where
  "share_loop ups rcv snd_map va nextva n flag s = do {
     (r, s) \<leftarrow> vm_map_lookup_entry snd_map va s;
     case r of
       None \<Rightarrow> Some (- 1, s)
     | Some e \<Rightarrow> do {
         en \<leftarrow> ventries s e;
         ob \<leftarrow> en_object en;
         let va = page_base va;
         r \<leftarrow> vm_page_lookup ob va s;
         case r of
           None \<Rightarrow> Some (- 1, s)
         | Some page \<Rightarrow> do {
             g \<leftarrow> pages s page;
             m \<leftarrow> vmaps s rcv;
             pm \<leftarrow> m_pmap m;
             s \<leftarrow> pmap_enter ups pm (pg_base g) nextva flag s;
             if n - 1 = 0 then Some (0, s)
             else share_loop ups rcv snd_map (va + PAGE_SIZE) (nextva + PAGE_SIZE) (n - 1) flag s
           }
       }
   }"

text \<open>The result is the return value and the pointer for the receiver.\<close>

definition vm_share_addr :: "addr list \<Rightarrow> addr \<times> vm_map_entry \<Rightarrow> addr \<Rightarrow> addr \<Rightarrow> u32 \<Rightarrow> u32 \<Rightarrow> u32 \<Rightarrow> vmem \<Rightarrow>
  (int \<times> u32 \<times> vmem) option" where
  "vm_share_addr ups mem rcv snd_map va sz flag s = do {
     let sz = align_page sz;
     (_, nextva, s) \<leftarrow> vm_allocate mem rcv sz s;
     (ret, s) \<leftarrow> share_loop ups rcv snd_map va nextva (sz div PAGE_SIZE) flag s;
     Some (ret, if ret = 0 then nextva + (va - page_base va) else nextva, s)
   }"

definition vm_unshare_addr :: "(addr \<times> vm_map_entry) \<times> (addr \<times> vm_map_entry) \<Rightarrow> addr \<Rightarrow> u32 \<Rightarrow> u32 \<Rightarrow> vmem \<Rightarrow>
  (int \<times> vmem) option" where
  "vm_unshare_addr mems mp off sz s = do {
     (_, s) \<leftarrow> vm_deallocate mems mp off sz s;
     m \<leftarrow> vmaps s mp;
     pm \<leftarrow> m_pmap m;
     s \<leftarrow> pmap_remove pm off (off + sz) s;
     Some (0, s)
   }"

text \<open>\<open>vm_map\<close>: the result is the address and what is left in the caller's \<open>vn_object\<close>.\<close>

definition vm_map :: "addr list \<Rightarrow> addr \<times> vm_object \<Rightarrow> addr \<times> vm_map_entry \<Rightarrow> addr \<Rightarrow> vn_object \<Rightarrow> u32 \<Rightarrow> vmem \<Rightarrow>
  (u32 \<times> vn_object \<times> vmem) option" where
  "vm_map ups omem emem mp vno type s = do {
     let pa = vn_va vno;
     let (ob, s) = vm_object_create omem (vn_size vno) s;
     let prot = PAGE_USER OR (if protection vno AND VM_MAP_ENTRY_WRITE \<noteq> 0 then PAGE_RW else 0);
     let type = (if vn_va vno = 0 \<and> type AND ucast VM_MAP_ENTRY_ZERO_FILL = 0 then type OR ucast VM_MAP_ENTRY_ZERO_FILL else type);
     m \<leftarrow> vmaps s mp;
     let vno = (if type AND ucast VM_MAP_ENTRY_OBJECT_FIXED = 0 then vno\<lparr>vn_va := m_start m\<rparr> else vno);
     let s = upd_object ob (\<lambda>b. b\<lparr>vn := vno\<rparr>) s;
     let vno = vno\<lparr>vn_va := page_base (vn_va vno)\<rparr>;
     (_, a, s) \<leftarrow> vm_map_enter emem mp (vn_va vno) (vn_size vno) (Some ob) (ucast type) s;
     let vno = vno\<lparr>vn_va := a\<rparr>;
     s \<leftarrow> (if type AND ucast VM_MAP_ENTRY_ANON \<noteq> 0 \<and> type AND ucast VM_MAP_ENTRY_ZERO_FILL = 0 then do {
            m \<leftarrow> vmaps s mp;
            pm \<leftarrow> m_pmap m;
            let prot = (if map_type vno AND VM_MAP_ENTRY_WRITE \<noteq> 0 then PAGE_RW else prot);
            pmap_enter_range ups pm pa a (vn_size vno) (prot OR PAGE_USER) s
          }
          else Some s);
     Some (a, vno, s)
   }"

section \<open>Kernel memory and copy on write\<close>

partial_function (option) shadow_walk :: "u32 \<Rightarrow> vmem \<Rightarrow> addr option \<Rightarrow> vmem option" where
  "shadow_walk va s object = (
     case object of
       None \<Rightarrow> Some s
     | Some ob \<Rightarrow> do {
         b \<leftarrow> objects s ob;
         r \<leftarrow> vm_page_lookup ob va s;
         case r of
           Some page \<Rightarrow> page_free page s
         | None \<Rightarrow> shadow_walk va s (shadow b)
       })"

definition kmem_dealloc :: "addr \<Rightarrow> u32 \<Rightarrow> vmem \<Rightarrow> vmem option" where
  "kmem_dealloc mp va s = do {
     (r, s) \<leftarrow> vm_map_lookup_entry mp va s;
     case r of
       None \<Rightarrow> Some s
     | Some e \<Rightarrow> do { en \<leftarrow> ventries s e; shadow_walk va s (en_object en) }
   }"

text \<open>Only the first page is freed, whatever the size.\<close>

definition kmem_free :: "u32 \<Rightarrow> u32 \<Rightarrow> vmem \<Rightarrow> (int \<times> vmem) option" where
  "kmem_free va sz s = do { s \<leftarrow> kmem_dealloc (kernel_vmmap s) va s; Some (0, s) }"

text \<open>
  \<open>handle_cow\<close>; \<open>copy\<close> is \<open>ker_to_usr\<close>, which copies the page. The new object, when one is
  created, is not put into the entry.
\<close>

definition handle_cow :: "(u32 \<Rightarrow> u32 \<Rightarrow> vmem \<Rightarrow> vmem) \<Rightarrow> addr list \<Rightarrow> addr \<times> vm_object \<Rightarrow> addr \<Rightarrow> addr \<Rightarrow> u32 \<Rightarrow> vmem \<Rightarrow>
  (int \<times> vmem) option" where
  "handle_cow copy ups omem mp e off s = do {
     let a = page_base off;
     en \<leftarrow> ventries s e;
     top \<leftarrow> en_object en;
     ob \<leftarrow> last_shadow (objects s) top;
     r \<leftarrow> vm_page_lookup ob a s;
     case r of
       None \<Rightarrow> Some (- 1, s)
     | Some page \<Rightarrow> do {
         b \<leftarrow> objects s ob;
         m \<leftarrow> vmaps s mp;
         pm \<leftarrow> m_pmap m;
         (_, s) \<leftarrow> (if ob_ref b = 1 then pmap_protect pm a (a + PAGE_SIZE) VM_PAGE_WRITE s else Some (0, s));
         t \<leftarrow> objects s top;
         let (sh, s) = (if attribute t AND OBJECT_SHADOW = 0 then vm_object_create omem PAGE_SIZE s else (top, s));
         (page2, s) \<leftarrow> page_alloc omem (Some sh) a s;
         g2 \<leftarrow> pages s page2;
         s \<leftarrow> pmap_enter ups pm (pg_base g2) a (PAGE_RW OR PAGE_USER) s;
         g \<leftarrow> pages s page;
         s \<leftarrow> pmap_enter ups pm (pg_base g) (pg_base g + KERNEL_BASE) (PAGE_RW OR PAGE_USER) s;
         let s = copy a (pg_base g) s;
         s \<leftarrow> pmap_remove pm (pg_base g + KERNEL_BASE) (pg_base g + PAGE_SIZE + KERNEL_BASE) s;
         Some (0, s)
       }
   }"

section \<open>Looking up addresses\<close>

text \<open>The ring of entries of a map, in \<open>next\<close> order from the first.\<close>

definition entry_ring :: "vmem \<Rightarrow> addr list \<Rightarrow> bool" where
  "entry_ring s es \<longleftrightarrow> es \<noteq> [] \<and> distinct es \<and> 0 \<notin> set es \<and> set es \<subseteq> dom (ventries s) \<and>
     fseg (elinks s) (hd es) (tl es) (hd es)"

definition covering :: "vmem \<Rightarrow> u32 \<Rightarrow> addr \<Rightarrow> bool" where
  "covering s a e \<longleftrightarrow> (case ventries s e of None \<Rightarrow> False | Some en \<Rightarrow> covers en a)"

lemma lookup_walk_find:
  "fseg (elinks s) t es first \<Longrightarrow> set (t # es) \<subseteq> dom (ventries s) \<Longrightarrow> 0 \<notin> set (t # es) \<Longrightarrow> first \<notin> set es \<Longrightarrow>
   lookup_walk s first a t = Some (find (covering s a) (t # es))"
proof (induction es arbitrary: t)
  case Nil
  then show ?case by (subst lookup_walk.simps) (auto simp: covering_def)
next
  case (Cons e es)
  then have "lookup_walk s first a e = Some (find (covering s a) (e # es))" by auto
  then show ?case using Cons.prems by (subst lookup_walk.simps) (auto simp: covering_def)
qed

lemma lookup_entry_find:
  assumes m: "vmaps s mp = Some m" "vmentry m = Some (hd es)" and ring: "entry_ring s es"
    and hint: "\<forall>h. hint m = Some h \<longrightarrow> h \<in> set es"
  shows "\<exists>r s'. vm_map_lookup_entry mp a s = Some (r, s') \<and>
    r = (case hint m of Some h \<Rightarrow> if covering s a h then Some h else find (covering s a) es
         | None \<Rightarrow> find (covering s a) es) \<and>
    (r = None \<longleftrightarrow> (\<forall>e \<in> set es. \<not> covering s a e)) \<and>
    (\<forall>e. r = Some e \<longrightarrow> e \<in> set es \<and> covering s a e) \<and>
    s' = (case r of None \<Rightarrow> s | Some e \<Rightarrow> upd_vmap mp (\<lambda>m. m\<lparr>hint := Some e\<rparr>) s)"
proof -
  from ring obtain t ts where es: "es = t # ts" by (cases es) (auto simp: entry_ring_def)
  have walk: "lookup_walk s t a t = Some (find (covering s a) es)"
    using lookup_walk_find [of s t ts t a] ring es by (auto simp: entry_ring_def)
  have hd: "\<exists>en. ventries s h = Some en" if "hint m = Some h" for h
    using hint that ring by (auto simp: entry_ring_def)
  have same: "upd_vmap mp (\<lambda>m. m\<lparr>hint := Some h\<rparr>) s = s" if "hint m = Some h" for h
  proof -
    have "m\<lparr>hint := Some h\<rparr> = m" using that by (cases m) simp
    then show ?thesis using m(1) by (simp add: upd_vmap_def fun_upd_idem)
  qed
  let ?r = "case hint m of Some h \<Rightarrow> if covering s a h then Some h else find (covering s a) es
         | None \<Rightarrow> find (covering s a) es"
  have run: "vm_map_lookup_entry mp a s =
      Some (?r, case ?r of None \<Rightarrow> s | Some e \<Rightarrow> upd_vmap mp (\<lambda>m. m\<lparr>hint := Some e\<rparr>) s)"
  proof (cases "hint m")
    case None
    then show ?thesis using m es walk by (simp add: vm_map_lookup_entry_def)
  next
    case (Some h)
    obtain en where en: "ventries s h = Some en" using hd Some by blast
    then show ?thesis
      using m es walk Some same [OF Some] by (auto simp: vm_map_lookup_entry_def covering_def)
  qed
  have "(?r = None \<longleftrightarrow> (\<forall>e \<in> set es. \<not> covering s a e)) \<and> (\<forall>e. ?r = Some e \<longrightarrow> e \<in> set es \<and> covering s a e)"
    using hint by (auto simp: find_None_iff find_Some_iff split: option.splits)
  then show ?thesis by (simp add: run)
qed

text \<open>
  C19. On a well-formed ring of entries \<open>vm_map_lookup_entry\<close> returns: the hint when it covers the
  address, and otherwise the first entry of the ring that covers it, or nothing when no entry
  does. Nothing but the hint of the map is changed, and a new hint covers the address.
\<close>

theorem lookup_entry_correct:
  assumes m: "vmaps s mp = Some m" "vmentry m = Some (hd es)" and ring: "entry_ring s es"
    and hint: "\<forall>h. hint m = Some h \<longrightarrow> h \<in> set es"
  shows "\<exists>r s'. vm_map_lookup_entry mp a s = Some (r, s') \<and>
    r = (case hint m of Some h \<Rightarrow> if covering s a h then Some h else find (covering s a) es
         | None \<Rightarrow> find (covering s a) es) \<and>
    (r = None \<longleftrightarrow> (\<forall>e \<in> set es. \<not> covering s a e)) \<and>
    (\<forall>e. r = Some e \<longrightarrow> e \<in> set es \<and> covering s a e) \<and>
    s' = (case r of None \<Rightarrow> s | Some e \<Rightarrow> upd_vmap mp (\<lambda>m. m\<lparr>hint := Some e\<rparr>) s)"
  using assms by (rule lookup_entry_find)

text \<open>Three entries of a map at 800, which end below the next one.\<close>

definition entry_ex :: "u32 \<Rightarrow> u32 \<Rightarrow> vm_map_entry" where
  "entry_ex a b = \<lparr>en_start = a, en_end = b, en_object = Some 300, en_type = 0, en_attr = 0\<rparr>"

definition map_ex :: vmem where
  "map_ex = vm_ex\<lparr>ventries := [701 \<mapsto> entry_ex 0x1000 0x2000, 702 \<mapsto> entry_ex 0x4000 0x9000, 703 \<mapsto> entry_ex 0xA000 0xB000],
     elinks := \<lparr>lnext = id(701 := 702, 702 := 703, 703 := 701), lprev = id\<rparr>,
     vmaps := [800 \<mapsto> \<lparr>vmentry = Some 701, m_pmap = Some 900, m_size = 0, ref_count = 1, m_start = 0x1000, m_end = 0xE0000000,
       hint = None, m_private = 0, m_attr = 0\<rparr>]\<rparr>"

theorem lookup_entry_correct_witness:
  "(\<exists>s'. vm_map_lookup_entry 800 0x5000 map_ex = Some (Some 702, s')) \<and>
   vm_map_lookup_entry 800 0x3000 map_ex = Some (None, map_ex)"
proof -
  let ?m = "\<lparr>vmentry = Some 701, m_pmap = Some 900, m_size = 0, ref_count = 1, m_start = 0x1000, m_end = 0xE0000000,
       hint = None, m_private = 0, m_attr = 0\<rparr>"
  have m: "vmaps map_ex 800 = Some ?m" "vmentry ?m = Some (hd [701, 702, 703])" "entry_ring map_ex [701, 702, 703]"
    "\<forall>h. hint ?m = Some h \<longrightarrow> h \<in> set [701, 702, 703]"
    by (auto simp: map_ex_def entry_ring_def)
  have "find (covering map_ex 0x5000) [701, 702, 703] = Some 702" "find (covering map_ex 0x3000) [701, 702, 703] = None"
    by (simp_all add: covering_def map_ex_def entry_ex_def covers_def)
  then show ?thesis
    using lookup_entry_correct [OF m, of "0x5000"] lookup_entry_correct [OF m, of "0x3000"] by auto
qed

text \<open>
  From the second entry on, the search for a gap compares with the end of the wrong entry: with
  these entries a mapping of \<open>0x3000\<close> bytes is put on top of the last one.
\<close>

lemma map_enter_overlaps:
  "\<exists>s' en. vm_map_enter (704, entry_ex 0 0) 800 0x1000 0x3000 (Some 300) 0 map_ex = Some (0, 0x9000, s') \<and>
     ventries s' 704 = Some en \<and> en_start en = 0x9000 \<and> en_end en = 0xC000 \<and>
     ventries s' 703 = Some (entry_ex 0xA000 0xB000)"
  by (simp add: vm_map_enter_def vm_map_lookup_entry_def map_ex_def lookup_walk.simps covers_def entry_ex_def
      gap_walk.simps upd_vmap_def new_entry_def create_vm_entry_def upd_entry_def VM_MAP_ENTRY_OBJECT_FIXED_def)

text \<open>Splitting an entry makes the new entry its own successor, and a search that reaches it does not end.\<close>

lemma clip_makes_loop:
  assumes "ventries s e = Some en" "en_start en < start" "start < en_end en" "en_object en = Some ob"
    "ob \<in> dom (objects s)" "vmaps s mp = Some m" "vmentry m = Some first" "n \<noteq> e"
  shows "\<exists>s'. vm_map_entry_clip (n, junk) mp e start s = Some (Some n, s') \<and> lnext (elinks s') n = n \<and>
    lnext (elinks s') e = n \<and> ventries s' n = Some (en\<lparr>en_start := start\<rparr>)"
  using assms
  by (auto simp: vm_map_entry_clip_def create_vm_entry_def list_add_next_def Let_def upd_entry_def upd_object_def)

lemma lookup_walk_stuck:
  assumes "lnext (elinks s) t = t" "t \<noteq> first" "ventries s t = Some en" "\<not> covers en a" "t \<noteq> 0"
  shows "lookup_walk s first a t = None"
proof -
  have "\<not> (lnext (elinks s) t = t \<and> t \<noteq> first \<and> ventries s t = Some en \<and> \<not> covers en a \<and> t \<noteq> 0)"
    if "lookup_walk s first a t = Some r" for r
    by (rule lookup_walk.raw_induct [of "\<lambda>s first a t r. \<not> (lnext (elinks s) t = t \<and> t \<noteq> first \<and>
        ventries s t = Some en \<and> \<not> covers en a \<and> t \<noteq> 0)", OF _ that])
      (fastforce simp: bind_Some split: if_splits)
  then show ?thesis using assms by (cases "lookup_walk s first a t") auto
qed

end
