(* ===== verification/Process.thy ===== *)
theory Process
  imports Timer Fd VmMap
begin

unbundle bit_operations_syntax

text \<open>
  Processes: \<^verbatim>\<open>src/microkernel/kernel/process.c\<close>, the inline functions of
  \<^verbatim>\<open>include/kernel/process.h\<close> and \<^verbatim>\<open>include/kernel/info.h\<close>,
  \<open>get_clock\<close> of \<^verbatim>\<open>kernel/timer.c\<close>, and the functions of
  \<^verbatim>\<open>kernel/scheduling.c\<close> that look threads and processes up.

  The state adds the memory management of \<^verbatim>\<open>mm\<close> to that of the kernel. Allocation results are
  arguments; \<open>fm\<close> is the memory that a fork of a memory map takes, or \<open>None\<close> when there is none.
\<close>

definition PROCESS_ACTIVE :: u32 where "PROCESS_ACTIVE = 1"
definition PROCESS_ZOMBIE :: u32 where "PROCESS_ZOMBIE = 2"
definition STAT_VFORKED :: u32 where "STAT_VFORKED = 8"
definition WNOHANG :: u32 where "WNOHANG = 1"
definition WIFEXIT :: u32 where "WIFEXIT = 0x010000"
definition SA_NOCLDWAIT :: u32 where "SA_NOCLDWAIT = 0x20"
definition ID_THREAD :: int where "ID_THREAD = 1"

record procstate = timestate +
  vm :: vmem

section \<open>The memory map of a process\<close>

definition map_refs :: "'z procstate_scheme \<Rightarrow> addr \<Rightarrow> int option" where
  "map_refs s m = map_option ref_count (vmaps (vm s) m)"

definition add_ref :: "addr \<Rightarrow> int \<Rightarrow> 'z procstate_scheme \<Rightarrow> 'z procstate_scheme option" where
  "add_ref m d s = do {
     _ \<leftarrow> vmaps (vm s) m;
     Some (s\<lparr>vm := upd_vmap m (\<lambda>x. x\<lparr>ref_count := ref_count x + d\<rparr>) (vm s)\<rparr>)
   }"

text \<open>The page maps of the processes in the list of all processes; 0 is the null pointer.\<close>

definition user_pmaps :: "'z procstate_scheme \<Rightarrow> addr list" where
  "user_pmaps s = map (\<lambda>p. case do { q \<leftarrow> procs s p; m \<leftarrow> vmaps (vm s) (p_map q); m_pmap m } of
       None \<Rightarrow> 0 | Some pm \<Rightarrow> pm) (proclist s)"

definition fork_map :: "fork_mem option \<Rightarrow> addr \<Rightarrow> u32 \<Rightarrow> 'z procstate_scheme \<Rightarrow>
  (addr option \<times> 'z procstate_scheme) option" where
  "fork_map fm m flag s =
     (case fm of
        None \<Rightarrow> Some (None, s)
      | Some fm \<Rightarrow> do {
          (new, v) \<leftarrow> vm_map_fork (user_pmaps s) fm m flag (vm s);
          Some (Some new, s\<lparr>vm := v\<rparr>)
        })"

definition exit_map :: "addr \<Rightarrow> 'z procstate_scheme \<Rightarrow> 'z procstate_scheme option" where
  "exit_map m s = do { v \<leftarrow> exit_vm_map m (vm s); Some (s\<lparr>vm := v\<rparr>) }"

definition destroy_map :: "addr \<Rightarrow> 'z procstate_scheme \<Rightarrow> 'z procstate_scheme option" where
  "destroy_map m s = do {
     x \<leftarrow> vmaps (vm s) m;
     pm \<leftarrow> m_pmap x;
     v \<leftarrow> pmap_destroy pm (vm s);
     v \<leftarrow> vm_map_destroy m v;
     Some (s\<lparr>vm := v\<rparr>)
   }"

section \<open>The table of processes\<close>

definition pid_at :: "'z kstate_scheme \<Rightarrow> addr \<Rightarrow> int option" where
  "pid_at s p = map_option pid (procs s p)"

definition phash_insert :: "addr \<Rightarrow> 'z kstate_scheme \<Rightarrow> 'z kstate_scheme option" where
  "phash_insert process s = do {
     k \<leftarrow> pid_at s process;
     h \<leftarrow> hash_insert (hash_fn k) process (phash s);
     Some (s\<lparr>phash := h\<rparr>)
   }"

text \<open>The first process of a bucket is taken out of a local variable only.\<close>

definition phash_remove :: "addr \<Rightarrow> 'z kstate_scheme \<Rightarrow> 'z kstate_scheme option" where
  "phash_remove process s = do {
     k \<leftarrow> pid_at s process;
     first \<leftarrow> aget (heads (phash s)) (hash_fn k);
     if first = Some process then Some s
     else do {
       a \<leftarrow> pred_walk (links (phash s)) process first;
       Some (s\<lparr>phash := (phash s)\<lparr>links := (links (phash s))(a := links (phash s) process)\<rparr>\<rparr>)
     }
   }"

definition find_by_pid :: "int \<Rightarrow> 'z kstate_scheme \<Rightarrow> addr option option" where
  "find_by_pid k s = id_find (phash s) (pid_at s) k"

definition change_pid :: "addr \<Rightarrow> int \<Rightarrow> 'z kstate_scheme \<Rightarrow> 'z kstate_scheme option" where
  "change_pid p new s = do {
     k \<leftarrow> pid_at s p;
     i \<leftarrow> dealloc_pid k (ids s);
     phash_insert p (upd_proc p (\<lambda>q. q\<lparr>pid := new\<rparr>) (s\<lparr>ids := i\<rparr>))
   }"

section \<open>Children\<close>

text \<open>
  The list macros on the \<open>child\<close> fields: \<open>cell\<close> is the process whose field a pointer reaches
  when it is used with the member \<open>child\<close>, or directly as a head.
\<close>

fun cell :: "cptr \<Rightarrow> addr" where
  "cell (Item a) = a"
| "cell (Head a) = a"

definition child_init :: "addr \<Rightarrow> clinks \<Rightarrow> clinks" where
  "child_init p c = c\<lparr>cnext := (cnext c)(p := Head p), cprev := (cprev c)(p := Head p)\<rparr>"

text \<open>
  Following a pointer to the field of a process other than the head of the list as if it were a
  process reaches the wrong field of that process: no result.
\<close>

definition in_list :: "addr \<Rightarrow> cptr \<Rightarrow> bool" where
  "in_list head x \<longleftrightarrow> (case x of Head q \<Rightarrow> q = head | Item _ \<Rightarrow> True)"

definition child_add :: "addr \<Rightarrow> addr \<Rightarrow> clinks \<Rightarrow> clinks option" where
  "child_add par new c = (
     let nxt = cnext c par;
         c = c\<lparr>cnext := (cnext c)(par := Item new)\<rparr>;
         c = c\<lparr>cprev := (cprev c)(new := Head par)\<rparr>;
         c = c\<lparr>cnext := (cnext c)(new := nxt)\<rparr>
     in if in_list par nxt then Some (c\<lparr>cprev := (cprev c)(cell nxt := Item new)\<rparr>) else None)"

definition child_del :: "addr \<Rightarrow> addr \<Rightarrow> clinks \<Rightarrow> clinks option" where
  "child_del head item c = (
     let prv = cprev c item; nxt = cnext c item
     in if in_list head prv \<and> in_list head nxt
        then Some (c\<lparr>cnext := (cnext c)(cell prv := nxt), cprev := (cprev c)(cell nxt := prv)\<rparr>)
        else None)"

definition have_children :: "addr \<Rightarrow> 'z kstate_scheme \<Rightarrow> bool" where
  "have_children p s \<longleftrightarrow> cnext (child_links s) p \<noteq> Head p"

text \<open>
  The loops over the children end at the \<open>child\<close> field of \<open>p\<close> itself. A pointer to the field of
  another process is read as a process 8 bytes off, which has no result.
\<close>

partial_function (option) zombie_walk :: "addr \<Rightarrow> (addr \<Rightarrow> process option) \<Rightarrow> (addr \<Rightarrow> cptr) \<Rightarrow> cptr \<Rightarrow>
  addr option option" where
  "zombie_walk p ps nx child =
     (if child = Head p then Some None
      else case child of
        Head _ \<Rightarrow> None
      | Item c \<Rightarrow> do {
          q \<leftarrow> ps c;
          if p_status q AND PROCESS_ZOMBIE \<noteq> 0 then Some (Some c) else zombie_walk p ps nx (nx c)
        })"

definition get_zombie_child :: "addr \<Rightarrow> 'z kstate_scheme \<Rightarrow> addr option option" where
  "get_zombie_child p s = zombie_walk p (procs s) (cnext (child_links s)) (cnext (child_links s) p)"

partial_function (option) sum_walk :: "addr \<Rightarrow> (addr \<Rightarrow> int option) \<Rightarrow> (addr \<Rightarrow> cptr) \<Rightarrow> cptr \<Rightarrow> int \<Rightarrow> int option" where
  "sum_walk p val nx child acc =
     (if child = Head p then Some acc
      else case child of
        Head _ \<Rightarrow> None
      | Item c \<Rightarrow> do { v \<leftarrow> val c; sum_walk p val nx (nx c) (acc + v) })"

definition get_childs_utime :: "addr \<Rightarrow> 'z kstate_scheme \<Rightarrow> int option" where
  "get_childs_utime p s =
     (if \<not> have_children p s then Some 0
      else sum_walk p (\<lambda>c. map_option user_time (procs s c)) (cnext (child_links s)) (cnext (child_links s) p) 0)"

definition get_childs_stime :: "addr \<Rightarrow> 'z kstate_scheme \<Rightarrow> int option" where
  "get_childs_stime p s =
     (if \<not> have_children p s then Some 0
      else sum_walk p (\<lambda>c. map_option system_time (procs s c)) (cnext (child_links s)) (cnext (child_links s) p) 0)"

record tms_t =
  tms_utime :: int
  tms_stime :: int
  tms_cutime :: int
  tms_cstime :: int

definition get_clock :: "'z kstate_scheme \<Rightarrow> (int \<times> tms_t) option" where
  "get_clock s = do {
     th \<leftarrow> cur_thread s;
     p \<leftarrow> procs s (t_proc th);
     cu \<leftarrow> get_childs_utime (t_proc th) s;
     cs \<leftarrow> get_childs_stime (t_proc th) s;
     Some (user_time p + system_time p,
       \<lparr>tms_utime = user_time p, tms_stime = system_time p, tms_cutime = cu, tms_cstime = cs\<rparr>)
   }"

section \<open>Attributes\<close>

definition get_main_thread :: "addr \<Rightarrow> 'z kstate_scheme \<Rightarrow> addr option" where
  "get_main_thread p s = do { q \<leftarrow> procs s p; check (p_threads q \<noteq> []); Some (last (p_threads q)) }"

definition set_pgrp :: "process \<Rightarrow> process" where
  "set_pgrp p = p\<lparr>gid := pid p, egid := pid p, session := (if session p \<noteq> pid p then pid p else session p)\<rparr>"

definition set_uid :: "int \<Rightarrow> process \<Rightarrow> process" where
  "set_uid u p = p\<lparr>uid := u, euid := u\<rparr>"

definition set_euid :: "addr \<Rightarrow> int \<Rightarrow> 'z kstate_scheme \<Rightarrow> 'z kstate_scheme option" where
  "set_euid p e s = do {
     q \<leftarrow> procs s p;
     ok \<leftarrow> (if e = uid q then Some True else superuser s);
     Some (if ok then upd_proc p (\<lambda>q. q\<lparr>euid := e\<rparr>) s else s)
   }"

definition set_egid :: "addr \<Rightarrow> int \<Rightarrow> 'z kstate_scheme \<Rightarrow> 'z kstate_scheme option" where
  "set_egid p e s = do {
     q \<leftarrow> procs s p;
     ok \<leftarrow> (if e = gid q then Some True else superuser s);
     Some (if ok then upd_proc p (\<lambda>q. q\<lparr>egid := e\<rparr>) s else s)
   }"

definition sysinfo_add_process :: "addr \<Rightarrow> 'z kstate_scheme \<Rightarrow> 'z kstate_scheme option" where
  "sysinfo_add_process p s = do {
     l \<leftarrow> ll_add p (proclist s);
     Some (s\<lparr>total_process := total_process s + 1, proclist := l\<rparr>)
   }"

definition sysinfo_del_process :: "addr \<Rightarrow> 'z kstate_scheme \<Rightarrow> 'z kstate_scheme option" where
  "sysinfo_del_process p s = do {
     l \<leftarrow> ll_del p (proclist s);
     Some (s\<lparr>total_process := total_process s - 1, proclist := l\<rparr>)
   }"

text \<open>The process ids in the order of the list; \<open>total_process\<close> gives the size of the array.\<close>

fun pids_of :: "addr list \<Rightarrow> 'z kstate_scheme \<Rightarrow> int list option" where
  "pids_of [] s = Some []"
| "pids_of (p # ps) s = do { k \<leftarrow> pid_at s p; ks \<leftarrow> pids_of ps s; Some (k # ks) }"

definition syscall_getpidlist :: "'z kstate_scheme \<Rightarrow> (int \<times> int list) option" where
  "syscall_getpidlist s = do {
     ks \<leftarrow> pids_of (proclist s) s;
     check (int (length ks) \<le> total_process s);
     Some (0, ks)
   }"

definition syscall_getpid :: "int \<Rightarrow> 'z kstate_scheme \<Rightarrow> int option" where
  "syscall_getpid t s = do {
     r \<leftarrow> (if t = 0 then Some None else find_by_tid t s);
     thr \<leftarrow> (case r of None \<Rightarrow> cur_thread s | Some a \<Rightarrow> threads s a);
     p \<leftarrow> procs s (t_proc thr);
     Some (pid p)
   }"

definition syscall_getppid :: "'z kstate_scheme \<Rightarrow> int option" where
  "syscall_getppid s = do { p \<leftarrow> cur_proc s; q \<leftarrow> procs s (parent p); Some (pid q) }"

section \<open>Scheduling parameters\<close>

definition sched_thread :: "int \<Rightarrow> int \<Rightarrow> 'z kstate_scheme \<Rightarrow> addr option" where
  "sched_thread idn flag s =
     (if idn = 0 then Some (current s)
      else if flag = ID_THREAD then do { r \<leftarrow> find_by_tid idn s; r }
      else do { r \<leftarrow> find_by_pid idn s; p \<leftarrow> r; get_main_thread p s })"

text \<open>The result is the policy, with the priority stored through \<open>parm\<close>.\<close>

definition sched_get :: "int \<Rightarrow> bool \<Rightarrow> int \<Rightarrow> 'z kstate_scheme \<Rightarrow> (int \<times> int option) option" where
  "sched_get idn parm flag s = do {
     su \<leftarrow> superuser s;
     if \<not> su then Some (- EPERM, None)
     else do {
       thr \<leftarrow> sched_thread idn flag s;
       th \<leftarrow> threads s thr;
       check parm;
       Some (schedpolicy th, Some (priority_stat th))
     }
   }"

definition sched_set :: "int \<Rightarrow> int \<Rightarrow> int option \<Rightarrow> int \<Rightarrow> 'z kstate_scheme \<Rightarrow> (int \<times> 'z kstate_scheme) option" where
  "sched_set idn pol parm flag s =
     (if pol > SCHED_OTHER then Some (- 1, s)
      else do {
        pr \<leftarrow> parm;
        if pr > MIN_PRIO \<or> pr < MAX_PRIO then Some (- 1, s)
        else do {
          thr \<leftarrow> sched_thread idn flag s;
          su \<leftarrow> superuser s;
          if \<not> su then Some (- EPERM, s)
          else do {
            s \<leftarrow> remove_thread thr s;
            let s = upd_thread thr (\<lambda>th. th\<lparr>schedpolicy := (if pol \<noteq> 0 then pol else schedpolicy th),
                      priority_stat := pr, priority_dyn := pr, bound := 0\<rparr>) s;
            s \<leftarrow> enqueue_thread thr s;
            th \<leftarrow> threads s thr;
            Some (schedpolicy th, s)
          }
        }
      })"

section \<open>Creation\<close>

text \<open>
  \<open>at0\<close> is the attribute structure on the stack, of which \<open>dup_thread\<close> sets the policy and the
  priority. \<open>pmem\<close>, \<open>tmem\<close> and \<open>fmems\<close> are the allocations for the process, the thread and the
  copies of open files.
\<close>

definition dup_thread :: "(addr \<times> thread) option \<Rightarrow> thread_attr \<Rightarrow> addr \<Rightarrow> 'z kstate_scheme \<Rightarrow>
  (int \<times> 'z kstate_scheme) option" where
  "dup_thread tmem at0 new s = do {
     par \<leftarrow> cur_thread s;
     (r, s) \<leftarrow> create_thread tmem new (Some (at0\<lparr>a_policy := schedpolicy par, a_prio := priority_stat par\<rparr>)) s;
     Some (if r = None then - 1 else 0, s)
   }"

text \<open>The common beginning of \<open>do_fork\<close> and \<open>do_spawn\<close>; \<open>f\<close> sets the fields in which they differ.\<close>

definition new_process :: "addr \<Rightarrow> addr \<Rightarrow> (process \<Rightarrow> process) \<Rightarrow> 'z procstate_scheme \<Rightarrow>
  'z procstate_scheme option" where
  "new_process new par f s = do {
     q \<leftarrow> procs s par;
     (k, i) \<leftarrow> alloc_pid (ids s);
     let q' = f (q\<lparr>parent := par, pid := k, start_time := 0, user_time := 0, system_time := 0,
                 p_threads := [], sigqueue := [], p_timers := [], syncs := []\<rparr>);
     let s = s\<lparr>ids := i, procs := (procs s)(new \<mapsto> q')\<rparr>;
     c \<leftarrow> child_add par new (child_init new (child_links s));
     sysinfo_add_process new (s\<lparr>child_links := c\<rparr>)
   }"

definition do_fork :: "fork_mem option \<Rightarrow> addr option \<Rightarrow> (addr \<times> thread) option \<Rightarrow> addr option list \<Rightarrow> thread_attr \<Rightarrow>
  addr \<Rightarrow> u32 \<Rightarrow> 'z procstate_scheme \<Rightarrow> ((int + addr) \<times> 'z procstate_scheme) option" where
  "do_fork fm pmem tmem fmems at0 par flag s =
     (case pmem of
        None \<Rightarrow> Some (Inl (- ENOMEM), s)
      | Some new \<Rightarrow> do {
          s \<leftarrow> new_process new par (\<lambda>q. q\<lparr>alarm := None\<rparr>) s;
          (ret, s) \<leftarrow> fd_fork fmems new par s;
          if ret < 0 then Some (Inl ret, s\<lparr>procs := (procs s)(new := None)\<rparr>)
          else do {
            s \<leftarrow> phash_insert new (upd_proc new (\<lambda>q. q\<lparr>action := init_signals (action q)\<rparr>) s);
            q \<leftarrow> procs s par;
            (ok, s) \<leftarrow> (if flag AND DUP_SHARE \<noteq> 0 then do {
                          s \<leftarrow> add_ref (p_map q) 1 s;
                          Some (True, upd_proc new (\<lambda>q. q\<lparr>p_status := STAT_VFORKED\<rparr>) s)
                        }
                        else do {
                          (m, s) \<leftarrow> fork_map fm (p_map q) flag s;
                          case m of
                            None \<Rightarrow> Some (False, s)
                          | Some m \<Rightarrow> Some (True, upd_proc new (\<lambda>q. q\<lparr>p_map := m\<rparr>) s)
                        });
            if \<not> ok then Some (Inl (- ENOMEM), s\<lparr>procs := (procs s)(new := None)\<rparr>)
            else do {
              (_, s) \<leftarrow> dup_thread tmem at0 new s;
              Some (Inr new, upd_proc new (\<lambda>q. q\<lparr>p_flag := flag\<rparr>) s)
            }
          }
        })"

text \<open>Only the first 32 file pointers are cleared. The thread is enqueued without a test.\<close>

definition do_spawn :: "fork_mem option \<Rightarrow> addr option \<Rightarrow> (addr \<times> thread) option \<Rightarrow> addr \<Rightarrow> thread_attr option \<Rightarrow>
  'z procstate_scheme \<Rightarrow> ((int + addr) \<times> 'z procstate_scheme) option" where
  "do_spawn fm pmem tmem par attr s =
     (case pmem of
        None \<Rightarrow> Some (Inl (- ENOMEM), s)
      | Some new \<Rightarrow> do {
          s \<leftarrow> new_process new par (\<lambda>q. q\<lparr>p_status := PROCESS_ACTIVE\<rparr>) s;
          let s = upd_proc new (\<lambda>q. q\<lparr>p_fd := (p_fd q)\<lparr>fd_max := int MAX_DEF_FD, fd_hint := 0, fd_bitmap := 0,
             cwdstr := ''/'', fileptr := replicate MAX_DEF_FD 0 @ drop MAX_DEF_FD (fileptr (p_fd q))\<rparr>,
             action := init_signals (action q)\<rparr>) s;
          s \<leftarrow> phash_insert new s;
          q \<leftarrow> procs s par;
          (m, s) \<leftarrow> fork_map fm (p_map q) DUP_NONE s;
          let s = upd_proc new (\<lambda>q. q\<lparr>p_map := (case m of None \<Rightarrow> 0 | Some m \<Rightarrow> m)\<rparr>) s;
          (thread, s) \<leftarrow> create_thread tmem new attr s;
          if m = None then Some (Inl (- ENOMEM), s)
          else do {
            t \<leftarrow> thread;
            s \<leftarrow> enqueue_thread t s;
            Some (Inr new, s)
          }
        })"

section \<open>Waiting and exiting\<close>

definition process_free :: "addr \<Rightarrow> 'z kstate_scheme \<Rightarrow> 'z kstate_scheme option" where
  "process_free p s = do { _ \<leftarrow> procs s p; Some (s\<lparr>procs := (procs s)(p := None)\<rparr>) }"

text \<open>The second component of the result is the status stored for the caller.\<close>

definition waitpid :: "int \<Rightarrow> u32 \<Rightarrow> 'z procstate_scheme \<Rightarrow> (int \<times> u32 option \<times> 'z procstate_scheme) option" where
  "waitpid k flags s = do {
     th \<leftarrow> cur_thread s;
     let proc = t_proc th;
     if \<not> have_children proc s then Some (- ECHILD, None, s)
     else do {
       r \<leftarrow> (if k > 0 then do {
              c \<leftarrow> find_by_pid k s;
              case c of
                None \<Rightarrow> Some (Inl ())
              | Some c \<Rightarrow> do { q \<leftarrow> procs s c; Some (if parent q \<noteq> proc then Inl () else Inr (Some (c, q))) }
            }
            else Some (Inr None));
       case r of
         Inl _ \<Rightarrow> Some (- ECHILD, None, s)
       | Inr ch \<Rightarrow>
           (case ch of
              Some (c, q) \<Rightarrow>
                if p_status q = PROCESS_ZOMBIE then do {
                  l \<leftarrow> child_del proc c (child_links s);
                  s \<leftarrow> process_free c (s\<lparr>child_links := l\<rparr>);
                  Some (pid q, Some (exit_status q), s)
                }
                else if flags AND WNOHANG \<noteq> 0 then Some (- ECHILD, None, s)
                else if sigpending th = 0 then do { s \<leftarrow> sleep_interruptible (current s) s; Some (0, None, s) }
                else Some (0, None, s)
            | None \<Rightarrow>
                if flags AND WNOHANG \<noteq> 0 then Some (- ECHILD, None, s)
                else if sigpending th = 0 then do { s \<leftarrow> sleep_interruptible (current s) s; Some (0, None, s) }
                else Some (0, None, s))
     }
   }"

text \<open>The first thread in the list of the parent, for \<open>p->parent->threads.next\<close>.\<close>

definition parent_thread :: "addr \<Rightarrow> 'z kstate_scheme \<Rightarrow> addr option" where
  "parent_thread p s = do {
     q \<leftarrow> procs s p;
     par \<leftarrow> procs s (parent q);
     check (p_threads par \<noteq> []);
     Some (hd (p_threads par))
   }"

definition syscall_exit :: "sigqueue_t option \<Rightarrow> u32 \<Rightarrow> 'z procstate_scheme \<Rightarrow>
  'z procstate_scheme option" where
  "syscall_exit smem status s = do {
     let thr = current s;
     th \<leftarrow> threads s thr;
     let p = t_proc th;
     q \<leftarrow> procs s p;
     s \<leftarrow> phash_remove p s;
     s \<leftarrow> delete_sync p s;
     s \<leftarrow> exit_timers p s;
     s \<leftarrow> exit_signals p s;
     i \<leftarrow> dealloc_pid (pid q) (ids s);
     s \<leftarrow> fd_free p (s\<lparr>ids := i\<rparr>);
     s \<leftarrow> sysinfo_del_process p s;
     s \<leftarrow> exit_threads p (upd_thread thr (\<lambda>th. th\<lparr>states := PROCESS_EXITING\<rparr>) s);
     s \<leftarrow> remove_thread thr s;
     q \<leftarrow> procs s p;
     sig \<leftarrow> aget (action q) (nat (SIGCHLD - 1));
     s \<leftarrow> (if \<not> (sa_flags sig AND SA_NOCLDWAIT \<noteq> 0 \<or> sa_handler sig = SIG_IGN) then do {
            let s = upd_proc p (\<lambda>q. q\<lparr>exit_status := exit_status q OR (status AND 0xFF) OR WIFEXIT,
                      p_status := p_status q OR PROCESS_ZOMBIE\<rparr>) s;
            (_, s) \<leftarrow> send_signal_any smem (parent q) SIGCHLD None s;
            destroy_thread thr s
          }
          else Some s);
     q \<leftarrow> procs s p;
     s \<leftarrow> (if p_status q AND STAT_VFORKED \<noteq> 0 then do {
            let s = upd_proc p (\<lambda>q. q\<lparr>p_status := p_status q AND NOT STAT_VFORKED\<rparr>) s;
            t \<leftarrow> parent_thread p s;
            s \<leftarrow> enqueue_thread t s;
            add_ref (p_map q) (- 1) s
          }
          else exit_map (p_map q) s);
     n \<leftarrow> map_refs s (p_map q);
     s \<leftarrow> (if n = 0 then destroy_map (p_map q) s else Some s);
     s \<leftarrow> destroy_thread thr s;
     q \<leftarrow> procs s p;
     s \<leftarrow> (if p_status q AND PROCESS_ZOMBIE \<noteq> 0 then process_free p s else Some s);
     schedule s
   }"

text \<open>\<open>kproc\<close> is the address of the kernel process, a static structure.\<close>

definition process_init :: "addr \<Rightarrow> 'z procstate_scheme \<Rightarrow> 'z procstate_scheme option" where
  "process_init kproc s = do {
     let s = s\<lparr>phash := htab_empty, child_links := child_init kproc (child_links s), proclist := []\<rparr>;
     let s = upd_proc kproc (\<lambda>q. q\<lparr>p_threads := [], sigqueue := [], p_timers := [], parent := kproc\<rparr>) s;
     s \<leftarrow> thread_init kproc s;
     Some (sync_init (s\<lparr>ids := id_init\<rparr>))
   }"

section \<open>The table of processes is consistent\<close>

definition proc_inv :: "'z kstate_scheme \<Rightarrow> (nat \<Rightarrow> addr list) \<Rightarrow> bool" where
  "proc_inv s B \<longleftrightarrow> htab_rep (phash s) B \<and> keyed hash_fn (pid_at s) B \<and>
     id_wf (pidbitmap (ids s)) (pidhint (ids s)) \<and>
     (\<forall>p k. in_table p B \<longrightarrow> pid_at s p = Some k \<longrightarrow> FIRST_USER_PID \<le> k \<longrightarrow>
        k \<in> used_ids FIRST_USER_PID (pidbitmap (ids s)))"

lemma proc_inv_find:
  assumes "proc_inv s B" "in_table p B" "pid_at s p = Some k"
  shows "find_by_pid k s = Some (Some p)"
  using assms keyed_bucket [of hash_fn "pid_at s" B p k]
  by (auto simp: proc_inv_def find_by_pid_def intro: numbers.find_member)

lemma proc_inv_cong:
  "proc_inv s B \<Longrightarrow> phash s' = phash s \<Longrightarrow> pid_at s' = pid_at s \<Longrightarrow>
   pidbitmap (ids s') = pidbitmap (ids s) \<Longrightarrow> pidhint (ids s') = pidhint (ids s) \<Longrightarrow> proc_inv s' B"
  by (simp add: proc_inv_def)

lemma phash_insert_inv:
  assumes inv: "proc_inv s B" and new: "\<not> in_table p B"
    and k: "FIRST_USER_PID \<le> k" "k \<notin> used_ids FIRST_USER_PID (pidbitmap (ids s))"
    and i: "used_ids FIRST_USER_PID (pidbitmap (ids s2)) = insert k (used_ids FIRST_USER_PID (pidbitmap (ids s)))"
      "id_wf (pidbitmap (ids s2)) (pidhint (ids s2))"
    and s2: "pid_at s2 p = Some k" "\<And>q. q \<noteq> p \<Longrightarrow> pid_at s2 q = pid_at s q" "phash s2 = phash s"
  obtains h where "phash_insert p s2 = Some (s2\<lparr>phash := h\<rparr>)"
    "proc_inv (s2\<lparr>phash := h\<rparr>) (B(hash_fn k := p # B (hash_fn k)))"
proof -
  note inv = inv [unfolded proc_inv_def]
  have same: "pid_at s2 q = pid_at s q" if "in_table q B" for q
    using that s2(2) [of q] new by (cases "q = p") auto
  have kd: "keyed hash_fn (pid_at s2) B"
    using inv keyed_cong [of B "pid_at s2" "pid_at s" hash_fn, OF same] by blast
  have lt: "hash_fn k < NWORDS" by (simp add: NWORDS_def)
  have free: "pid_at s2 q \<noteq> Some k" if "q \<in> set (B (hash_fn k))" for q
  proof -
    have "in_table q B" using that lt by (auto simp: in_table_def)
    then show ?thesis using same [of q] inv k by auto
  qed
  obtain h where h: "hash_insert (hash_fn k) p (phash s) = Some h"
    "htab_rep h (B(hash_fn k := p # B (hash_fn k)))" "keyed hash_fn (pid_at s2) (B(hash_fn k := p # B (hash_fn k)))"
    using numbers.find_insert [OF _ kd s2(1) free] inv new by (metis in_table_def)
  have at: "pid_at (s2\<lparr>phash := h\<rparr>) = pid_at s2" by (simp add: pid_at_def fun_eq_iff)
  have "k' \<in> used_ids FIRST_USER_PID (pidbitmap (ids s2))"
    if "in_table q (B(hash_fn k := p # B (hash_fn k)))" "pid_at s2 q = Some k'" "FIRST_USER_PID \<le> k'" for q k'
  proof (cases "q = p")
    case True
    then show ?thesis using that(2) s2(1) i(1) by simp
  next
    case False
    then have "in_table q B" using that(1) lt by simp
    then show ?thesis using that(2,3) same [of q] inv i(1) by simp
  qed
  then have "proc_inv (s2\<lparr>phash := h\<rparr>) (B(hash_fn k := p # B (hash_fn k)))"
    using h i(2) unfolding proc_inv_def at by simp
  moreover have "phash_insert p s2 = Some (s2\<lparr>phash := h\<rparr>)"
    using h(1) s2(1,3) by (simp add: phash_insert_def)
  ultimately show ?thesis using that by blast
qed

section \<open>Children\<close>

text \<open>A new child is put in front of the children when the field of the parent heads its own list.\<close>

lemma child_add_ok:
  assumes "in_list par (cnext c par)" "new \<noteq> par"
  obtains c' where "child_add par new (child_init new c) = Some c'" "cnext c' par = Item new"
    "cnext c' new = cnext c par"
    "\<And>q. q \<noteq> par \<Longrightarrow> q \<noteq> new \<Longrightarrow> cnext c' q = cnext c q"
proof -
  have "cnext (child_init new c) par = cnext c par" using assms(2) by (simp add: child_init_def)
  then show ?thesis
    using that assms by (cases "cnext c par") (auto simp: child_add_def child_init_def in_list_def Let_def)
qed

lemma child_add_shared: "cnext c par = Head q \<Longrightarrow> q \<noteq> par \<Longrightarrow> new \<noteq> par \<Longrightarrow>
  child_add par new (child_init new c) = None"
  by (simp add: child_add_def child_init_def in_list_def Let_def)

text \<open>The scheduling parameters can never be changed: the range test refuses every priority.\<close>

lemma sched_set_refuses: "parm = Some pr \<Longrightarrow> sched_set idn pol parm flag s = Some (- 1, s)"
  by (simp add: sched_set_def MIN_PRIO_def MAX_PRIO_def PRIO_OTHER_MIN_def PRIO_RT_MAX_def)

section \<open>Forking\<close>

lemma fd_copies_zero: "fd_copies (replicate n 0) mems s = Some (None, mems, s)"
  by (induction n) simp_all

lemma fd_fork_empty:
  assumes "procs s par = Some q" "procs s chld \<noteq> None" "fileptr (p_fd q) = replicate (MAX_DEF_FD + 1) 0"
  shows "fd_fork mems chld par s = Some (0, s)"
  using assms fd_copies_zero [of MAX_DEF_FD mems s]
  by (auto simp: fd_fork_def fd_of_def replicate_add MAX_DEF_FD_def Let_def)

text \<open>The beginning of \<open>do_fork\<close>: the child has a fresh id and is entered everywhere but in the table.\<close>

lemma new_process_ok:
  assumes "proc_inv s B" "procs s par = Some q" "new \<noteq> par" "in_list par (cnext (child_links s) par)"
    "new \<notin> set (proclist s)"
    "used_ids FIRST_USER_PID (pidbitmap (ids s)) \<noteq> {FIRST_USER_PID..<FIRST_USER_PID + int NIDS}"
  obtains k i c where "new_process new par f s = Some (s\<lparr>ids := i, procs := (procs s)(new \<mapsto>
      f (q\<lparr>parent := par, pid := k, start_time := 0, user_time := 0, system_time := 0,
        p_threads := [], sigqueue := [], p_timers := [], syncs := []\<rparr>)),
      child_links := c, total_process := total_process s + 1, proclist := new # proclist s\<rparr>)"
    "FIRST_USER_PID \<le> k" "k \<notin> used_ids FIRST_USER_PID (pidbitmap (ids s))"
    "used_ids FIRST_USER_PID (pidbitmap i) = insert k (used_ids FIRST_USER_PID (pidbitmap (ids s)))"
    "id_wf (pidbitmap i) (pidhint i)" "tidbitmap i = tidbitmap (ids s)" "tidhint i = tidhint (ids s)"
    "cnext c par = Item new" "cnext c new = cnext (child_links s) par"
proof -
  obtain k i where k: "alloc_pid (ids s) = Some (k, i)" "FIRST_USER_PID \<le> k"
    "k \<notin> used_ids FIRST_USER_PID (pidbitmap (ids s))"
    "used_ids FIRST_USER_PID (pidbitmap i) = insert k (used_ids FIRST_USER_PID (pidbitmap (ids s)))"
    "id_wf (pidbitmap i) (pidhint i)"
    using pid.alloc_fresh [of "ids s"] assms(1,6) unfolding proc_inv_def by blast
  have t: "tidbitmap i = tidbitmap (ids s)" "tidhint i = tidhint (ids s)"
    using k(1) by (auto simp: alloc_pid_def bind_Some)
  obtain c where c: "child_add par new (child_init new (child_links s)) = Some c"
    "cnext c par = Item new" "cnext c new = cnext (child_links s) par"
    using child_add_ok [OF assms(4,3)] by blast
  show ?thesis
    by (rule that [OF _ k(2-5) t c(2,3)])
      (use assms k(1) c(1) in \<open>simp add: new_process_def sysinfo_add_process_def ll_add_def\<close>)
qed

lemma pid_at_upd_proc [simp]: "(\<And>q. pid (f q) = pid q) \<Longrightarrow> pid_at (upd_proc p f s) = pid_at s"
  by (auto simp: pid_at_def option.map_comp comp_def fun_eq_iff)

lemma procstate_upd [simp]:
  "vm (upd_proc p f s) = vm s" "vm (upd_thread t g s) = vm s"
  by (simp_all add: upd_proc_def upd_thread_def)

lemma map_refs_vm: "vm s' = vm s \<Longrightarrow> map_refs s' = map_refs s"
  by (simp add: map_refs_def fun_eq_iff)

text \<open>
  Forking with a shared map up to the creation of the thread. \<open>forked\<close> is the child that is left.
\<close>

definition forked :: "addr \<Rightarrow> int \<Rightarrow> process \<Rightarrow> process" where
  "forked par k q = q\<lparr>parent := par, pid := k, start_time := 0, user_time := 0, system_time := 0,
     p_threads := [], sigqueue := [], p_timers := [], syncs := [], alarm := None,
     action := init_signals (action q), p_status := STAT_VFORKED\<rparr>"

lemma do_fork_shared:
  assumes inv: "proc_inv s B"
    and par: "procs s par = Some q" "in_list par (cnext (child_links s) par)"
      "fileptr (p_fd q) = replicate (MAX_DEF_FD + 1) 0" "map_refs s (p_map q) = Some n"
    and new: "new \<noteq> par" "new \<notin> set (proclist s)" "\<not> in_table new B"
    and free: "used_ids FIRST_USER_PID (pidbitmap (ids s)) \<noteq> {FIRST_USER_PID..<FIRST_USER_PID + int NIDS}"
    and share: "flag AND DUP_SHARE \<noteq> 0"
  obtains k s3 where "do_fork fm (Some new) tmem fmems at0 par flag s = do {
      (_, s) \<leftarrow> dup_thread tmem at0 new s3; Some (Inr new, upd_proc new (\<lambda>q. q\<lparr>p_flag := flag\<rparr>) s) }"
    "procs s3 new = Some (forked par k q)" "k \<notin> used_ids FIRST_USER_PID (pidbitmap (ids s))"
    "proc_inv s3 (B(hash_fn k := new # B (hash_fn k)))"
    "pid_at s3 new = Some k" "\<And>p. p \<noteq> new \<Longrightarrow> pid_at s3 p = pid_at s p"
    "threads s3 = threads s" "current s3 = current s" "thash s3 = thash s"
    "tidbitmap (ids s3) = tidbitmap (ids s)" "tidhint (ids s3) = tidhint (ids s)"
    "cnext (child_links s3) par = Item new" "map_refs s3 (p_map q) = Some (n + 1)"
proof -
  let ?q = "\<lambda>k. q\<lparr>parent := par, pid := k, start_time := 0, user_time := 0, system_time := 0,
      p_threads := [], sigqueue := [], p_timers := [], syncs := [], alarm := None\<rparr>"
  obtain k i c where run1: "new_process new par (\<lambda>q. q\<lparr>alarm := None\<rparr>) s =
      Some (s\<lparr>ids := i, procs := (procs s)(new \<mapsto> ?q k), child_links := c,
        total_process := total_process s + 1, proclist := new # proclist s\<rparr>)"
    and k: "FIRST_USER_PID \<le> k" "k \<notin> used_ids FIRST_USER_PID (pidbitmap (ids s))"
      "used_ids FIRST_USER_PID (pidbitmap i) = insert k (used_ids FIRST_USER_PID (pidbitmap (ids s)))"
      "id_wf (pidbitmap i) (pidhint i)" and t: "tidbitmap i = tidbitmap (ids s)" "tidhint i = tidhint (ids s)"
    and c: "cnext c par = Item new" "cnext c new = cnext (child_links s) par"
    by (rule new_process_ok [OF inv par(1) new(1) par(2) new(2) free, of "\<lambda>q. q\<lparr>alarm := None\<rparr>"])
  define s1 where "s1 = s\<lparr>ids := i, procs := (procs s)(new \<mapsto> ?q k), child_links := c,
        total_process := total_process s + 1, proclist := new # proclist s\<rparr>"
  have fd: "fd_fork fmems new par s1 = Some (0, s1)"
    using par(1,3) new(1) by (intro fd_fork_empty [of _ _ q]) (simp_all add: s1_def)
  define s2 where "s2 = upd_proc new (\<lambda>q. q\<lparr>action := init_signals (action q)\<rparr>) s1"
  have at2: "pid_at s2 new = Some k" "\<And>p. p \<noteq> new \<Longrightarrow> pid_at s2 p = pid_at s p"
    by (simp_all add: s2_def s1_def pid_at_def)
  obtain h where h: "phash_insert new s2 = Some (s2\<lparr>phash := h\<rparr>)"
    "proc_inv (s2\<lparr>phash := h\<rparr>) (B(hash_fn k := new # B (hash_fn k)))"
    by (rule phash_insert_inv [OF inv new(3) k(1,2) _ _ at2]) (use k in \<open>simp_all add: s2_def s1_def\<close>)
  define s3 where "s3 = upd_proc new (\<lambda>q. q\<lparr>p_status := STAT_VFORKED\<rparr>)
    (s2\<lparr>phash := h, vm := upd_vmap (p_map q) (\<lambda>x. x\<lparr>ref_count := ref_count x + 1\<rparr>) (vm s)\<rparr>)"
  obtain m where m: "vmaps (vm s) (p_map q) = Some m" "ref_count m = n" using par(4) by (auto simp: map_refs_def)
  have q3: "procs (s2\<lparr>phash := h\<rparr>) par = Some q" "vm (s2\<lparr>phash := h\<rparr>) = vm s"
    using par(1) new(1) by (simp_all add: s2_def s1_def)
  have run: "do_fork fm (Some new) tmem fmems at0 par flag s = do {
      (_, s) \<leftarrow> dup_thread tmem at0 new s3; Some (Inr new, upd_proc new (\<lambda>q. q\<lparr>p_flag := flag\<rparr>) s) }"
    using run1 fd h(1) share q3 m(1)
    by (simp add: do_fork_def add_ref_def flip: s1_def s2_def) (simp add: s3_def)
  have at: "pid_at s3 = pid_at s2" by (simp add: s3_def) (simp add: pid_at_def fun_eq_iff)
  then have "proc_inv s3 (B(hash_fn k := new # B (hash_fn k)))"
    by (intro proc_inv_cong [OF h(2)]) (simp_all add: s3_def pid_at_def fun_eq_iff)
  then show ?thesis
    by (intro that [OF run _ k(2)])
      (use at at2 c t m in \<open>simp_all add: s3_def s2_def s1_def forked_def map_refs_def upd_vmap_def\<close>)
qed

text \<open>
  C13. A fork that shares the memory map, of a process that heads its own list of children and has
  no open files: the child gets a process id that was not in use and is found under it, and every
  process that was found before still is; it has one thread, ready, found under its new thread id;
  it is the first child of its parent, shares the map (whose reference count goes up by one) and
  is marked as sharing it.
\<close>

theorem fork_registers_child:
  assumes inv: "proc_inv s B" "thread_inv s T"
    and par: "procs s par = Some q" "in_list par (cnext (child_links s) par)"
      "fileptr (p_fd q) = replicate (MAX_DEF_FD + 1) 0" "map_refs s (p_map q) = Some n"
    and new: "new \<noteq> par" "new \<notin> set (proclist s)" "\<not> in_table new B" "\<not> in_table thr T"
    and cur: "cur_thread s = Some cth"
    and free: "used_ids FIRST_USER_PID (pidbitmap (ids s)) \<noteq> {FIRST_USER_PID..<FIRST_USER_PID + int NIDS}"
      "used_ids FIRST_USER_TID (tidbitmap (ids s)) \<noteq> {FIRST_USER_TID..<FIRST_USER_TID + int NIDS}"
    and share: "flag AND DUP_SHARE \<noteq> 0"
  shows "\<exists>s' c th. do_fork fm (Some new) (Some (thr, th0)) fmems at0 par flag s = Some (Inr new, s') \<and>
    procs s' new = Some c \<and> parent c = par \<and> p_threads c = [thr] \<and> p_map c = p_map q \<and>
    p_status c = STAT_VFORKED \<and> pid c \<notin> used_ids FIRST_USER_PID (pidbitmap (ids s)) \<and>
    find_by_pid (pid c) s' = Some (Some new) \<and>
    (\<forall>p k. in_table p B \<and> pid_at s p = Some k \<longrightarrow> find_by_pid k s' = Some (Some p)) \<and>
    threads s' thr = Some th \<and> t_proc th = new \<and> states th = THREAD_READY \<and>
    priority_dyn th = priority_stat cth \<and>
    find_by_tid (tid th) s' = Some (Some thr) \<and> cnext (child_links s') par = Item new \<and>
    map_refs s' (p_map q) = Some (n + 1)"
proof -
  obtain k s3 where run3: "do_fork fm (Some new) (Some (thr, th0)) fmems at0 par flag s = do {
      (_, s) \<leftarrow> dup_thread (Some (thr, th0)) at0 new s3;
      Some (Inr new, upd_proc new (\<lambda>q. q\<lparr>p_flag := flag\<rparr>) s) }"
    and p3: "procs s3 new = Some (forked par k q)" and k: "k \<notin> used_ids FIRST_USER_PID (pidbitmap (ids s))"
    and inv3: "proc_inv s3 (B(hash_fn k := new # B (hash_fn k)))"
    and at3: "pid_at s3 new = Some k" "\<And>p. p \<noteq> new \<Longrightarrow> pid_at s3 p = pid_at s p"
    and same: "threads s3 = threads s" "current s3 = current s" "thash s3 = thash s"
      "tidbitmap (ids s3) = tidbitmap (ids s)" "tidhint (ids s3) = tidhint (ids s)"
    and s3: "cnext (child_links s3) par = Item new" "map_refs s3 (p_map q) = Some (n + 1)"
    by (rule do_fork_shared [OF inv(1) par new(1-3) free(1) share, of fm "Some (thr, th0)" fmems at0], rule that)
  let ?at = "at0\<lparr>a_policy := schedpolicy cth, a_prio := priority_stat cth\<rparr>"
  have "tid_at s3 = tid_at s" by (simp add: tid_at_def same fun_eq_iff)
  then have "thread_inv s3 T" using inv(2) same by (simp add: thread_inv_def)
  then obtain s4 th ht i where run4: "create_thread (Some (thr, th0)) new (Some ?at) s3 = Some (Some thr, s4)"
    and s4: "s4 = upd_proc new (\<lambda>p. p\<lparr>p_threads := thr # p_threads p\<rparr>) (s3\<lparr>threads := (threads s3)(thr \<mapsto> th),
         thash := ht, ids := i, total_threads := total_threads s3 + 1\<rparr>)"
    and i: "pidbitmap i = pidbitmap (ids s3)" "pidhint i = pidhint (ids s3)"
    and th: "states th = THREAD_READY" "t_proc th = new" "priority_dyn th = a_prio ?at"
      "schedpolicy th = a_policy ?at" "time_slice th = SLICE"
      "tid th \<notin> used_ids FIRST_USER_TID (tidbitmap (ids s3))"
    and inv4: "thread_inv s4 (T(hash_fn (tid th) := thr # T (hash_fn (tid th))))"
    by (rule create_thread_ok [OF _ new(4) p3, of th0 ?at]) (use free(2) same in \<open>simp_all add: forked_def\<close>)
  let ?s = "upd_proc new (\<lambda>q. q\<lparr>p_flag := flag\<rparr>) s4"
  have "dup_thread (Some (thr, th0)) at0 new s3 = Some (0, s4)"
    using run4 cur same by (simp add: dup_thread_def cur_thread_def)
  then have run: "do_fork fm (Some new) (Some (thr, th0)) fmems at0 par flag s = Some (Inr new, ?s)"
    using run3 by simp
  have at: "pid_at ?s = pid_at s3" by (simp add: s4 pid_at_def fun_eq_iff option.map_comp comp_def)
  then have "proc_inv ?s (B(hash_fn k := new # B (hash_fn k)))"
    using i by (intro proc_inv_cong [OF inv3]) (simp_all add: s4)
  note find = proc_inv_find [OF this]
  have "find_by_pid k ?s = Some (Some new)" using find [of new k] at at3(1) by (simp add: NWORDS_def)
  moreover have "find_by_pid k' ?s = Some (Some p)" if "in_table p B" "pid_at s p = Some k'" for p k'
    using find [of p k'] at at3(2) [of p] that new(3) by (cases "p = new") (simp_all add: NWORDS_def)
  moreover have "find_by_tid (tid th) ?s = Some (Some thr)"
    by (rule thread_inv_find [of _ "T(hash_fn (tid th) := thr # T (hash_fn (tid th)))"])
      (use inv4 in \<open>simp, simp add: NWORDS_def, simp add: s4 tid_at_def\<close>)
  moreover have "procs ?s new = Some (forked par k q\<lparr>p_threads := [thr], p_flag := flag\<rparr>)"
    by (simp add: s4 p3) (simp add: forked_def)
  moreover have "threads ?s thr = Some th" "cnext (child_links ?s) par = Item new"
    "map_refs ?s (p_map q) = Some (n + 1)" using s3 map_refs_vm [of ?s s3] by (simp_all add: s4)
  ultimately show ?thesis
    using run th k by (intro exI [of _ ?s] exI [of _ "forked par k q\<lparr>p_threads := [thr], p_flag := flag\<rparr>"] exI [of _ th])
      (simp only: forked_def, simp)
qed

text \<open>A kernel with one process, number 500, and one thread; its memory map is at 900.\<close>

definition proc_ex :: procstate where
  "proc_ex = timestate.extend (time_ex\<lparr>threads := [1 \<mapsto> thread0\<lparr>t_proc := 7, priority_stat := 20\<rparr>],
     procs := [7 \<mapsto> process0\<lparr>pid := 500, p_threads := [1], p_map := 900\<rparr>], current := 1,
     thash := htab_empty, phash := htab_empty, ids := id_init,
     child_links := \<lparr>cnext = Head, cprev = Head\<rparr>, proclist := [7]\<rparr>)
     (procstate.fields (map_ex\<lparr>vmaps := [900 \<mapsto> the (vmaps map_ex 800)]\<rparr>))"

lemma proc_ex_simps:
  "threads proc_ex = [1 \<mapsto> thread0\<lparr>t_proc := 7, priority_stat := 20\<rparr>]"
  "procs proc_ex = [7 \<mapsto> process0\<lparr>pid := 500, p_threads := [1], p_map := 900\<rparr>]" "current proc_ex = 1"
  "thash proc_ex = htab_empty" "phash proc_ex = htab_empty" "ids proc_ex = id_init"
  "child_links proc_ex = \<lparr>cnext = Head, cprev = Head\<rparr>" "proclist proc_ex = [7]" "map_refs proc_ex 900 = Some 1"
  by (simp_all add: proc_ex_def timestate.defs procstate.defs map_refs_def map_ex_def)

lemma proc_ex_inv: "proc_inv proc_ex (\<lambda>_. [])" "thread_inv proc_ex (\<lambda>_. [])"
  by (simp_all add: proc_inv_def thread_inv_def proc_ex_simps htab_rep_empty keyed_def id_init_def id_init_wf
      in_table_def)

lemma no_ids_used: "used_ids b (pidbitmap id_init) = {}" "used_ids b (tidbitmap id_init) = {}"
  "{b..<b + int NIDS} \<noteq> {}"
  by (simp_all add: id_init_def id_init_wf used_ids_def NIDS_def)

theorem fork_registers_child_witness:
  "\<exists>s' c. do_fork None (Some 8) (Some (2, thread0)) [] \<lparr>a_flags = 0, a_prio = 0, a_stackaddr = 0,
      a_stack_size = 0, a_policy = 0\<rparr> 7 DUP_SHARE proc_ex = Some (Inr 8, s') \<and> procs s' 8 = Some c \<and>
    p_threads c = [2] \<and> find_by_pid (pid c) s' = Some (Some 8) \<and> map_refs s' 900 = Some 2"
proof -
  let ?q = "process0\<lparr>pid := 500, p_threads := [1], p_map := 900\<rparr>"
  let ?th = "thread0\<lparr>t_proc := 7, priority_stat := 20\<rparr>"
  have "procs proc_ex 7 = Some ?q" "in_list 7 (cnext (child_links proc_ex) 7)"
    "fileptr (p_fd ?q) = replicate (MAX_DEF_FD + 1) 0" "map_refs proc_ex (p_map ?q) = Some 1" "(8::nat) \<noteq> 7"
    "8 \<notin> set (proclist proc_ex)" "\<not> in_table 8 (\<lambda>_. [])" "\<not> in_table 2 (\<lambda>_. [])" "cur_thread proc_ex = Some ?th"
    "DUP_SHARE AND DUP_SHARE \<noteq> 0"
    by (simp_all add: proc_ex_simps in_list_def process0_def fd0_def MAX_DEF_FD_def in_table_def cur_thread_def
        DUP_SHARE_def)
  note f = fork_registers_child [OF proc_ex_inv this(1-9) _ _ this(10), unfolded proc_ex_simps no_ids_used]
  show ?thesis
    using f [of None thread0 "[]" "\<lparr>a_flags = 0, a_prio = 0, a_stackaddr = 0, a_stack_size = 0, a_policy = 0\<rparr>"]
      no_ids_used(3) by auto
qed

section \<open>Children of children\<close>

lemma fd_copies_links: "fd_copies ptrs mems s = Some (e, mems', s') \<Longrightarrow> child_links s' = child_links s"
  by (induction ptrs mems s rule: fd_copies.induct) (auto simp: bind_Some split: if_splits list.splits option.splits)

lemma fd_fork_links:
  assumes "fd_fork mems chld par s = Some (r, s')"
  shows "child_links s' = child_links s"
proof -
  have "\<exists>ptrs e ms s1. fd_copies ptrs mems s = Some (e, ms, s1) \<and>
      (s' = s1 \<or> (\<exists>ptrs e' ms'. fd_copies ptrs ms s1 = Some (e', ms', s')))"
    using assms unfolding fd_fork_def bind_Some Let_def
    by (elim exE conjE) (simp split: option.splits if_splits prod.splits add: bind_Some; blast)
  then show ?thesis using fd_copies_links by metis
qed

lemma enter_thread_links:
  "list_enqueue_thread p t s = Some s' \<Longrightarrow> child_links s' = child_links s"
  "thash_insert t s = Some s' \<Longrightarrow> child_links s' = child_links s"
  by (auto simp: list_enqueue_thread_def thash_insert_def bind_Some)

lemma create_thread_links:
  assumes "create_thread mem p at s = Some (r, s')"
  shows "child_links s' = child_links s"
proof (cases mem)
  case None
  then show ?thesis using assms by (simp add: create_thread_def)
next
  case (Some m)
  obtain thr th0 where m: "m = (thr, th0)" by (cases m)
  show ?thesis
    using assms unfolding Some m create_thread_def Let_def option.case prod.case bind_Some
    by (elim exE conjE) (drule enter_thread_links, simp split: prod.splits add: bind_Some, elim exE conjE,
        drule enter_thread_links(2), hypsubst, simp)
qed

lemma new_process_links:
  assumes "new_process new par f s = Some s'" "new \<noteq> par"
  shows "cnext (child_links s') new = cnext (child_links s) par"
  using assms by (auto simp: new_process_def bind_Some Let_def child_add_def child_init_def in_list_def
      sysinfo_add_process_def split: if_splits prod.splits cptr.splits)

lemma do_fork_links:
  assumes "do_fork fm (Some new) tmem fmems at0 par flag s = Some (Inr new, s')" "new \<noteq> par"
    "flag AND DUP_SHARE \<noteq> 0"
  shows "cnext (child_links s') new = cnext (child_links s) par"
  using assms
  by (auto simp: do_fork_def bind_Some dup_thread_def phash_insert_def add_ref_def
      dest!: new_process_links fd_fork_links create_thread_links split: if_splits)


definition attr_ex :: thread_attr where
  "attr_ex = \<lparr>a_flags = 0, a_prio = 0, a_stackaddr = 0, a_stack_size = 0, a_policy = 0\<rparr>"

lemma proc_ex_forks:
  "\<exists>s'. do_fork None (Some 8) (Some (2, thread0)) [] attr_ex 7 DUP_SHARE proc_ex = Some (Inr 8, s')"
proof -
  let ?q = "process0\<lparr>pid := 500, p_threads := [1], p_map := 900\<rparr>"
  have q: "procs proc_ex 7 = Some ?q" "in_list 7 (cnext (child_links proc_ex) 7)"
    "fileptr (p_fd ?q) = replicate (MAX_DEF_FD + 1) 0" "map_refs proc_ex (p_map ?q) = Some 1" "(8::nat) \<noteq> 7"
    "8 \<notin> set (proclist proc_ex)" "\<not> in_table 8 (\<lambda>_. [])" "DUP_SHARE AND DUP_SHARE \<noteq> 0"
    by (simp_all add: proc_ex_simps in_list_def process0_def fd0_def MAX_DEF_FD_def in_table_def DUP_SHARE_def)
  have free: "used_ids FIRST_USER_PID (pidbitmap (ids proc_ex)) \<noteq> {FIRST_USER_PID..<FIRST_USER_PID + int NIDS}"
    using no_ids_used by (auto simp: proc_ex_simps)
  obtain k s3 where s3: "do_fork None (Some 8) (Some (2, thread0)) [] attr_ex 7 DUP_SHARE proc_ex = do {
      (_, s) \<leftarrow> dup_thread (Some (2, thread0)) attr_ex 8 s3;
      Some (Inr 8, upd_proc 8 (\<lambda>q. q\<lparr>p_flag := DUP_SHARE\<rparr>) s) }"
    "procs s3 8 = Some (forked 7 k ?q)" "threads s3 = threads proc_ex" "current s3 = current proc_ex"
    "thash s3 = thash proc_ex" "tidbitmap (ids s3) = tidbitmap (ids proc_ex)" "tidhint (ids s3) = tidhint (ids proc_ex)"
    by (rule do_fork_shared [OF proc_ex_inv(1) q(1-7) free q(8), of None "Some (2, thread0)" "[]" attr_ex],
      rule that)
  have i3: "thread_inv s3 (\<lambda>_. [])" using proc_ex_inv(2) by (simp add: thread_inv_def s3 keyed_def)
  have f3: "used_ids FIRST_USER_TID (tidbitmap (ids s3)) \<noteq> {FIRST_USER_TID..<FIRST_USER_TID + int NIDS}"
    using no_ids_used by (auto simp: proc_ex_simps s3)
  obtain s4 where
    "create_thread (Some (2, thread0)) 8 (Some (attr_ex\<lparr>a_policy := 0, a_prio := 20\<rparr>)) s3 = Some (Some 2, s4)"
    by (rule create_thread_ok [OF i3 _ s3(2) _ f3, of 2 thread0 "attr_ex\<lparr>a_policy := 0, a_prio := 20\<rparr>"])
      (simp_all add: in_table_def forked_def)
  then show ?thesis
    unfolding s3(1) by (simp add: dup_thread_def cur_thread_def s3 proc_ex_simps thread0_def)
qed


end
