(* ===== verification/VmFault.thy ===== *)
theory VmFault
  imports Process
begin

unbundle bit_operations_syntax

text \<open>
  Where the memory management meets the rest of the kernel: the requests to pagers of
  \<^verbatim>\<open>src/microkernel/mm/vm_pager.c\<close>, the page fault handler and the system calls of
  \<^verbatim>\<open>arch/i386/memory.c\<close>, memory shared by messages, and \<open>exec_kludge\<close> of
  \<^verbatim>\<open>kernel/process.c\<close>.

  A function that sends a message to a pager is split where it sleeps, as in the theory of
  messages: \<open>Blocked\<close> is the outcome up to the switch, and \<open>data_request_rest\<close> is what runs when
  the reply is there. \<open>omem\<close> and \<open>emem\<close> are the memory of new objects and entries, \<open>vnp\<close> is the
  address of the \<open>vn\<close> field of an object and \<open>copy\<close> is the copy of a page in \<open>handle_cow\<close>.
\<close>

definition FS_DATA_REQ :: u32 where "FS_DATA_REQ = 0"
definition MSG_LONG_SEND :: u16 where "MSG_LONG_SEND = 2"
definition VM_MAP_ENTRY_LOWMEM :: u32 where "VM_MAP_ENTRY_LOWMEM = 0x40"
definition VM_MAP_ENTRY_FILE :: u32 where "VM_MAP_ENTRY_FILE = 0x80"
definition USER_STACK_ENTRY_SIZE :: u32 where "USER_STACK_ENTRY_SIZE = 0x200000"
definition SIGSEGV :: int where "SIGSEGV = 14"

definition with_vm :: "'z procstate_scheme \<Rightarrow> ('a \<times> vmem) option \<Rightarrow> ('a \<times> 'z procstate_scheme) option" where
  "with_vm s r = do { (a, v) \<leftarrow> r; Some (a, s\<lparr>vm := v\<rparr>) }"

definition cur_map :: "'z kstate_scheme \<Rightarrow> addr option" where
  "cur_map s = do { q \<leftarrow> cur_proc s; Some (p_map q) }"

section \<open>Messages that share memory\<close>

definition share_map :: "addr \<times> vm_map_entry \<Rightarrow> addr \<Rightarrow> addr \<Rightarrow> u32 \<Rightarrow> u32 \<Rightarrow> u32 \<Rightarrow> 'z procstate_scheme \<Rightarrow>
  (int \<times> u32 \<times> 'z procstate_scheme) option" where
  "share_map emem rcv sndr va sz flag s = do {
     (ret, a, v) \<leftarrow> vm_share_addr (user_pmaps s) emem rcv sndr va sz flag (vm s);
     Some (ret, a, s\<lparr>vm := v\<rparr>)
   }"

section \<open>Requests to pagers\<close>

text \<open>The pages for the data; the count is tested after it was decremented.\<close>

partial_function (option) request_pages :: "addr list \<Rightarrow> addr \<times> vm_object \<Rightarrow> addr \<Rightarrow> addr \<Rightarrow> u32 \<Rightarrow> u32 \<Rightarrow> vmem \<Rightarrow>
  vmem option" where
  "request_pages ups omem mp ob a n v = do {
     let a = page_base a;
     (page, v) \<leftarrow> page_alloc omem (Some ob) a v;
     g \<leftarrow> pages v page;
     m \<leftarrow> vmaps v mp;
     pm \<leftarrow> m_pmap m;
     v \<leftarrow> pmap_enter ups pm (pg_base g) a (PAGE_RW OR PAGE_USER) v;
     if n - 1 = 0 then Some v else request_pages ups omem mp ob (a + PAGE_SIZE) (n - 1) v
   }"

definition pager_msg :: "u32 \<Rightarrow> vn_object \<Rightarrow> u32 \<Rightarrow> u32 \<Rightarrow> message" where
  "pager_msg vnp vno va sz = \<lparr>w1 = FS_DATA_REQ, w2 = vnp, w3 = 44, w4 = page_base va, w5 = sz,
     m_tid = pager_id vno, m_flags = MSG_LONG_SEND OR MSG_MAP_RECEIVE\<rparr>"

definition pager_request :: "addr \<times> vm_map_entry \<Rightarrow> addr \<times> vm_object \<Rightarrow> u32 \<Rightarrow> addr \<Rightarrow> u32 \<Rightarrow> u32 \<Rightarrow>
  'z procstate_scheme \<Rightarrow> (int outcome \<times> 'z procstate_scheme) option" where
  "pager_request emem omem vnp ob va sz s = do {
     mp \<leftarrow> cur_map s;
     let v = upd_object ob (\<lambda>b. b\<lparr>vn := (vn b)\<lparr>vn_va := va, vn_page_size := PAGE_SIZE\<rparr>\<rparr>) (vm s);
     v \<leftarrow> request_pages (user_pmaps s) omem mp ob va (sz div PAGE_SIZE) v;
     b \<leftarrow> objects v ob;
     send_message (share_map emem) (pager_id (vn b)) (pager_msg vnp (vn b) va sz) (s\<lparr>vm := v\<rparr>)
   }"

definition data_request_all :: "addr \<times> vm_map_entry \<Rightarrow> addr \<times> vm_object \<Rightarrow> u32 \<Rightarrow> addr \<Rightarrow> u32 \<Rightarrow>
  'z procstate_scheme \<Rightarrow> (int outcome \<times> 'z procstate_scheme) option" where
  "data_request_all emem omem vnp e va s = do {
     en \<leftarrow> ventries (vm s) e;
     ob \<leftarrow> en_object en;
     b \<leftarrow> objects (vm s) ob;
     (r, s) \<leftarrow> pager_request emem omem vnp ob va (align_page (vn_size (vn b))) s;
     Some (case r of Ret _ \<Rightarrow> Ret 0 | Blocked \<Rightarrow> Blocked, s)
   }"

definition request_size :: "vn_object \<Rightarrow> u32" where
  "request_size vno = (if blk_size vno > uint PAGE_SIZE then of_int (blk_size vno) else PAGE_SIZE)"

definition data_request_rest :: "addr \<Rightarrow> u32 \<Rightarrow> 'z procstate_scheme \<Rightarrow> 'z procstate_scheme" where
  "data_request_rest ob sz s = s\<lparr>vm := upd_object ob (\<lambda>b.
     if map_type (vn b) AND VM_MAP_ENTRY_FILE \<noteq> 0 then b\<lparr>vn := (vn b)\<lparr>vn_offset := vn_offset (vn b) + sz\<rparr>\<rparr> else b)
     (vm s)\<rparr>"

definition data_request :: "addr \<times> vm_map_entry \<Rightarrow> addr \<times> vm_object \<Rightarrow> u32 \<Rightarrow> addr \<Rightarrow> u32 \<Rightarrow>
  'z procstate_scheme \<Rightarrow> (int outcome \<times> 'z procstate_scheme) option" where
  "data_request emem omem vnp e va s = do {
     mp \<leftarrow> cur_map s;
     en \<leftarrow> ventries (vm s) e;
     ob \<leftarrow> en_object en;
     b \<leftarrow> objects (vm s) ob;
     if va \<ge> noload_start (vn b) \<and> va \<le> noload_end (vn b) then do {
       (r, s) \<leftarrow> with_vm s (alloc_zero_fill_page (user_pmaps s) omem mp e va (vm s));
       Some (Ret r, s)
     }
     else do {
       let sz = request_size (vn b);
       (r, s) \<leftarrow> pager_request emem omem vnp ob va sz s;
       Some (case r of Ret _ \<Rightarrow> (Ret 0, data_request_rest ob sz s) | Blocked \<Rightarrow> (Blocked, s))
     }
   }"

section \<open>Page faults\<close>

definition segv :: "sigqueue_t option \<Rightarrow> 'z procstate_scheme \<Rightarrow> (unit outcome \<times> 'z procstate_scheme) option" where
  "segv smem s = do { (_, s) \<leftarrow> send_signal smem (current s) SIGSEGV None s; Some (Ret (), s) }"

definition do_page_fault :: "(u32 \<Rightarrow> u32 \<Rightarrow> vmem \<Rightarrow> vmem) \<Rightarrow> addr \<times> vm_map_entry \<Rightarrow> addr \<times> vm_object \<Rightarrow> u32 \<Rightarrow>
  sigqueue_t option \<Rightarrow> u32 \<Rightarrow> u32 \<Rightarrow> 'z procstate_scheme \<Rightarrow> (unit outcome \<times> 'z procstate_scheme) option" where
  "do_page_fault copy emem omem vnp smem error_code address s = do {
     mp \<leftarrow> cur_map s;
     (entry, s) \<leftarrow> with_vm s (vm_map_lookup_entry mp address (vm s));
     case entry of
       None \<Rightarrow> segv smem s
     | Some e \<Rightarrow> do {
         en \<leftarrow> ventries (vm s) e;
         let zero_fill = (\<lambda>s. do {
               (_, s) \<leftarrow> with_vm s (alloc_zero_fill_page (user_pmaps s) omem mp e address (vm s));
               Some (Ret (), s)
             });
         if en_type en AND VM_MAP_ENTRY_ZERO_FILL \<noteq> 0 then zero_fill s
         else if en_type en AND VM_MAP_ENTRY_ANON \<noteq> 0 then segv smem s
         else if error_code AND 1 = 0 then do {
           (r, s) \<leftarrow> data_request emem omem vnp e address s;
           case r of
             Blocked \<Rightarrow> Some (Blocked, s)
           | Ret r \<Rightarrow> if r < 0 then segv smem s else Some (Ret (), s)
         }
         else if error_code AND 2 \<noteq> 0 then do {
           (_, s) \<leftarrow> with_vm s (handle_cow copy (user_pmaps s) omem mp e address (vm s));
           Some (Ret (), s)
         }
         else zero_fill s
       }
   }"

section \<open>System calls\<close>

text \<open>\<open>vno\<close> is what the pointer in \<open>ebx\<close> points to, when it is not null.\<close>

definition syscall_vm_map :: "addr \<times> vm_object \<Rightarrow> addr \<times> vm_map_entry \<Rightarrow> vn_object option \<Rightarrow> u32 \<Rightarrow>
  'z procstate_scheme \<Rightarrow> (u32 \<times> 'z procstate_scheme) option" where
  "syscall_vm_map omem emem vno ecx s = do {
     mp \<leftarrow> cur_map s;
     if ecx AND VM_MAP_ENTRY_LOWMEM \<noteq> 0 then do {
       let v = upd_vmap mp (\<lambda>m. if m_private m = 0 then m\<lparr>m_private := 0x1000\<rparr> else m) (vm s);
       m \<leftarrow> vmaps v mp;
       pm \<leftarrow> m_pmap m;
       vno \<leftarrow> vno;
       v \<leftarrow> pmap_enter_range (user_pmaps s) pm (m_private m) (m_private m) (vn_size vno) (PAGE_RW OR PAGE_USER) v;
       Some (m_private m, s\<lparr>vm := upd_vmap mp (\<lambda>m. m\<lparr>m_private := m_private m + vn_size vno\<rparr>) v\<rparr>)
     }
     else do {
       vno \<leftarrow> vno;
       (a, _, v) \<leftarrow> vm_map (user_pmaps s) omem emem mp vno ecx (vm s);
       Some (a, s\<lparr>vm := v\<rparr>)
     }
   }"

text \<open>The second component of the result is the new value of \<open>ebx\<close>.\<close>

definition syscall_vm_allocate :: "addr \<times> vm_map_entry \<Rightarrow> u32 \<Rightarrow> 'z procstate_scheme \<Rightarrow>
  (int \<times> u32 \<times> 'z procstate_scheme) option" where
  "syscall_vm_allocate emem ecx s = do {
     mp \<leftarrow> cur_map s;
     (r, a, v) \<leftarrow> vm_allocate emem mp ecx (vm s);
     Some (r, a, s\<lparr>vm := v\<rparr>)
   }"

type_synonym clip_mem = "(addr \<times> vm_map_entry) \<times> (addr \<times> vm_map_entry)"

definition syscall_vm_lock :: "clip_mem \<Rightarrow> u32 \<Rightarrow> u32 \<Rightarrow> u32 \<Rightarrow> 'z procstate_scheme \<Rightarrow> (int \<times> 'z procstate_scheme) option" where
  "syscall_vm_lock mems ebx ecx edx s = do {
     mp \<leftarrow> cur_map s;
     su \<leftarrow> superuser s;
     with_vm s (vm_lock su mems mp ebx ecx edx (vm s))
   }"

definition syscall_vm_unlock :: "clip_mem \<Rightarrow> u32 \<Rightarrow> u32 \<Rightarrow> u32 \<Rightarrow> 'z procstate_scheme \<Rightarrow> (int \<times> 'z procstate_scheme) option" where
  "syscall_vm_unlock mems ebx ecx edx s = do {
     mp \<leftarrow> cur_map s;
     su \<leftarrow> superuser s;
     with_vm s (vm_unlock su mems mp ebx ecx edx (vm s))
   }"

definition syscall_vm_protect :: "clip_mem \<Rightarrow> u32 \<Rightarrow> u32 \<Rightarrow> u32 \<Rightarrow> 'z procstate_scheme \<Rightarrow> (int \<times> 'z procstate_scheme) option" where
  "syscall_vm_protect mems ebx ecx edx s = do {
     mp \<leftarrow> cur_map s;
     with_vm s (vm_protect mems mp ebx ecx edx (vm s))
   }"

text \<open>\<open>regp\<close> is the address of the saved register \<open>ebx\<close>, which is passed instead of its value.\<close>

definition syscall_vm_deallocate :: "clip_mem \<Rightarrow> u32 \<Rightarrow> u32 \<Rightarrow> 'z procstate_scheme \<Rightarrow> (int \<times> 'z procstate_scheme) option" where
  "syscall_vm_deallocate mems regp ecx s = do {
     mp \<leftarrow> cur_map s;
     with_vm s (vm_deallocate mems mp regp ecx (vm s))
   }"

section \<open>Executing a program\<close>

text \<open>
  \<open>emems\<close> is the memory for the entries of the program, of its stack and of the message to the
  pager. The old memory map is given up before the new one is made from it.
\<close>

definition exec_kludge :: "fork_mem option \<Rightarrow> addr \<times> vm_object \<Rightarrow>
  (addr \<times> vm_map_entry) \<times> (addr \<times> vm_map_entry) \<times> (addr \<times> vm_map_entry) \<Rightarrow> u32 \<Rightarrow> vn_object \<Rightarrow> u32 \<Rightarrow>
  'z procstate_scheme \<Rightarrow> (int outcome \<times> 'z procstate_scheme) option" where
  "exec_kludge fm omem emems vnp vno stack s = do {
     let thr = current s;
     th \<leftarrow> threads s thr;
     let p = t_proc th;
     q \<leftarrow> procs s p;
     s \<leftarrow> (if p_status q AND STAT_VFORKED \<noteq> 0 then do {
            t \<leftarrow> parent_thread p s;
            s \<leftarrow> enqueue_thread t s;
            s \<leftarrow> add_ref (p_map q) (- 1) s;
            Some (upd_proc p (\<lambda>q. q\<lparr>p_status := 0\<rparr>) s)
          }
          else exit_map (p_map q) s);
     (m, s) \<leftarrow> fork_map fm (p_map q) DUP_NONE s;
     case m of
       None \<Rightarrow> Some (Ret (- 1), upd_proc p (\<lambda>q. q\<lparr>p_map := 0\<rparr>) s)
     | Some m \<Rightarrow> do {
         s \<leftarrow> exit_threads p (upd_proc p (\<lambda>q. q\<lparr>p_map := m\<rparr>) s);
         s \<leftarrow> delete_sync p s;
         s \<leftarrow> exit_timers p (upd_proc p (\<lambda>q. q\<lparr>action := init_signals (action q)\<rparr>) s);
         s \<leftarrow> exec_thread thr s;
         (_, vno, v) \<leftarrow> vm_map (user_pmaps s) omem (fst emems) m vno (ucast VM_MAP_ENTRY_OBJECT_FIXED) (vm s);
         (_, _, v) \<leftarrow> vm_map_enter (fst (snd emems)) m stack USER_STACK_ENTRY_SIZE None
           (VM_MAP_ENTRY_OBJECT_FIXED OR VM_MAP_ENTRY_ZERO_FILL) v;
         (entry, v) \<leftarrow> vm_map_lookup_entry m (vn_va vno) v;
         e \<leftarrow> entry;
         data_request_all (snd (snd emems)) omem vnp e (vn_va vno) (s\<lparr>vm := v\<rparr>)
       }
   }"

section \<open>Faults are resolved\<close>

lemma upd_vmap_frame [simp]:
  "pages (upd_vmap m f s) = pages s" "objects (upd_vmap m f s) = objects s" "ventries (upd_vmap m f s) = ventries s"
  "pmaps (upd_vmap m f s) = pmaps s" "frames (upd_vmap m f s) = frames s" "plinks (upd_vmap m f s) = plinks s"
  "pagehash (upd_vmap m f s) = pagehash s" "vm_page_initialized (upd_vmap m f s) = vm_page_initialized s"
  "free_page_list (upd_vmap m f s) = free_page_list s"
  "vmaps (upd_vmap m f s) m = map_option f (vmaps s m)"
  by (simp_all add: upd_vmap_def)

lemma vm_inv_upd_vmap [simp]: "vm_inv (upd_vmap m f s) = vm_inv s" "page_key (upd_vmap m f s) = page_key s"
proof -
  show key: "page_key (upd_vmap m f s) = page_key s" by (simp add: page_key_def fun_eq_iff)
  show "vm_inv (upd_vmap m f s) = vm_inv s" by (simp add: vm_inv_def key free_list_def fun_eq_iff)
qed

lemma translate_cong: "frames s' = frames s \<Longrightarrow> translate pd s' va = translate pd s va"
  by (simp add: translate_def)


text \<open>A fault outside every entry is answered with \<open>SIGSEGV\<close> to the faulting thread; memory stays as it is.\<close>

lemma page_fault_segv:
  assumes cur: "cur_map s = Some mp" and m: "vmaps (vm s) mp = Some m" "vmentry m = Some (hd es)"
    and ring: "entry_ring (vm s) es" "\<forall>h. hint m = Some h \<longrightarrow> h \<in> set es" "\<forall>e \<in> set es. \<not> covering (vm s) a e"
  shows "do_page_fault copy emem omem vnp smem error_code a s = segv smem s"
  using cur lookup_entry_find [OF m ring(1,2), of a] ring(3) by (auto simp: do_page_fault_def with_vm_def)

text \<open>Process 7 with the map at 800 of one zero-filled entry and one page table.\<close>

definition fault_ex :: procstate where
  "fault_ex = proc_ex\<lparr>procs := [7 \<mapsto> process0\<lparr>pid := 500, p_threads := [1], p_map := 800\<rparr>],
     vm := pmap_ex\<lparr>elinks := \<lparr>lnext = id, lprev = id\<rparr>\<rparr>\<rparr>"


end
