(* ===== verification/Slab.thy ===== *)
theory Slab
  imports KList
begin

text \<open>
  The slab allocator: \<^verbatim>\<open>src/microkernel/mm/vm_slab.c\<close> and \<^verbatim>\<open>include/kernel/vm_slab.h\<close>.

  A cache has three lists of slabs, whose heads are its first three fields; the link of a slab is
  its first field. A slab is a page with a header, the array of control words \<open>bufctl\<close> and the
  objects. Pages for new slabs are an argument (\<open>kmem_alloc\<close>). Constructors and destructors are
  function pointers, and \<open>call f obj cache\<close> is the effect of calling \<open>f\<close>.
\<close>

definition BUFCTL_END :: u16 where "BUFCTL_END = 0xFFFF"
definition CACHE_NAME_LEN :: nat where "CACHE_NAME_LEN = 11"

record kmem_slab =
  objaddr :: addr
  nentries :: int
  sfree :: u16
  bufctl :: "u16 list"

record kmem_cache =
  obj_size :: nat
  waste :: nat
  nobjects :: nat
  align :: nat
  ctor :: addr
  dtor :: addr
  cname :: string
  next_cache :: addr

record slabst =
  caches :: "addr \<Rightarrow> kmem_cache option"
  slabs :: "addr \<Rightarrow> kmem_slab option"
  slinks :: lheap
  cache_cache :: addr
  cachep :: addr

type_synonym call_fn = "addr \<Rightarrow> addr \<Rightarrow> addr \<Rightarrow> slabst \<Rightarrow> slabst"

definition upd_cache :: "addr \<Rightarrow> (kmem_cache \<Rightarrow> kmem_cache) \<Rightarrow> slabst \<Rightarrow> slabst" where
  "upd_cache c f s = s\<lparr>caches := (caches s)(c := map_option f (caches s c))\<rparr>"

definition upd_slab :: "addr \<Rightarrow> (kmem_slab \<Rightarrow> kmem_slab) \<Rightarrow> slabst \<Rightarrow> slabst" where
  "upd_slab p f s = s\<lparr>slabs := (slabs s)(p := map_option f (slabs s p))\<rparr>"


text \<open>The lists of a cache at \<open>c\<close>: partial at \<open>c\<close>, full at \<open>c + 8\<close>, free at \<open>c + 16\<close>.\<close>

definition init_lists :: "addr \<Rightarrow> lheap \<Rightarrow> lheap" where
  "init_lists c h = list_init (c + 16) (list_init c (list_init (c + 8) h))"

section \<open>Caches and slabs\<close>

text \<open>The constructor of the cache of caches; \<open>old\<close> is what the memory of the object held before.\<close>

definition cache_const :: "kmem_cache \<Rightarrow> addr \<Rightarrow> slabst \<Rightarrow> slabst" where
  "cache_const old c s =
     s\<lparr>caches := (caches s)(c \<mapsto> old\<lparr>obj_size := 0, waste := 0, nobjects := 0, align := 0, next_cache := 0\<rparr>),
       slinks := init_lists c (slinks s)\<rparr>"

definition cache_calculate :: "kmem_cache \<Rightarrow> kmem_cache" where
  "cache_calculate k = (
     let free = 4096 - 16
     in k\<lparr>nobjects := free div (obj_size k + 2), waste := free mod (obj_size k + 2)\<rparr>)"

definition fill_object :: "call_fn \<Rightarrow> kmem_cache \<Rightarrow> addr \<Rightarrow> addr \<Rightarrow> nat \<Rightarrow> slabst \<Rightarrow> slabst" where
  "fill_object call k c base i s = (
     let obj = base + i * obj_size k;
         s = (if ctor k \<noteq> 0 then call (ctor k) obj c s else s)
     in if dtor k \<noteq> 0 then call (dtor k) obj c s else s)"

text \<open>
  The control words are written before the constructors run, which do not look at them. The last
  one is set behind the loop, which needs at least one object.
\<close>

definition ctl_word :: "nat \<Rightarrow> nat \<Rightarrow> u16" where
  "ctl_word n i = (if i = n - 1 then BUFCTL_END else of_nat (i + 1))"

definition slab_fill :: "call_fn \<Rightarrow> addr \<Rightarrow> addr \<Rightarrow> slabst \<Rightarrow> slabst option" where
  "slab_fill call slab c s = do {
     check (slab \<noteq> 0);
     k \<leftarrow> caches s c;
     check (nobjects k > 0);
     let base = slab + 16 + nobjects k * 2;
     let ctl = map (ctl_word (nobjects k)) [0..<nobjects k];
     let s = s\<lparr>slabs := (slabs s)(slab \<mapsto> \<lparr>objaddr = base, nentries = 0, sfree = 0, bufctl = ctl\<rparr>)\<rparr>;
     Some (fold (fill_object call k c base) [0..<nobjects k] s)
   }"

definition slab_init :: "slabst \<Rightarrow> slabst" where
  "slab_init s = (upd_cache (cache_cache s) cache_calculate s)\<lparr>slinks := init_lists (cache_cache s) (slinks s)\<rparr>"

definition kmem_cache_grow :: "call_fn \<Rightarrow> addr \<Rightarrow> addr \<Rightarrow> slabst \<Rightarrow> slabst option" where
  "kmem_cache_grow call page c s = do {
     s \<leftarrow> slab_fill call page c s;
     Some (s\<lparr>slinks := list_add c page (slinks s)\<rparr>)
   }"

section \<open>Objects\<close>

definition kmem_cache_alloc :: "call_fn \<Rightarrow> addr \<Rightarrow> addr \<Rightarrow> slabst \<Rightarrow> (addr \<times> slabst) option" where
  "kmem_cache_alloc call page c s = do {
     k \<leftarrow> caches s c;
     s \<leftarrow> (if lnext (slinks s) c = c then
             (if lnext (slinks s) (c + 16) = c + 16 then kmem_cache_grow call page c s
              else let (temp, h) = list_remove (c + 16) (slinks s)
                   in Some (s\<lparr>slinks := list_add c temp h\<rparr>))
           else Some s);
     let slab = lnext (slinks s) c;
     b \<leftarrow> slabs s slab;
     let objp = objaddr b + unat (sfree b) * obj_size k;
     nxt \<leftarrow> aget (bufctl b) (unat (sfree b));
     Some (objp, upd_slab slab (\<lambda>b. b\<lparr>sfree := nxt, nentries := nentries b + 1\<rparr>) s)
   }"

text \<open>
  \<open>kmem_cache_free\<close> takes the first partial slab for the slab of the object. The slab is moved to
  the list of full slabs when its last object is freed.
\<close>

definition kmem_cache_free :: "addr \<Rightarrow> addr \<Rightarrow> slabst \<Rightarrow> (int \<times> slabst) option" where
  "kmem_cache_free c obj s = do {
     k \<leftarrow> caches s c;
     let slab = lnext (slinks s) c;
     b \<leftarrow> slabs s slab;
     s \<leftarrow> (if nentries b = 0 then Some s
           else do {
             let nobj = (of_nat (nat (((int obj - int (objaddr b)) mod 2 ^ 32) div int (obj_size k))) :: u16);
             ctl \<leftarrow> aput (bufctl b) (unat nobj) (sfree b);
             Some (upd_slab slab (\<lambda>b. b\<lparr>bufctl := ctl, sfree := nobj, nentries := nentries b - 1\<rparr>) s)
           });
     b \<leftarrow> slabs s slab;
     Some (0, if nentries b \<le> 0 then
         let (new, h) = list_remove c (slinks s) in s\<lparr>slinks := list_add (c + 8) new h\<rparr>
       else s)
   }"

text \<open>\<open>nm\<close> is copied without regard to the size of the field; up to 19 characters stay in the structure.\<close>

definition kmem_cache_create :: "call_fn \<Rightarrow> addr \<Rightarrow> string option \<Rightarrow> nat \<Rightarrow> addr \<Rightarrow> addr \<Rightarrow> slabst \<Rightarrow>
  (addr option \<times> slabst) option" where
  "kmem_cache_create call page nm sz ct dt s =
     (case nm of
        None \<Rightarrow> Some (None, s)
      | Some nm \<Rightarrow>
          if sz = 0 then Some (None, s)
          else do {
            (c, s) \<leftarrow> kmem_cache_alloc call page (cache_cache s) s;
            _ \<leftarrow> caches s c;
            check (length nm < 20);
            let s = (upd_cache c (\<lambda>k. cache_calculate (k\<lparr>ctor := ct, dtor := dt, obj_size := sz, cname := nm\<rparr>)) s)
                      \<lparr>slinks := init_lists c (slinks s)\<rparr>;
            k \<leftarrow> caches s c;
            if nobjects k = 0 then do { (_, s) \<leftarrow> kmem_cache_free (cache_cache s) c s; Some (None, s) }
            else do {
              let s = upd_cache (cachep s) (\<lambda>k. k\<lparr>next_cache := c\<rparr>) s;
              Some (Some c, upd_cache c (\<lambda>k. k\<lparr>next_cache := 0\<rparr>) (s\<lparr>cachep := c\<rparr>))
            }
          })"

text \<open>The slabs that are given back to the page allocator, in order.\<close>

partial_function (option) free_all :: "addr \<Rightarrow> lheap \<Rightarrow> (addr list \<times> lheap) option" where
  "free_all c h =
     (if lnext h (c + 16) = c + 16 then Some ([], h)
      else do {
        let (tmp, h) = list_remove (c + 16) h;
        (ps, h) \<leftarrow> free_all c h;
        Some (tmp # ps, h)
      })"

partial_function (option) reap_walk :: "addr \<Rightarrow> slabst \<Rightarrow> (addr list \<times> slabst) option" where
  "reap_walk next s = do {
     k \<leftarrow> caches s next;
     if next_cache k = 0 then Some ([], s)
     else do {
       (ps, h) \<leftarrow> free_all next (slinks s);
       (qs, s) \<leftarrow> reap_walk (next_cache k) (s\<lparr>slinks := h\<rparr>);
       Some (ps @ qs, s)
     }
   }"

definition kmem_cache_reap :: "slabst \<Rightarrow> (addr list \<times> slabst) option" where
  "kmem_cache_reap s = reap_walk (cache_cache s) s"

section \<open>Filling a slab\<close>

primrec alloc_n :: "call_fn \<Rightarrow> addr \<Rightarrow> addr \<Rightarrow> nat \<Rightarrow> slabst \<Rightarrow> (addr list \<times> slabst) option" where
  "alloc_n call page c 0 s = Some ([], s)"
| "alloc_n call page c (Suc n) s = do {
     (a, s) \<leftarrow> kmem_cache_alloc call page c s;
     (as, s) \<leftarrow> alloc_n call page c n s;
     Some (a # as, s)
   }"

text \<open>A cache whose first partial slab, at \<open>page\<close>, has handed out its first \<open>i\<close> objects.\<close>

definition handed :: "slabst \<Rightarrow> addr \<Rightarrow> addr \<Rightarrow> kmem_cache \<Rightarrow> nat \<Rightarrow> bool" where
  "handed s c page k i \<longleftrightarrow> caches s c = Some k \<and> lnext (slinks s) c = page \<and> page \<noteq> c \<and>
     slabs s page = Some \<lparr>objaddr = page + 16 + nobjects k * 2, nentries = int i,
       sfree = (if i < nobjects k then of_nat i else BUFCTL_END), bufctl = map (ctl_word (nobjects k)) [0..<nobjects k]\<rparr>"

lemma fill_object_plain: "ctor k = 0 \<Longrightarrow> dtor k = 0 \<Longrightarrow> fold (fill_object call k c b) is s = s"
  by (induction "is" arbitrary: s) (auto simp: fill_object_def)

lemma alloc_handed:
  assumes "handed s c page k i" "i < nobjects k" "nobjects k < 0xFFFF"
  obtains s' where "kmem_cache_alloc call q c s = Some (page + 16 + nobjects k * 2 + i * obj_size k, s')"
    "handed s' c page k (Suc i)"
proof -
  have u: "unat (of_nat i :: u16) = i" using assms(2,3) by (simp add: unat_of_nat)
  have w: "ctl_word (nobjects k) i = (if Suc i < nobjects k then of_nat (Suc i) else BUFCTL_END)"
    using assms(2) by (auto simp: ctl_word_def)
  let ?s = "upd_slab page (\<lambda>b. b\<lparr>sfree := ctl_word (nobjects k) i, nentries := nentries b + 1\<rparr>) s"
  show ?thesis
  proof (rule that)
    show "kmem_cache_alloc call q c s = Some (page + 16 + nobjects k * 2 + i * obj_size k, ?s)"
      using assms u by (simp add: kmem_cache_alloc_def handed_def)
    show "handed ?s c page k (Suc i)" using assms(1) by (simp add: handed_def upd_slab_def w)
  qed
qed

lemma alloc_n_handed:
  assumes "handed s c page k i" "i + n \<le> nobjects k" "nobjects k < 0xFFFF"
  shows "\<exists>s'. alloc_n call q c n s = Some (map (\<lambda>j. page + 16 + nobjects k * 2 + j * obj_size k) [i..<i + n], s') \<and>
    handed s' c page k (i + n)"
  using assms
proof (induction n arbitrary: s i)
  case (Suc n)
  then have lt: "i < nobjects k" by simp
  obtain s' where s': "kmem_cache_alloc call q c s = Some (page + 16 + nobjects k * 2 + i * obj_size k, s')"
    "handed s' c page k (Suc i)"
    using alloc_handed [OF Suc.prems(1) lt Suc.prems(3)] by blast
  have "Suc i + n \<le> nobjects k" using Suc.prems(2) by simp
  from Suc.IH [OF s'(2) this Suc.prems(3)] show ?case
    using s'(1) by (auto simp: upt_conv_Cons)
qed simp

text \<open>
  C23. The first slab of a cache: for objects of a size with \<open>n\<close> of them to a page, \<open>n\<close> calls of
  \<open>kmem_cache_alloc\<close> on an empty cache hand out the objects one behind the other, each inside the
  page. The next call has no defined result: the slab stays the first partial one when it is
  exhausted, and its end mark is used as an index.
\<close>

theorem slab_allocates_page_then_overruns:
  assumes k: "caches s c = Some k" "ctor k = 0" "dtor k = 0" "0 < obj_size k" "obj_size k \<le> 4078"
    "nobjects k = 4080 div (obj_size k + 2)"
    and empty: "lnext (slinks s) c = c" "lnext (slinks s) (c + 16) = c + 16" "page \<noteq> c" "page \<noteq> 0"
  shows "\<exists>objs s'. alloc_n call page c (nobjects k) s = Some (objs, s') \<and>
    objs = map (\<lambda>j. page + 16 + nobjects k * 2 + j * obj_size k) [0..<nobjects k] \<and> distinct objs \<and>
    (\<forall>a \<in> set objs. page + 16 \<le> a \<and> a + obj_size k \<le> page + 4096) \<and>
    kmem_cache_alloc call page' c s' = None"
proof -
  define n where "n = nobjects k"
  define objs where "objs = map (\<lambda>j. page + 16 + n * 2 + j * obj_size k) [0..<n]"
  have "0 < n" using k(4,5,6) by (simp add: n_def div_greater_zero_iff)
  have fits: "n * (obj_size k + 2) \<le> 4080" unfolding n_def k(6) by (rule div_times_less_eq_dividend)
  have "n * 1 \<le> n * (obj_size k + 2)" by (rule mult_le_mono2) simp
  then have small: "nobjects k < 0xFFFF" using fits by (simp add: n_def)
  let ?s1 = "s\<lparr>slabs := (slabs s)(page \<mapsto> \<lparr>objaddr = page + 16 + n * 2, nentries = 0, sfree = 0,
      bufctl = map (ctl_word n) [0..<n]\<rparr>), slinks := list_add c page (slinks s)\<rparr>"
  have grow: "kmem_cache_grow call page c s = Some ?s1"
    using k empty(4) \<open>0 < n\<close> by (simp add: kmem_cache_grow_def slab_fill_def fill_object_plain n_def Let_def)
  have h: "handed ?s1 c page k 0"
    using k(1) empty(1,3) \<open>0 < n\<close> by (simp add: handed_def n_def list_add_def Let_def)
  have first: "kmem_cache_alloc call page c s = kmem_cache_alloc call page c ?s1"
    using k(1) empty grow h by (simp add: kmem_cache_alloc_def handed_def)
  obtain m where m: "n = Suc m" using \<open>0 < n\<close> by (cases n) auto
  have "alloc_n call page c n s = alloc_n call page c n ?s1" using first by (simp add: m)
  then obtain s' where s': "alloc_n call page c n s = Some (objs, s')" "handed s' c page k n"
    using alloc_n_handed [OF h, of n call page] small by (auto simp: n_def objs_def)
  have "kmem_cache_alloc call page' c s' = None"
    using s'(2) small by (auto simp: kmem_cache_alloc_def handed_def n_def BUFCTL_END_def aget_def)
  moreover have "distinct objs" using k(4) by (auto simp: objs_def distinct_map inj_on_def)
  moreover have "page + 16 \<le> a \<and> a + obj_size k \<le> page + 4096" if mem: "a \<in> set objs" for a
  proof -
    obtain j where j: "j < n" "a = page + 16 + n * 2 + j * obj_size k" using mem by (auto simp: objs_def)
    have "(j + 1) * obj_size k \<le> n * obj_size k" using j(1) by (intro mult_le_mono1) simp
    then have "n * 2 + (j + 1) * obj_size k \<le> n * (obj_size k + 2)" by (simp add: algebra_simps)
    then have "n * 2 + (j + 1) * obj_size k \<le> 4080" using fits by (rule order_trans)
    then show ?thesis using j(2) by (simp add: algebra_simps)
  qed
  ultimately show ?thesis using s'(1) unfolding n_def [symmetric] objs_def by blast
qed

text \<open>A cache at 100 for objects of 2000 bytes.\<close>

definition slab_ex :: slabst where
  "slab_ex = \<lparr>caches = [100 \<mapsto> \<lparr>obj_size = 2000, waste = 76, nobjects = 2, align = 0, ctor = 0, dtor = 0,
       cname = ''two'', next_cache = 0\<rparr>],
     slabs = Map.empty, slinks = \<lparr>lnext = id, lprev = id\<rparr>, cache_cache = 100, cachep = 100\<rparr>"

theorem slab_allocates_page_then_overruns_witness:
  "\<exists>s'. alloc_n (\<lambda>_ _ _ s. s) 4096 100 2 slab_ex = Some ([4116, 6116], s') \<and>
     kmem_cache_alloc (\<lambda>_ _ _ s. s) 8192 100 s' = None"
proof -
  let ?k = "\<lparr>obj_size = 2000, waste = 76, nobjects = 2, align = 0, ctor = 0, dtor = 0, cname = ''two'', next_cache = 0\<rparr>"
  have "caches slab_ex 100 = Some ?k" "lnext (slinks slab_ex) 100 = 100" "lnext (slinks slab_ex) (100 + 16) = 100 + 16"
    by (simp_all add: slab_ex_def)
  with slab_allocates_page_then_overruns [of slab_ex 100 ?k 4096 "\<lambda>_ _ _ s. s" 8192] show ?thesis
    by (auto simp: upt_rec)
qed

end
