(* ===== verification/BCache.thy ===== *)
theory BCache
  imports KHash KList CMem
begin

unbundle bit_operations_syntax

text \<open>
  The block devices and the buffer cache of the file server:
  \<^verbatim>\<open>src/servers/fs-io/io/block/blockdev.c\<close> and
  \<^verbatim>\<open>src/servers/fs-io/fs/bcache.c\<close>, built as the configuration says, with the
  drivers in the same process.

  The strategy routine of a driver is a function pointer: \<open>call f op buf\<close> is its return value and
  what it leaves in the buffer. \<open>io\<close> in the cache is \<open>blk_strategy\<close> with the drivers filled in.
  \<open>fresh\<close> holds the addresses that \<open>malloc\<close> is going to return, in order; it returns NULL when the
  list is used up. The mutexes are left out: locking and unlocking are empty functions in the
  C library (\<^verbatim>\<open>src/soft/libc/include/arch/i386/asm/mutex.h\<close>).
\<close>

definition MAX_MAJOR :: nat where "MAX_MAJOR = 32"
definition BLK_READ :: int where "BLK_READ = 1"
definition BLK_WRITE :: int where "BLK_WRITE = 2"
definition B_DIRTY :: int where "B_DIRTY = 1"
definition B_FREE :: int where "B_FREE = 2"
definition B_BUSY :: int where "B_BUSY = 4"
definition MINSZ :: int where "MINSZ = 10"
definition FREELIST :: nat where "FREELIST = 5"

definition MAJOR :: "u32 \<Rightarrow> nat" where "MAJOR dev = unat (drop_bit 16 dev)"
definition MINOR :: "u32 \<Rightarrow> u32" where "MINOR dev = dev AND 0xFFFF"
definition DISKNO :: "u32 \<Rightarrow> u32" where "DISKNO dev = drop_bit 8 (MINOR dev) AND 0xFF"
definition PARTNO :: "u32 \<Rightarrow> u32" where "PARTNO dev = MINOR dev AND 0xFF"

definition DEVICE :: "u32 \<Rightarrow> u32 \<Rightarrow> u32 \<Rightarrow> u32" where
  "DEVICE major disk part = push_bit 16 major OR push_bit 8 disk OR part"

section \<open>Block devices\<close>

record operation =
  op_device :: u32
  op_type :: int
  op_block :: u32
  op_blksize :: u32

record block_device =
  bd_dev :: u32
  sectsize :: int

record bdevsw =
  bd_ops :: addr
  bd_device :: "block_device list"
  ndevs :: int

definition bdevsw0 :: bdevsw where "bdevsw0 = \<lparr>bd_ops = 0, bd_device = [], ndevs = 0\<rparr>"

definition register_blockdev :: "int \<Rightarrow> addr \<Rightarrow> nat \<Rightarrow> bdevsw list \<Rightarrow> (int \<times> bdevsw list) option" where
  "register_blockdev major ops n bdevs =
     (if major \<ge> int MAX_MAJOR \<or> major < 0 then Some (- 1, bdevs)
      else do {
        let device = map (\<lambda>i. \<lparr>bd_dev = DEVICE (of_int major) (of_nat i) 0, sectsize = 512\<rparr>) [0..<n];
        t \<leftarrow> aput bdevs (nat major) \<lparr>bd_ops = ops, bd_device = device, ndevs = int n\<rparr>;
        Some (0, t)
      })"

definition unregister_blockdev :: "int \<Rightarrow> bdevsw list \<Rightarrow> (int \<times> bdevsw list) option" where
  "unregister_blockdev major bdevs =
     (if major \<ge> int MAX_MAJOR \<or> major < 0 then Some (- 1, bdevs)
      else do {
        b \<leftarrow> aget bdevs (nat major);
        t \<leftarrow> aput bdevs (nat major) (b\<lparr>bd_ops := 0, bd_device := []\<rparr>);
        Some (0, t)
      })"

definition blk_init :: "bdevsw list" where
  "blk_init = replicate MAX_MAJOR bdevsw0"

type_synonym strategy_fn = "addr \<Rightarrow> operation \<Rightarrow> byte list \<Rightarrow> (int \<times> byte list) option"
type_synonym io_fn = "int \<Rightarrow> u32 \<Rightarrow> u32 \<Rightarrow> u32 \<Rightarrow> byte list \<Rightarrow> (int \<times> byte list) option"

text \<open>A call through the operations of a major number without a driver is a null pointer.\<close>

definition blk_strategy :: "strategy_fn \<Rightarrow> bdevsw list \<Rightarrow> io_fn" where
  "blk_strategy call bdevs type device blk blksize buf = do {
     bdev \<leftarrow> aget bdevs (MAJOR device);
     check (bd_ops bdev \<noteq> 0);
     call (bd_ops bdev) \<lparr>op_device = device, op_type = type, op_block = blk, op_blksize = blksize\<rparr> buf
   }"

section \<open>The buffer cache\<close>

record bcache =
  b_status :: int
  b_devno :: u32
  b_blockno :: u32
  b_ioerror :: int
  b_data :: "byte list"
  b_datasz :: u32

record fscache =
  bufs :: "addr \<Rightarrow> bcache option"
  bhash_table :: htab
  freelist :: "addr list list"
  maxbuffcache :: u32
  curbuffcache :: u32
  fresh :: "addr list"

definition upd_buf :: "addr \<Rightarrow> (bcache \<Rightarrow> bcache) \<Rightarrow> 'z fscache_scheme \<Rightarrow> 'z fscache_scheme" where
  "upd_buf a f s = s\<lparr>bufs := (bufs s)(a := map_option f (bufs s a))\<rparr>"

definition bhash_fn :: "u32 \<Rightarrow> u32 \<Rightarrow> nat" where
  "bhash_fn blockno devno = unat (blockno XOR devno) mod 1024"

text \<open>The new buffer is made to point to the bucket, which then gets that pointer back.\<close>

definition bhash_insert :: "addr \<Rightarrow> 'z fscache_scheme \<Rightarrow> 'z fscache_scheme option" where
  "bhash_insert a s = do {
     b \<leftarrow> bufs s a;
     let h = bhash_fn (b_blockno b) (b_devno b);
     first \<leftarrow> aget (heads (bhash_table s)) h;
     let nx = (links (bhash_table s))(a := first);
     hs \<leftarrow> aput (heads (bhash_table s)) h (nx a);
     Some (s\<lparr>bhash_table := \<lparr>heads = hs, links = nx\<rparr>\<rparr>)
   }"

text \<open>Takes out nothing: the first buffer is removed from a local variable, another one points past itself.\<close>

partial_function (option) bhash_remove_walk :: "addr \<Rightarrow> (addr \<Rightarrow> addr option) \<Rightarrow> addr option \<Rightarrow> (addr \<Rightarrow> addr option) option" where
  "bhash_remove_walk a nx link = do {
     l \<leftarrow> link;
     if nx l = None then Some nx
     else let nx' = (if l = a then nx(l := nx a) else nx) in bhash_remove_walk a nx' (nx' l)
   }"

definition bhash_remove :: "addr \<Rightarrow> 'z fscache_scheme \<Rightarrow> 'z fscache_scheme option" where
  "bhash_remove a s = do {
     b \<leftarrow> bufs s a;
     first \<leftarrow> aget (heads (bhash_table s)) (bhash_fn (b_blockno b) (b_devno b));
     if first = Some a then Some s
     else do {
       nx \<leftarrow> bhash_remove_walk a (links (bhash_table s)) first;
       Some (s\<lparr>bhash_table := (bhash_table s)\<lparr>links := nx\<rparr>\<rparr>)
     }
   }"

partial_function (option) bcache_walk :: "(addr \<Rightarrow> bcache option) \<Rightarrow> (addr \<Rightarrow> addr option) \<Rightarrow> u32 \<Rightarrow> u32 \<Rightarrow> addr option \<Rightarrow>
  addr option option" where
  "bcache_walk bs nx dev blk link =
     (case link of
        None \<Rightarrow> Some None
      | Some l \<Rightarrow> do {
          b \<leftarrow> bs l;
          if b_devno b = dev \<and> b_blockno b = blk then Some (Some l) else bcache_walk bs nx dev blk (nx l)
        })"

definition find_bcache :: "u32 \<Rightarrow> u32 \<Rightarrow> 'z fscache_scheme \<Rightarrow> addr option option" where
  "find_bcache dev blk s = do {
     first \<leftarrow> aget (heads (bhash_table s)) (bhash_fn blk dev);
     bcache_walk (bufs s) (links (bhash_table s)) dev blk first
   }"

fun bits_of :: "nat \<Rightarrow> nat" where
  "bits_of n = (if n = 0 then 0 else Suc (bits_of (n div 2)))"

declare bits_of.simps [simp del]

definition list_index :: "u32 \<Rightarrow> int" where
  "list_index sz = (if sint sz < 1 then 0 else int (bits_of (unat sz))) - MINSZ"

text \<open>The free list of a size, outside of the array for sizes that have none.\<close>

definition free_index :: "u32 \<Rightarrow> 'z fscache_scheme \<Rightarrow> (nat \<times> addr list) option" where
  "free_index sz s = do {
     check (0 \<le> list_index sz);
     l \<leftarrow> aget (freelist s) (nat (list_index sz));
     Some (nat (list_index sz), l)
   }"

definition alloc_bufcache :: "io_fn \<Rightarrow> u32 \<Rightarrow> u32 \<Rightarrow> u32 \<Rightarrow> 'z fscache_scheme \<Rightarrow>
  (addr option \<times> 'z fscache_scheme) option" where
  "alloc_bufcache io dev blk sz s =
     (case fresh s of
        [] \<Rightarrow> Some (None, s)
      | a # rest \<Rightarrow> do {
          (ret, d) \<leftarrow> io BLK_READ dev blk sz (replicate (unat sz) 0);
          let b = \<lparr>b_status = B_FREE, b_devno = dev, b_blockno = blk, b_ioerror = 0, b_data = d, b_datasz = sz\<rparr>;
          let s = s\<lparr>fresh := rest, bufs := (bufs s)(a \<mapsto> b)\<rparr>;
          if ret < 0 then Some (None, s)
          else do {
            s \<leftarrow> bhash_insert a s;
            Some (Some a, s\<lparr>curbuffcache := curbuffcache s + sz\<rparr>)
          }
        })"

text \<open>When the cache is full, the buffer released first is taken again, whatever became of the read.\<close>

definition getblk :: "io_fn \<Rightarrow> u32 \<Rightarrow> u32 \<Rightarrow> u32 \<Rightarrow> 'z fscache_scheme \<Rightarrow> (addr option \<times> 'z fscache_scheme) option" where
  "getblk io dev blk sz s = do {
     hit \<leftarrow> find_bcache dev blk s;
     case hit of
       Some a \<Rightarrow> Some (Some a, s)
     | None \<Rightarrow>
         if curbuffcache s \<ge> maxbuffcache s then do {
           (i, l) \<leftarrow> free_index sz s;
           (a, l') \<leftarrow> ll_dequeue l;
           b \<leftarrow> bufs s a;
           (_, d) \<leftarrow> io BLK_READ dev blk sz (b_data b);
           let s = upd_buf a (\<lambda>b. b\<lparr>b_devno := dev, b_blockno := blk, b_data := d\<rparr>) (s\<lparr>freelist := (freelist s)[i := l']\<rparr>);
           s \<leftarrow> bhash_insert a s;
           Some (Some a, s)
         }
         else alloc_bufcache io dev blk sz s
   }"

definition bread :: "io_fn \<Rightarrow> u32 \<Rightarrow> u32 \<Rightarrow> u32 \<Rightarrow> 'z fscache_scheme \<Rightarrow> (addr option \<times> 'z fscache_scheme) option" where
  "bread io dev blk sz s = do {
     (r, s) \<leftarrow> getblk io dev blk sz s;
     case r of
       None \<Rightarrow> Some (None, s)
     | Some a \<Rightarrow> Some (Some a, upd_buf a (\<lambda>b. b\<lparr>b_status := B_BUSY\<rparr>) s)
   }"

definition brelse :: "addr \<Rightarrow> 'z fscache_scheme \<Rightarrow> (int \<times> 'z fscache_scheme) option" where
  "brelse a s = do {
     b \<leftarrow> bufs s a;
     (i, l) \<leftarrow> free_index (b_datasz b) s;
     l' \<leftarrow> ll_enqueue a l;
     Some (0, (upd_buf a (\<lambda>b. b\<lparr>b_status := B_FREE\<rparr>) s)\<lparr>freelist := (freelist s)[i := l']\<rparr>)
   }"

text \<open>The data goes to the device and not to the buffer.\<close>

definition bwrite :: "io_fn \<Rightarrow> u32 \<Rightarrow> u32 \<Rightarrow> byte list \<Rightarrow> u32 \<Rightarrow> 'z fscache_scheme \<Rightarrow> (int \<times> 'z fscache_scheme) option" where
  "bwrite io dev blk data sz s = do {
     (r, s) \<leftarrow> getblk io dev blk sz s;
     case r of
       None \<Rightarrow> Some (- 1, s)
     | Some a \<Rightarrow> do {
         _ \<leftarrow> io BLK_WRITE dev blk sz data;
         Some (0, upd_buf a (\<lambda>b. b\<lparr>b_status := B_DIRTY\<rparr>) s)
       }
   }"

text \<open>\<open>tot\<close> and \<open>used\<close> are the sizes that \<open>syscall_sysinfo\<close> reports.\<close>

definition bcache_init :: "u32 \<Rightarrow> u32 \<Rightarrow> 'z fscache_scheme \<Rightarrow> 'z fscache_scheme" where
  "bcache_init tot used s = s\<lparr>maxbuffcache := ((tot - used) div 100) * 50, curbuffcache := 0,
     bhash_table := htab_empty, freelist := replicate FREELIST []\<rparr>"

section \<open>Reading a block\<close>

lemma fscache_upd [simp]:
  "bufs (upd_buf a f s) = (bufs s)(a := map_option f (bufs s a))" "bhash_table (upd_buf a f s) = bhash_table s"
  "freelist (upd_buf a f s) = freelist s" "maxbuffcache (upd_buf a f s) = maxbuffcache s"
  "curbuffcache (upd_buf a f s) = curbuffcache s" "fresh (upd_buf a f s) = fresh s"
  by (simp_all add: upd_buf_def)

text \<open>No buffer is ever found in the hash table, since \<open>bhash_insert\<close> leaves the buckets as they are.\<close>

definition no_hits :: "'z fscache_scheme \<Rightarrow> bool" where
  "no_hits s \<longleftrightarrow> heads (bhash_table s) = replicate 1024 None"

lemma bhash_fn_less: "bhash_fn b d < 1024"
  by (simp add: bhash_fn_def)

lemma find_no_hits: "no_hits s \<Longrightarrow> find_bcache dev blk s = Some None"
  using bhash_fn_less [of blk dev] by (simp add: find_bcache_def no_hits_def bcache_walk.simps [of _ _ _ _ None])

lemma bhash_insert_no_hits:
  assumes "no_hits s" "bufs s a = Some b"
  obtains t where "bhash_insert a s = Some (s\<lparr>bhash_table := t\<rparr>)" "no_hits (s\<lparr>bhash_table := t\<rparr>)"
  by (rule that [of "\<lparr>heads = heads (bhash_table s), links = (links (bhash_table s))(a := None)\<rparr>"])
    (use assms bhash_fn_less [of "b_blockno b" "b_devno b"] in
      \<open>simp_all add: bhash_insert_def no_hits_def Let_def list_update_same_conv\<close>)

text \<open>
  A cache from which \<open>n\<close> more blocks of a size can be read: the free list of the size holds
  buffers of that size only, and there is one when no more memory may be taken; \<open>n\<close> fresh
  addresses are left, apart from the buffers in use.
\<close>

definition cache_ok :: "u32 \<Rightarrow> nat \<Rightarrow> 'z fscache_scheme \<Rightarrow> bool" where
  "cache_ok sz n s \<longleftrightarrow> no_hits s \<and> 0 \<le> list_index sz \<and> nat (list_index sz) < length (freelist s) \<and>
     (\<forall>a \<in> set (freelist s ! nat (list_index sz)). \<exists>b. bufs s a = Some b \<and> b_datasz b = sz \<and> length (b_data b) = unat sz) \<and>
     distinct (freelist s ! nat (list_index sz)) \<and>
     (maxbuffcache s \<le> curbuffcache s \<longrightarrow> freelist s ! nat (list_index sz) \<noteq> []) \<and>
     n \<le> length (fresh s) \<and> distinct (fresh s) \<and> (\<forall>a \<in> set (fresh s). bufs s a = None)"

text \<open>What a device holds: every block of the size can be read.\<close>

definition disk_ok :: "io_fn \<Rightarrow> u32 \<Rightarrow> u32 \<Rightarrow> (u32 \<Rightarrow> byte list) \<Rightarrow> bool" where
  "disk_ok io dev sz disk \<longleftrightarrow>
     (\<forall>b buf. length buf = unat sz \<longrightarrow> io BLK_READ dev b sz buf = Some (0, disk b) \<and> length (disk b) = unat sz)"

text \<open>The cache may have changed, and nothing else.\<close>

definition cache_step :: "'z fscache_scheme \<Rightarrow> 'z fscache_scheme \<Rightarrow> bool" where
  "cache_step s s' \<longleftrightarrow> (\<exists>B H F C R. s' = s\<lparr>bufs := B, bhash_table := H, freelist := F, curbuffcache := C, fresh := R\<rparr>)"

lemma cache_step_trans: "cache_step s s' \<Longrightarrow> cache_step s' s'' \<Longrightarrow> cache_step s s''"
  unfolding cache_step_def by fastforce

lemma cache_step_upd: "cache_step s (upd_buf a f s)" "cache_step s (s\<lparr>bhash_table := t\<rparr>)"
  "cache_step s (s\<lparr>freelist := F\<rparr>)" "cache_step s (s\<lparr>curbuffcache := C\<rparr>)" "cache_step s (s\<lparr>fresh := R, bufs := B\<rparr>)"
  unfolding cache_step_def upd_buf_def
      apply (rule exI [of _ "(bufs s)(a := map_option f (bufs s a))"], rule exI [of _ "bhash_table s"],
        rule exI [of _ "freelist s"], rule exI [of _ "curbuffcache s"], rule exI [of _ "fresh s"], simp)
     apply (rule exI [of _ "bufs s"], rule exI [of _ t], rule exI [of _ "freelist s"],
       rule exI [of _ "curbuffcache s"], rule exI [of _ "fresh s"], simp)
    apply (rule exI [of _ "bufs s"], rule exI [of _ "bhash_table s"], rule exI [of _ F],
      rule exI [of _ "curbuffcache s"], rule exI [of _ "fresh s"], simp)
   apply (rule exI [of _ "bufs s"], rule exI [of _ "bhash_table s"], rule exI [of _ "freelist s"],
     rule exI [of _ C], rule exI [of _ "fresh s"], simp)
  apply (rule exI [of _ B], rule exI [of _ "bhash_table s"], rule exI [of _ "freelist s"],
    rule exI [of _ "curbuffcache s"], rule exI [of _ R], simp)
  done

text \<open>The state after a block has been got: its buffer \<open>a\<close> is on no free list.\<close>

definition got :: "u32 \<Rightarrow> nat \<Rightarrow> addr \<Rightarrow> byte list \<Rightarrow> 'z fscache_scheme \<Rightarrow> bool" where
  "got sz n a d s \<longleftrightarrow> no_hits s \<and> 0 \<le> list_index sz \<and> nat (list_index sz) < length (freelist s) \<and>
     (\<exists>b. bufs s a = Some b \<and> b_data b = d \<and> b_datasz b = sz \<and> length d = unat sz) \<and>
     (\<forall>a \<in> set (freelist s ! nat (list_index sz)). \<exists>b. bufs s a = Some b \<and> b_datasz b = sz \<and> length (b_data b) = unat sz) \<and>
     distinct (freelist s ! nat (list_index sz)) \<and> a \<notin> set (freelist s ! nat (list_index sz)) \<and>
     n \<le> length (fresh s) \<and> distinct (fresh s) \<and> (\<forall>a \<in> set (fresh s). bufs s a = None)"

lemma getblk_ok:
  assumes ok: "cache_ok sz (Suc n) s" and disk: "disk_ok io dev sz disk"
  obtains a s1 where "getblk io dev blk sz s = Some (Some a, s1)" "got sz n a (disk blk) s1" "cache_step s s1"
proof -
  let ?i = "nat (list_index sz)" and ?l = "freelist s ! nat (list_index sz)"
  note ok = ok [unfolded cache_ok_def]
  have rd: "io BLK_READ dev blk sz buf = Some (0, disk blk)" "length (disk blk) = unat sz"
    if "length buf = unat sz" for buf using disk that by (auto simp: disk_ok_def)
  have idx: "free_index sz s = Some (?i, ?l)" using ok by (simp add: free_index_def)
  have miss: "find_bcache dev blk s = Some None" using ok find_no_hits by blast
  show ?thesis
  proof (cases "maxbuffcache s \<le> curbuffcache s")
    case True
    then obtain l a where l: "?l = l @ [a]" using ok by (metis append_butlast_last_id)
    then obtain b where b: "bufs s a = Some b" "b_datasz b = sz" "length (b_data b) = unat sz" using ok by auto
    define s0 where "s0 = upd_buf a (\<lambda>b. b\<lparr>b_devno := dev, b_blockno := blk, b_data := disk blk\<rparr>)
      (s\<lparr>freelist := (freelist s)[?i := l]\<rparr>)"
    have s0: "no_hits s0" "bufs s0 a = Some (b\<lparr>b_devno := dev, b_blockno := blk, b_data := disk blk\<rparr>)"
      using ok b by (simp_all add: s0_def no_hits_def)
    obtain t where t: "bhash_insert a s0 = Some (s0\<lparr>bhash_table := t\<rparr>)" "no_hits (s0\<lparr>bhash_table := t\<rparr>)"
      by (rule bhash_insert_no_hits [OF s0])
    show ?thesis
    proof (rule that [of a "s0\<lparr>bhash_table := t\<rparr>"])
      show "getblk io dev blk sz s = Some (Some a, s0\<lparr>bhash_table := t\<rparr>)"
        using True miss idx b t(1) rd by (simp add: getblk_def l ll_dequeue_def flip: s0_def)
      show "got sz n a (disk blk) (s0\<lparr>bhash_table := t\<rparr>)"
        using ok t(2) b rd(2) [OF b(3)] l by (auto simp: got_def s0_def)
      show "cache_step s (s0\<lparr>bhash_table := t\<rparr>)"
        unfolding s0_def
        by (rule cache_step_trans [OF cache_step_trans [OF cache_step_upd(3) cache_step_upd(1)] cache_step_upd(2)])
    qed
  next
    case False
    then obtain a rest where fr: "fresh s = a # rest" using ok by (cases "fresh s") auto
    define b where "b = \<lparr>b_status = B_FREE, b_devno = dev, b_blockno = blk, b_ioerror = 0, b_data = disk blk, b_datasz = sz\<rparr>"
    define s0 where "s0 = s\<lparr>fresh := rest, bufs := (bufs s)(a \<mapsto> b)\<rparr>"
    have s0: "no_hits s0" "bufs s0 a = Some b" using ok by (simp_all add: s0_def no_hits_def)
    obtain t where t: "bhash_insert a s0 = Some (s0\<lparr>bhash_table := t\<rparr>)" "no_hits (s0\<lparr>bhash_table := t\<rparr>)"
      by (rule bhash_insert_no_hits [OF s0])
    have out: "a \<notin> set ?l" using ok fr by auto
    let ?s = "s0\<lparr>bhash_table := t, curbuffcache := curbuffcache s + sz\<rparr>"
    show ?thesis
    proof (rule that [of a ?s])
      have "curbuffcache s0 = curbuffcache s" by (simp add: s0_def)
      then show "getblk io dev blk sz s = Some (Some a, ?s)"
        using False miss t(1) rd [of "replicate (unat sz) 0"]
        by (simp add: getblk_def alloc_bufcache_def fr flip: b_def s0_def)
      show "got sz n a (disk blk) ?s"
        using ok t(2) fr out rd(2) [of "replicate (unat sz) 0"] by (auto simp: got_def s0_def b_def no_hits_def)
      show "cache_step s ?s" unfolding s0_def
        by (rule cache_step_trans [OF cache_step_trans [OF cache_step_upd(5) cache_step_upd(2)] cache_step_upd(4)])
    qed
  qed
qed

lemma bread_ok:
  assumes "cache_ok sz (Suc n) s" "disk_ok io dev sz disk"
  obtains a b s1 s2 where "bread io dev blk sz s = Some (Some a, s1)" "bufs s1 a = Some b" "b_data b = disk blk"
    "brelse a s1 = Some (0, s2)" "cache_ok sz n s2" "cache_step s s1" "cache_step s s2"
proof -
  obtain a s0 where s0: "getblk io dev blk sz s = Some (Some a, s0)" "got sz n a (disk blk) s0" "cache_step s s0"
    by (rule getblk_ok [OF assms])
  note g = s0(2) [unfolded got_def]
  define s1 where "s1 = upd_buf a (\<lambda>b. b\<lparr>b_status := B_BUSY\<rparr>) s0"
  let ?i = "nat (list_index sz)"
  define s2 where "s2 = (upd_buf a (\<lambda>b. b\<lparr>b_status := B_FREE\<rparr>) s1)\<lparr>freelist := (freelist s1)[?i := a # freelist s1 ! ?i]\<rparr>"
  obtain b where b: "bufs s0 a = Some b" "b_data b = disk blk" "b_datasz b = sz" "length (disk blk) = unat sz"
    using g by blast
  have read: "bread io dev blk sz s = Some (Some a, s1)" using s0(1) by (simp add: bread_def s1_def)
  have b1: "bufs s1 a = Some (b\<lparr>b_status := B_BUSY\<rparr>)" "b_data (b\<lparr>b_status := B_BUSY\<rparr>) = disk blk"
    using b by (simp_all add: s1_def)
  have rel: "brelse a s1 = Some (0, s2)"
    using g b b1 by (simp add: brelse_def free_index_def ll_enqueue_def s2_def) (simp add: s1_def)
  have ok: "cache_ok sz n s2"
    using g b by (auto simp: cache_ok_def s2_def s1_def no_hits_def)
  have st: "cache_step s s1" unfolding s1_def by (rule cache_step_trans [OF s0(3) cache_step_upd(1)])
  then have st2: "cache_step s s2" unfolding s2_def
    by (rule cache_step_trans [OF cache_step_trans [OF _ cache_step_upd(1)] cache_step_upd(3)])
  show ?thesis by (rule that [OF read b1 rel ok st st2])
qed

end
