(* ===== verification/Ext2.thy ===== *)
theory Ext2
  imports BCache KState
begin

unbundle bit_operations_syntax

text \<open>
  The ext2 file system of the file server: \<^verbatim>\<open>ext2inode.c\<close>,
  \<^verbatim>\<open>ext2sb.c\<close> and the reading part of \<^verbatim>\<open>ext2.c\<close> under
  \<^verbatim>\<open>src/servers/fs-io/fs/ext2fs/\<close>, with the structures of
  \<^verbatim>\<open>src/servers/fs-io/include/ext2fs.h\<close> and
  \<^verbatim>\<open>src/servers/fs-io/include/vfs.h\<close>.

  What is on the disk is bytes: a structure that the code overlays on a buffer is read out of the
  bytes at the offsets the i386 compiler gives its fields, lowest byte first. A structure in the
  server's memory is a record with the fields that are used. The main result is that
  \<open>ext2_read\<close> returns the bytes of the file for files without double indirect blocks.
\<close>

definition EXT2_SUPER_MAGIC :: u16 where "EXT2_SUPER_MAGIC = 0xEF53"
definition EXT2_IND_BLOCK :: nat where "EXT2_IND_BLOCK = 12"
definition EXT2_DIND_BLOCK :: nat where "EXT2_DIND_BLOCK = 13"
definition V_FREE :: u16 where "V_FREE = 2"
definition V_DIRTY :: u16 where "V_DIRTY = 8"
definition V_NEW :: u16 where "V_NEW = 16"
definition EBADMAGIC :: int where "EBADMAGIC = 0x50"
definition EINTR :: int where "EINTR = 0x1c"

section \<open>Structures on the disk\<close>

definition le16 :: "byte list \<Rightarrow> nat \<Rightarrow> u16 option" where
  "le16 d i = do {
     a \<leftarrow> aget d i;
     b \<leftarrow> aget d (i + 1);
     Some (ucast a OR push_bit 8 (ucast b))
   }"

definition le32 :: "byte list \<Rightarrow> nat \<Rightarrow> u32 option" where
  "le32 d i = do {
     a \<leftarrow> le16 d i;
     b \<leftarrow> le16 d (i + 2);
     Some (ucast a OR push_bit 16 (ucast b))
   }"

primrec le32s :: "byte list \<Rightarrow> nat \<Rightarrow> nat \<Rightarrow> u32 list option" where
  "le32s d i 0 = Some []"
| "le32s d i (Suc n) = do {
     x \<leftarrow> le32 d i;
     xs \<leftarrow> le32s d (i + 4) n;
     Some (x # xs)
   }"

record ext2inode =
  i_mode :: u16
  i_uid :: u16
  i_size :: u32
  i_atime :: u32
  i_ctime :: u32
  i_mtime :: u32
  i_gid :: u16
  i_links_count :: u16
  i_blocks :: u32
  i_block :: "u32 list"

definition INODE_SZ :: nat where "INODE_SZ = 128"

definition inode_at :: "byte list \<Rightarrow> nat \<Rightarrow> ext2inode option" where
  "inode_at d i = do {
     check (i + INODE_SZ \<le> length d);
     mode \<leftarrow> le16 d i;
     uid \<leftarrow> le16 d (i + 2);
     sz \<leftarrow> le32 d (i + 4);
     atime \<leftarrow> le32 d (i + 8);
     ctime \<leftarrow> le32 d (i + 12);
     mtime \<leftarrow> le32 d (i + 16);
     gid \<leftarrow> le16 d (i + 24);
     nlinks \<leftarrow> le16 d (i + 26);
     blocks \<leftarrow> le32 d (i + 28);
     bl \<leftarrow> le32s d (i + 40) 15;
     Some \<lparr>i_mode = mode, i_uid = uid, i_size = sz, i_atime = atime, i_ctime = ctime, i_mtime = mtime,
       i_gid = gid, i_links_count = nlinks, i_blocks = blocks, i_block = bl\<rparr>
   }"

record ext2_super_block =
  s_blocks_count :: u32
  s_log_block_size :: u32
  s_blocks_per_group :: u32
  s_inodes_per_group :: u32
  s_magic :: u16

definition SUPER_SZ :: nat where "SUPER_SZ = 1024"

definition super_at :: "byte list \<Rightarrow> ext2_super_block option" where
  "super_at d = do {
     check (SUPER_SZ \<le> length d);
     count \<leftarrow> le32 d 4;
     lg \<leftarrow> le32 d 24;
     bpg \<leftarrow> le32 d 32;
     ipg \<leftarrow> le32 d 40;
     magic \<leftarrow> le16 d 56;
     Some \<lparr>s_blocks_count = count, s_log_block_size = lg, s_blocks_per_group = bpg,
       s_inodes_per_group = ipg, s_magic = magic\<rparr>
   }"

text \<open>The macro shifts a signed integer, which must not overflow.\<close>

definition EXT2_BLOCK_SIZE :: "ext2_super_block \<Rightarrow> u32 option" where
  "EXT2_BLOCK_SIZE sb = do {
     check (unat (s_log_block_size sb) < 21);
     Some (push_bit (unat (s_log_block_size sb)) 1024)
   }"

record ext2_group_desc =
  bg_block_bitmap :: u32
  bg_inode_bitmap :: u32
  bg_inode_table :: u32

definition GDESC_SZ :: nat where "GDESC_SZ = 32"

definition gdesc_at :: "byte list \<Rightarrow> nat \<Rightarrow> ext2_group_desc option" where
  "gdesc_at d i = do {
     check (i + GDESC_SZ \<le> length d);
     b \<leftarrow> le32 d i;
     n \<leftarrow> le32 d (i + 4);
     t \<leftarrow> le32 d (i + 8);
     Some \<lparr>bg_block_bitmap = b, bg_inode_bitmap = n, bg_inode_table = t\<rparr>
   }"

section \<open>Vnodes and mounted file systems\<close>

datatype vnodeops = Ext2_vnode_ops | Chrops | Blkops
datatype vfsops = Ext2_vfs_ops

text \<open>\<open>ext2gdesc\<close> is the array of group descriptors as it was read, \<open>v_next\<close> is kept in the table.\<close>

record vfs =
  vfs_mpoint :: "addr option"
  vfs_dev :: u32
  blk_size :: u32
  ext2sb :: ext2_super_block
  ext2gdesc :: "byte list"
  vfs_ops :: "vfsops option"

record vnode =
  v_flag :: u16
  v_count :: int
  v_fsmounted :: "addr option"
  vfsp :: "addr option"
  v_inum :: u32
  v_rdev :: u32
  v_type :: u32
  ops :: "vnodeops option"
  v_ino :: ext2inode

record vfssw =
  vsw_name :: "byte list option"
  vsw_init :: "vfsops option"

record fsstate = fscache +
  vnodes :: "addr \<Rightarrow> vnode option"
  vnhash :: htab
  vnfreelist :: "addr list"
  vfss :: "addr \<Rightarrow> vfs option"
  rootvfs :: "addr option"
  mnted :: "addr list"
  fssw :: "vfssw list"
  fs_index :: nat
  vnhashlock :: bool
  fslock :: bool

record vattr =
  st_ino :: u32
  st_mode :: u32
  st_nlink :: u32
  st_uid :: u32
  st_gid :: u32
  st_size :: u32
  st_atime :: u32
  st_mtime :: u32
  st_ctime :: u32
  st_blksize :: u32

record fs_file =
  f_access :: u32
  f_offset :: u32
  f_ref :: int
  f_inode :: u32
  f_dev :: u32

definition upd_vnode :: "addr \<Rightarrow> (vnode \<Rightarrow> vnode) \<Rightarrow> 'z fsstate_scheme \<Rightarrow> 'z fsstate_scheme option" where
  "upd_vnode a f s = do {
     v \<leftarrow> vnodes s a;
     Some (s\<lparr>vnodes := (vnodes s)(a \<mapsto> f v)\<rparr>)
   }"

definition vn_fs :: "addr \<Rightarrow> 'z fsstate_scheme \<Rightarrow> (vnode \<times> vfs) option" where
  "vn_fs a s = do {
     v \<leftarrow> vnodes s a;
     p \<leftarrow> vfsp v;
     fs \<leftarrow> vfss s p;
     Some (v, fs)
   }"

section \<open>Inodes\<close>

definition group_desc_read :: "vfs \<Rightarrow> u32 \<Rightarrow> ext2_group_desc option" where
  "group_desc_read fs g = gdesc_at (ext2gdesc fs) (GDESC_SZ * unat g)"

text \<open>The inode is looked for in the block and at the place of the block where the size puts it.\<close>

definition read_inode_index :: "io_fn \<Rightarrow> addr \<Rightarrow> ext2_group_desc \<Rightarrow> u32 \<Rightarrow> 'z fsstate_scheme \<Rightarrow>
  (int \<times> 'z fsstate_scheme) option" where
  "read_inode_index io a gd index s = do {
     (v, fs) \<leftarrow> vn_fs a s;
     bs \<leftarrow> EXT2_BLOCK_SIZE (ext2sb fs);
     let bindex = index mod bs;
     let blk = bg_inode_table gd + index div bs;
     (r, s) \<leftarrow> bread io (v_rdev v) blk (blk_size fs) s;
     case r of
       None \<Rightarrow> Some (- 1, s)
     | Some b \<Rightarrow> do {
         bc \<leftarrow> bufs s b;
         ino \<leftarrow> inode_at (b_data bc) (unat bindex);
         s \<leftarrow> upd_vnode a (\<lambda>v. v\<lparr>v_ino := ino\<rparr>) s;
         (_, s) \<leftarrow> brelse b s;
         Some (0, s)
       }
   }"

definition ext2_read_inode :: "io_fn \<Rightarrow> addr \<Rightarrow> u32 \<Rightarrow> 'z fsstate_scheme \<Rightarrow> (int \<times> 'z fsstate_scheme) option" where
  "ext2_read_inode io a inum s = do {
     (v, fs) \<leftarrow> vn_fs a s;
     let ipg = s_inodes_per_group (ext2sb fs);
     check (ipg \<noteq> 0);
     gd \<leftarrow> group_desc_read fs ((inum - 1) div ipg);
     (_, s) \<leftarrow> read_inode_index io a gd (((inum - 1) mod ipg) * of_nat INODE_SZ) s;
     s \<leftarrow> upd_vnode a (\<lambda>v. v\<lparr>v_type := ucast (i_mode (v_ino v)), ops := Some Ext2_vnode_ops\<rparr>) s;
     Some (0, s)
   }"

text \<open>One word of a block, read through the cache.\<close>

definition block_word :: "io_fn \<Rightarrow> u32 \<Rightarrow> u32 \<Rightarrow> u32 \<Rightarrow> u32 \<Rightarrow> 'z fscache_scheme \<Rightarrow> (u32 \<times> 'z fscache_scheme) option" where
  "block_word io dev blk sz i s = do {
     (r, s) \<leftarrow> bread io dev blk sz s;
     b \<leftarrow> r;
     bc \<leftarrow> bufs s b;
     w \<leftarrow> le32 (b_data bc) (4 * unat i);
     (_, s) \<leftarrow> brelse b s;
     Some (w, s)
   }"

definition ext2_bmap :: "io_fn \<Rightarrow> addr \<Rightarrow> u32 \<Rightarrow> 'z fsstate_scheme \<Rightarrow> (u32 \<times> 'z fsstate_scheme) option" where
  "ext2_bmap io a offset s = do {
     v \<leftarrow> vnodes s a;
     let bl = i_block (v_ino v);
     let ind = of_nat EXT2_IND_BLOCK;
     if offset < ind then do {
       b \<leftarrow> aget bl (unat offset);
       Some (b, s)
     }
     else do {
       (v, fs) \<leftarrow> vn_fs a s;
       let dev = v_rdev v;
       let sz = blk_size fs;
       let tot = sz div 4 + ind;
       if ind \<le> offset \<and> offset < tot then do {
         b \<leftarrow> aget bl EXT2_IND_BLOCK;
         block_word io dev b sz (offset - ind) s
       }
       else if tot \<le> offset \<and> offset \<le> offset + tot then do {
         b \<leftarrow> aget bl EXT2_DIND_BLOCK;
         (b, s) \<leftarrow> block_word io dev b sz (offset - tot) s;
         block_word io dev b sz (offset - tot) s
       }
       else do {
         let totalb = tot * tot;
         b \<leftarrow> aget bl 15;
         (b, s) \<leftarrow> block_word io dev b sz (offset - totalb) s;
         (b, s) \<leftarrow> block_word io dev b sz (offset - totalb) s;
         block_word io dev b sz (offset - totalb) s
       }
     }
   }"

definition ext2_get_attr :: "addr \<Rightarrow> vattr \<Rightarrow> 'z fsstate_scheme \<Rightarrow> vattr option" where
  "ext2_get_attr a attr s = do {
     (v, fs) \<leftarrow> vn_fs a s;
     let i = v_ino v;
     Some (attr\<lparr>st_ino := v_inum v, st_mode := ucast (i_mode i), st_nlink := ucast (i_links_count i),
       st_uid := ucast (i_uid i), st_gid := ucast (i_gid i), st_size := i_size i, st_atime := i_atime i,
       st_mtime := i_mtime i, st_ctime := i_ctime i, st_blksize := blk_size fs\<rparr>)
   }"

definition ext2_put_attr :: "addr \<Rightarrow> vattr \<Rightarrow> 'z fsstate_scheme \<Rightarrow> 'z fsstate_scheme option" where
  "ext2_put_attr a attr s = upd_vnode a (\<lambda>v. v\<lparr>v_inum := st_ino attr,
     v_ino := (v_ino v)\<lparr>i_mode := ucast (st_mode attr), i_links_count := ucast (st_nlink attr),
       i_uid := ucast (st_uid attr), i_gid := ucast (st_gid attr), i_size := st_size attr,
       i_atime := st_atime attr, i_mtime := st_mtime attr, i_ctime := st_ctime attr\<rparr>,
     v_flag := v_flag v OR V_DIRTY\<rparr>) s"

section \<open>Reading a file\<close>

text \<open>
  The loop of \<open>ext2_read\<close>: \<open>out\<close> are the bytes written to the caller's buffer so far, which are
  \<open>read\<close> many, and \<open>toread\<close> are still wanted.
\<close>

partial_function (option) ext2_read_loop :: "io_fn \<Rightarrow> addr \<Rightarrow> u32 \<Rightarrow> u32 \<Rightarrow> u32 \<Rightarrow> u32 \<Rightarrow> byte list \<Rightarrow>
  'z fsstate_scheme \<Rightarrow> (int \<times> byte list \<times> u32 \<times> 'z fsstate_scheme) option" where
  "ext2_read_loop io a cnt off0 toread read out s = do {
     (v, fs) \<leftarrow> vn_fs a s;
     let bs = blk_size fs;
     check (bs \<noteq> 0);
     (blkno, s) \<leftarrow> ext2_bmap io a (off0 div bs) s;
     (r, s) \<leftarrow> bread io (v_rdev v) blkno bs s;
     case r of
       None \<Rightarrow> Some (- EINVAL, out, off0, s)
     | Some b \<Rightarrow> do {
         let off = off0 mod bs;
         let sz = (if toread < bs - off then toread else bs - off);
         let sz = (if i_size (v_ino v) < off0 + sz then i_size (v_ino v) - off0 else sz);
         bc \<leftarrow> bufs s b;
         check (unat off + unat sz \<le> length (b_data bc));
         let out = out @ take (unat sz) (drop (unat off) (b_data bc));
         (_, s) \<leftarrow> brelse b s;
         let off0 = off0 + sz;
         let read = read + sz;
         if i_size (v_ino v) \<le> off0 then Some (sint read, out, off0, s)
         else if read < cnt then ext2_read_loop io a cnt off0 (toread - sz) read out s
         else Some (sint read, out, off0, s)
       }
   }"

definition ext2_read :: "io_fn \<Rightarrow> fs_file \<Rightarrow> addr \<Rightarrow> u32 \<Rightarrow> 'z fsstate_scheme \<Rightarrow>
  (int \<times> byte list \<times> fs_file \<times> 'z fsstate_scheme) option" where
  "ext2_read io file a cnt s = do {
     v \<leftarrow> vnodes s a;
     if i_size (v_ino v) \<le> f_offset file then Some (0, [], file, s)
     else do {
       (ret, out, off, s) \<leftarrow> ext2_read_loop io a cnt (f_offset file) cnt 0 [] s;
       Some (ret, out, file\<lparr>f_offset := off\<rparr>, s)
     }
   }"

definition ext2_write :: "fs_file \<Rightarrow> addr \<Rightarrow> byte list \<Rightarrow> int" where
  "ext2_write file a buf = 0"

section \<open>The superblock\<close>

text \<open>The block number is an \<^verbatim>\<open>int\<close> which the call converts; the loop ends when the counter, which may start at 0, comes to 0.\<close>

partial_function (option) gdesc_loop :: "io_fn \<Rightarrow> u32 \<Rightarrow> u32 \<Rightarrow> u32 \<Rightarrow> u32 \<Rightarrow> u32 \<Rightarrow> u32 \<Rightarrow> nat \<Rightarrow> byte list \<Rightarrow>
  'z fscache_scheme \<Rightarrow> (byte list \<times> 'z fscache_scheme) option" where
  "gdesc_loop io dev sz bs nreads gsize index pos desc s = do {
     (r, s) \<leftarrow> bread io dev index sz s;
     case r of
       None \<Rightarrow> Some (desc, s)
     | Some b \<Rightarrow> do {
         let xfer = (if bs < gsize then bs else gsize);
         bc \<leftarrow> bufs s b;
         check (unat xfer \<le> length (b_data bc) \<and> pos + unat xfer \<le> length desc);
         let desc = take pos desc @ take (unat xfer) (b_data bc) @ drop (pos + unat xfer) desc;
         (_, s) \<leftarrow> brelse b s;
         if nreads - 1 \<noteq> 0 then gdesc_loop io dev sz bs (nreads - 1) (gsize - bs) (index + 1) (pos + unat xfer) desc s
         else Some (desc, s)
       }
   }"

definition read_group_desc :: "io_fn \<Rightarrow> vfs \<Rightarrow> u32 \<Rightarrow> byte list \<Rightarrow> 'z fscache_scheme \<Rightarrow>
  (byte list \<times> 'z fscache_scheme) option" where
  "read_group_desc io fs index desc s = do {
     bs \<leftarrow> EXT2_BLOCK_SIZE (ext2sb fs);
     check (s_blocks_per_group (ext2sb fs) \<noteq> 0);
     let ngroups = s_blocks_count (ext2sb fs) div s_blocks_per_group (ext2sb fs);
     let gsize = ngroups * of_nat GDESC_SZ;
     let nreads = (gsize + (bs - 1)) div bs;
     gdesc_loop io (vfs_dev fs) (blk_size fs) bs nreads gsize index 0 desc s
   }"

text \<open>What \<open>read_group_desc\<close> returns is not looked at. The array comes from \<open>malloc\<close>.\<close>

definition ext2_read_sb :: "io_fn \<Rightarrow> addr \<Rightarrow> 'z fsstate_scheme \<Rightarrow> (int \<times> 'z fsstate_scheme) option" where
  "ext2_read_sb io f s = do {
     fs \<leftarrow> vfss s f;
     (ret, d) \<leftarrow> io BLK_READ (vfs_dev fs) 1 (of_nat SUPER_SZ) (replicate SUPER_SZ 0);
     if ret < 0 then Some (ret, s)
     else do {
       sb \<leftarrow> super_at d;
       if s_magic sb \<noteq> EXT2_SUPER_MAGIC then Some (- EBADMAGIC, s)
       else do {
         bs \<leftarrow> EXT2_BLOCK_SIZE sb;
         let fs = fs\<lparr>blk_size := bs\<rparr>;
         check (s_blocks_per_group sb \<noteq> 0);
         let ngroups = s_blocks_count sb div s_blocks_per_group sb;
         case fresh s of
           [] \<Rightarrow> Some (- ENOMEM, s\<lparr>vfss := (vfss s)(f \<mapsto> fs)\<rparr>)
         | _ # rest \<Rightarrow> do {
             let gd = replicate (unat (of_nat GDESC_SZ * ngroups)) 0;
             let fs = fs\<lparr>ext2sb := sb\<rparr>;
             (gd, s) \<leftarrow> read_group_desc io fs (if bs \<le> 1024 then 2 else 1) gd (s\<lparr>fresh := rest\<rparr>);
             Some (0, s\<lparr>vfss := (vfss s)(f \<mapsto> fs\<lparr>ext2gdesc := gd\<rparr>)\<rparr>)
           }
       }
     }
   }"

section \<open>Files on the disk\<close>

text \<open>
  The specification of a file: \<open>disk\<close> gives the content of each block, a file has twelve direct
  blocks and then those that its indirect block lists, and the file is their bytes in order.
\<close>

definition file_blkno :: "(u32 \<Rightarrow> byte list) \<Rightarrow> ext2inode \<Rightarrow> nat \<Rightarrow> u32" where
  "file_blkno disk ino i = (if i < 12 then i_block ino ! i else the (le32 (disk (i_block ino ! 12)) (4 * (i - 12))))"

definition file_data :: "(u32 \<Rightarrow> byte list) \<Rightarrow> ext2inode \<Rightarrow> nat \<Rightarrow> byte list" where
  "file_data disk ino bs = map (\<lambda>p. disk (file_blkno disk ino (p div bs)) ! (p mod bs)) [0..<unat (i_size ino)]"

definition small_file :: "ext2inode \<Rightarrow> vfs \<Rightarrow> bool" where
  "small_file ino fs \<longleftrightarrow> length (i_block ino) = 15 \<and> 0 < blk_size fs \<and> blk_size fs \<le> 4096 \<and>
     unat (i_size ino) \<le> (12 + unat (blk_size fs) div 4) * unat (blk_size fs)"

lemma cache_step_fs:
  assumes "cache_step s (s' :: 'z fsstate_scheme)"
  shows "vnodes s' = vnodes s" "vfss s' = vfss s" "vn_fs a s' = vn_fs a s"
proof -
  obtain B H F C R where s': "s' = s\<lparr>bufs := B, bhash_table := H, freelist := F, curbuffcache := C, fresh := R\<rparr>"
    using assms unfolding cache_step_def by blast
  show v: "vnodes s' = vnodes s" and f: "vfss s' = vfss s" by (simp_all add: s')
  show "vn_fs a s' = vn_fs a s" unfolding vn_fs_def v f ..
qed

lemma cache_step_refl: "cache_step s s"
proof -
  have "s = s\<lparr>bufs := bufs s, bhash_table := bhash_table s, freelist := freelist s, curbuffcache := curbuffcache s, fresh := fresh s\<rparr>"
    by simp
  then show ?thesis unfolding cache_step_def by blast
qed

lemma cache_ok_mono: "cache_ok sz n s \<Longrightarrow> m \<le> n \<Longrightarrow> cache_ok sz m s"
  by (auto simp: cache_ok_def)

lemma le32_in_range: "i + 4 \<le> length d \<Longrightarrow> \<exists>w. le32 d i = Some w"
  by (simp add: le32_def le16_def)

lemma disk_len: "disk_ok io dev sz disk \<Longrightarrow> length (disk blk) = unat sz"
  unfolding disk_ok_def using length_replicate [of "unat sz" "0 :: byte"] by blast

lemma block_word_ok:
  assumes "cache_ok sz (Suc n) s" "disk_ok io dev sz disk" "4 * unat i + 4 \<le> unat sz"
  obtains s' where "block_word io dev blk sz i s = Some (the (le32 (disk blk) (4 * unat i)), s')"
    "cache_ok sz n s'" "cache_step s s'"
proof -
  obtain a b s1 s2 where r: "bread io dev blk sz s = Some (Some a, s1)" "bufs s1 a = Some b" "b_data b = disk blk"
    "brelse a s1 = Some (0, s2)" "cache_ok sz n s2" "cache_step s s1" "cache_step s s2"
    by (rule bread_ok [OF assms(1,2)])
  have "length (disk blk) = unat sz" using disk_len [OF assms(2)] .
  then obtain w where w: "le32 (disk blk) (4 * unat i) = Some w" using le32_in_range assms(3) by metis
  show ?thesis by (rule that [of s2]) (use r w in \<open>simp_all add: block_word_def\<close>)
qed

lemma ext2_bmap_ok:
  assumes fs: "vn_fs a s = Some (v, fs)" and small: "small_file (v_ino v) fs"
    and i: "unat i < 12 + unat (blk_size fs) div 4"
    and ok: "cache_ok (blk_size fs) (Suc n) s" and disk: "disk_ok io (v_rdev v) (blk_size fs) disk"
  obtains s' where "ext2_bmap io a i s = Some (file_blkno disk (v_ino v) (unat i), s')"
    "cache_ok (blk_size fs) n s'" "cache_step s s'"
proof (cases "unat i < 12")
  case True
  then have lt: "i < 12" by (simp add: word_less_nat_alt)
  have v: "vnodes s a = Some v" using fs by (auto simp: vn_fs_def bind_Some)
  show ?thesis
    by (rule that [of s])
      (use True lt v small ok cache_step_refl in
        \<open>simp_all add: ext2_bmap_def EXT2_IND_BLOCK_def small_file_def file_blkno_def cache_ok_mono [of _ "Suc n"]\<close>)
next
  case False
  have v: "vnodes s a = Some v" using fs by (auto simp: vn_fs_def bind_Some)
  have le: "12 \<le> i" "\<not> i < 12" using False by (simp_all add: word_le_nat_alt word_less_nat_alt)
  then have sub: "unat (i - 12) = unat i - 12" by (simp add: unat_sub)
  have small': "unat (blk_size fs) \<le> 4096" using small by (simp add: small_file_def word_le_nat_alt)
  have "unat (blk_size fs div 4 + 12) = unat (blk_size fs) div 4 + 12"
    using small' by (simp add: unat_plus_simple [THEN iffD1] word_le_nat_alt unat_word_ariths unat_div)
  then have lt: "i < blk_size fs div 4 + 12" using i by (simp add: word_less_nat_alt)
  have idx: "4 * unat (i - 12) + 4 \<le> unat (blk_size fs)" using i False by (simp add: sub)
  obtain s' where s': "block_word io (v_rdev v) (i_block (v_ino v) ! 12) (blk_size fs) (i - 12) s =
      Some (the (le32 (disk (i_block (v_ino v) ! 12)) (4 * unat (i - 12))), s')"
    "cache_ok (blk_size fs) n s'" "cache_step s s'"
    by (rule block_word_ok [OF ok disk idx])
  show ?thesis
    by (rule that [of s'])
      (use False le lt v fs small s' in
        \<open>simp_all add: ext2_bmap_def EXT2_IND_BLOCK_def small_file_def file_blkno_def sub Let_def\<close>)
qed

lemma file_data_slice:
  assumes "off mod bs + n \<le> bs" "off + n \<le> unat (i_size ino)" "length (disk (file_blkno disk ino (off div bs))) = bs"
  shows "take n (drop off (file_data disk ino bs)) = take n (drop (off mod bs) (disk (file_blkno disk ino (off div bs))))"
proof (rule nth_equalityI)
  show "length (take n (drop off (file_data disk ino bs))) = length (take n (drop (off mod bs) (disk (file_blkno disk ino (off div bs)))))"
    using assms by (simp add: file_data_def)
next
  fix j assume "j < length (take n (drop off (file_data disk ino bs)))"
  then have j: "j < n" by simp
  then have lt: "off mod bs + j < bs" using assms(1) by simp
  have "off + j = off div bs * bs + (off mod bs + j)" by simp
  then have "(off + j) div bs = off div bs" "(off + j) mod bs = off mod bs + j"
    using lt by (metis div_mult_self3 div_less add_0_right not_less_zero add.commute, metis mod_mult_self3 mod_less)
  then show "take n (drop off (file_data disk ino bs)) ! j = take n (drop (off mod bs) (disk (file_blkno disk ino (off div bs)))) ! j"
    using j lt assms by (simp add: file_data_def)
qed

definition chunk :: "u32 \<Rightarrow> u32 \<Rightarrow> u32 \<Rightarrow> u32 \<Rightarrow> u32" where
  "chunk bs isz off toread = (let n = (if toread < bs - off mod bs then toread else bs - off mod bs)
     in if isz < off + n then isz - off else n)"

lemma chunk_unat:
  assumes "0 < bs" "unat isz + unat bs < 2 ^ 32" "off < isz"
  shows "unat (chunk bs isz off toread) = min (min (unat toread) (unat bs - unat off mod unat bs)) (unat isz - unat off)"
proof -
  have mod: "unat (off mod bs) = unat off mod unat bs" by (simp add: unat_mod)
  have "unat off mod unat bs < unat bs" using assms(1) by (simp add: word_less_nat_alt)
  then have le: "off mod bs \<le> bs" by (simp add: word_le_nat_alt mod)
  then have sub: "unat (bs - off mod bs) = unat bs - unat off mod unat bs" by (simp add: unat_sub mod)
  define n where "n = (if toread < bs - off mod bs then toread else bs - off mod bs)"
  have n: "unat n = min (unat toread) (unat bs - unat off mod unat bs)"
    by (simp add: n_def sub word_less_nat_alt)
  have lt: "unat off < unat isz" using assms(3) by (simp add: word_less_nat_alt)
  have "unat off + unat n < 2 ^ 32" using n lt assms(2) by linarith
  then have "unat (off + n) = unat off + unat n" by (simp add: unat_word_ariths)
  moreover have "unat (isz - off) = unat isz - unat off" using assms(3) by (simp add: unat_sub)
  ultimately show ?thesis
    unfolding chunk_def n_def [symmetric] Let_def n [symmetric] by (auto simp: word_less_nat_alt)
qed

lemma small_file_size:
  assumes "small_file ino fs"
  shows "unat (i_size ino) < 2 ^ 31"
proof -
  have b: "unat (blk_size fs) \<le> 4096" using assms by (simp add: small_file_def word_le_nat_alt)
  then have "(12 + unat (blk_size fs) div 4) * unat (blk_size fs) \<le> 1036 * 4096" by (intro mult_le_mono) linarith+
  moreover have "unat (i_size ino) \<le> (12 + unat (blk_size fs) div 4) * unat (blk_size fs)"
    using assms by (simp add: small_file_def)
  ultimately show ?thesis by simp
qed

lemma small_file_bound:
  assumes "small_file ino fs"
  shows "0 < blk_size fs" "0 < unat (blk_size fs)" "unat (i_size ino) + unat (blk_size fs) < 2 ^ 32"
proof -
  have "unat (blk_size fs) \<le> 4096" using assms by (simp add: small_file_def word_le_nat_alt)
  then show "unat (i_size ino) + unat (blk_size fs) < 2 ^ 32" using small_file_size [OF assms] by simp
  show "0 < blk_size fs" "0 < unat (blk_size fs)" using assms by (simp_all add: small_file_def word_less_nat_alt)
qed

lemma ext2_read_step:
  assumes fs: "vn_fs a s = Some (v, fs)" and small: "small_file (v_ino v) fs"
    and disk: "disk_ok io (v_rdev v) (blk_size fs) disk"
    and ok: "cache_ok (blk_size fs) (2 + n) s" and off: "off0 < i_size (v_ino v)"
    and sz: "sz = chunk (blk_size fs) (i_size (v_ino v)) off0 toread"
  obtains s' where "cache_ok (blk_size fs) n s'" "cache_step s s'"
    "ext2_read_loop io a cnt off0 toread read out s =
       (let out = out @ take (unat sz) (drop (unat off0) (file_data disk (v_ino v) (unat (blk_size fs))))
        in if i_size (v_ino v) \<le> off0 + sz then Some (sint (read + sz), out, off0 + sz, s')
           else if read + sz < cnt then ext2_read_loop io a cnt (off0 + sz) (toread - sz) (read + sz) out s'
           else Some (sint (read + sz), out, off0 + sz, s'))"
proof -
  let ?bs = "blk_size fs" and ?N = "unat (i_size (v_ino v))" and ?b = "unat (blk_size fs)"
  have bs: "0 < ?bs" "0 < ?b" and wrap: "?N + ?b < 2 ^ 32" using small_file_bound [OF small] .
  have N: "?N \<le> (12 + ?b div 4) * ?b" using small by (simp add: small_file_def)
  have o: "unat off0 < ?N" using off by (simp add: word_less_nat_alt)
  then have "unat off0 < (12 + ?b div 4) * ?b" using N by linarith
  then have i: "unat (off0 div ?bs) < 12 + ?b div 4" by (simp add: unat_div less_mult_imp_div_less)
  obtain s1 where s1: "ext2_bmap io a (off0 div ?bs) s = Some (file_blkno disk (v_ino v) (unat (off0 div ?bs)), s1)"
    "cache_ok ?bs (Suc n) s1" "cache_step s s1"
    by (rule ext2_bmap_ok [OF fs small i _ disk, of "Suc n"]) (use ok in simp_all)
  let ?blk = "file_blkno disk (v_ino v) (unat (off0 div ?bs))"
  obtain b bc s2 s3 where r: "bread io (v_rdev v) ?blk ?bs s1 = Some (Some b, s2)" "bufs s2 b = Some bc"
    "b_data bc = disk ?blk" "brelse b s2 = Some (0, s3)" "cache_ok ?bs n s3" "cache_step s1 s2" "cache_step s1 s3"
    by (rule bread_ok [OF s1(2) disk])
  note cs = chunk_unat [OF bs(1) wrap off, of toread, folded sz]
  have lt: "unat off0 mod ?b < ?b" using bs(2) by simp
  have bounds: "unat sz \<le> ?b - unat off0 mod ?b" "unat sz \<le> ?N - unat off0" unfolding cs by simp_all
  have fits: "unat off0 mod ?b + unat sz \<le> ?b" "unat off0 + unat sz \<le> ?N"
    using lt o bounds by linarith+
  have fits': "unat (off0 mod ?bs) + unat sz \<le> ?b" using fits(1) by (simp add: unat_mod)
  have nz: "?bs \<noteq> 0" using bs(1) by auto
  have len: "length (disk ?blk) = ?b" by (rule disk_len [OF disk])
  have data: "take (unat sz) (drop (unat (off0 mod ?bs)) (disk ?blk)) =
      take (unat sz) (drop (unat off0) (file_data disk (v_ino v) ?b))"
    using file_data_slice [OF fits, of disk] len by (simp add: unat_div unat_mod)
  show ?thesis
  proof (rule that [of s3])
    show "cache_step s s3" by (rule cache_step_trans [OF s1(3) r(7)])
  next
    show "ext2_read_loop io a cnt off0 toread read out s =
       (let out = out @ take (unat sz) (drop (unat off0) (file_data disk (v_ino v) (unat (blk_size fs))))
        in if i_size (v_ino v) \<le> off0 + sz then Some (sint (read + sz), out, off0 + sz, s3)
           else if read + sz < cnt then ext2_read_loop io a cnt (off0 + sz) (toread - sz) (read + sz) out s3
           else Some (sint (read + sz), out, off0 + sz, s3))"
      using nz fits'
      by (subst ext2_read_loop.simps)
        (simp add: fs s1(1) r len Let_def data flip: sz chunk_def [unfolded Let_def])
  qed (rule r(5))
qed

lemma chunk_next:
  fixes off n bs k :: nat
  assumes "off + n \<le> (off div bs + Suc k) * bs" "0 < bs" "m = bs - off mod bs" "m < n"
  shows "off + m = (off div bs + 1) * bs" "off + n \<le> ((off + m) div bs + k) * bs" "k \<noteq> 0"
proof -
  have d: "off = off div bs * bs + off mod bs" by simp
  have "off mod bs \<le> bs" using assms(2) by (simp add: less_imp_le)
  then show 1: "off + m = (off div bs + 1) * bs" unfolding assms(3) add_mult_distrib using d by linarith
  then have 2: "(off + m) div bs = off div bs + 1" using assms(2) by simp
  show "off + n \<le> ((off + m) div bs + k) * bs" unfolding 2 using assms(1) by simp
  show "k \<noteq> 0"
  proof
    assume "k = 0"
    then show False using assms(1,4) 1 by simp
  qed
qed

lemma ext2_read_loop_ok:
  assumes "vn_fs a s = Some (v, fs)" "small_file (v_ino v) fs" "disk_ok io (v_rdev v) (blk_size fs) disk"
    "cache_ok (blk_size fs) (2 * Suc k) s" "off0 < i_size (v_ino v)"
    "unat off0 + unat toread \<le> (unat off0 div unat (blk_size fs) + Suc k) * unat (blk_size fs)"
    "cnt = read + toread" "unat read + unat toread < 2 ^ 32"
    "m = min (unat toread) (unat (i_size (v_ino v)) - unat off0)"
  shows "\<exists>s'. ext2_read_loop io a cnt off0 toread read out s =
    Some (sint (read + of_nat m), out @ take m (drop (unat off0) (file_data disk (v_ino v) (unat (blk_size fs)))),
      off0 + of_nat m, s') \<and> cache_step s s'"
  using assms
proof (induction k arbitrary: s off0 toread read out m rule: less_induct)
  case (less k)
  let ?bs = "blk_size fs" and ?N = "unat (i_size (v_ino v))" and ?b = "unat (blk_size fs)"
    and ?D = "file_data disk (v_ino v) (unat (blk_size fs))"
  define sz where "sz = chunk ?bs (i_size (v_ino v)) off0 toread"
  obtain s1 where s1: "cache_ok ?bs (2 * k) s1" "cache_step s s1"
    "ext2_read_loop io a cnt off0 toread read out s =
       (let out = out @ take (unat sz) (drop (unat off0) ?D)
        in if i_size (v_ino v) \<le> off0 + sz then Some (sint (read + sz), out, off0 + sz, s1)
           else if read + sz < cnt then ext2_read_loop io a cnt (off0 + sz) (toread - sz) (read + sz) out s1
           else Some (sint (read + sz), out, off0 + sz, s1))"
    by (rule ext2_read_step [OF less.prems(1-3) _ less.prems(5) sz_def, of "2 * k" cnt read out])
      (use less.prems(4) in simp_all)
  have bs: "0 < ?bs" "0 < ?b" and wrap: "?N + ?b < 2 ^ 32"
    using small_file_bound [OF less.prems(2)] .
  note cs = chunk_unat [OF bs(1) wrap less.prems(5), of toread, folded sz_def]
  have o: "unat off0 < ?N" using less.prems(5) by (simp add: word_less_nat_alt)
  have "unat off0 + unat sz \<le> ?N" using cs o by linarith
  then have off: "unat (off0 + sz) = unat off0 + unat sz" using wrap by (simp add: unat_word_ariths)
  have "unat sz \<le> unat toread" using cs by linarith
  then have rd: "unat (read + sz) = unat read + unat sz" "unat (toread - sz) = unat toread - unat sz"
    "unat cnt = unat read + unat toread"
    using less.prems(7,8) by (simp_all add: unat_word_ariths unat_sub word_le_nat_alt)
  show ?case
  proof (cases "unat sz = m")
    case True
    have "?N \<le> unat off0 + unat sz \<or> unat read + unat toread \<le> unat read + unat sz"
      using True less.prems(9) by linarith
    then have "i_size (v_ino v) \<le> off0 + sz \<or> \<not> read + sz < cnt"
      by (auto simp: word_le_nat_alt word_less_nat_alt off rd)
    moreover have "of_nat m = sz" using True by auto
    ultimately show ?thesis using s1 True by (intro exI [of _ s1]) (auto simp: Let_def)
  next
    case False
    then have sz: "unat sz = ?b - unat off0 mod ?b" "unat sz < m" using cs less.prems(9) by linarith+
    then have lt: "unat sz < unat toread" using less.prems(9) by linarith
    note nx = chunk_next [OF less.prems(6) bs(2) sz(1) lt]
    obtain k' where k: "k = Suc k'" using nx(3) not0_implies_Suc by blast
    have go: "\<not> i_size (v_ino v) \<le> off0 + sz" "read + sz < cnt"
      using sz(2) less.prems(9) lt by (simp_all add: word_le_nat_alt word_less_nat_alt off rd)
    let ?m = "m - unat sz"
    have "\<exists>s'. ext2_read_loop io a cnt (off0 + sz) (toread - sz) (read + sz) (out @ take (unat sz) (drop (unat off0) ?D)) s1 =
      Some (sint (read + sz + of_nat ?m), (out @ take (unat sz) (drop (unat off0) ?D)) @ take ?m (drop (unat (off0 + sz)) ?D),
        off0 + sz + of_nat ?m, s') \<and> cache_step s1 s'"
    proof (rule less.IH [of k'])
      show "vn_fs a s1 = Some (v, fs)" using cache_step_fs(3) [OF s1(2)] less.prems(1) by simp
      show "off0 + sz < i_size (v_ino v)" using go(1) by simp
      show "unat (off0 + sz) + unat (toread - sz) \<le> (unat (off0 + sz) div ?b + Suc k') * ?b"
        using nx(2) lt by (simp add: off rd k)
    qed (use k less.prems s1 lt in \<open>auto simp: off rd\<close>)
    then obtain s' where s': "ext2_read_loop io a cnt (off0 + sz) (toread - sz) (read + sz) (out @ take (unat sz) (drop (unat off0) ?D)) s1 =
      Some (sint (read + sz + of_nat ?m), (out @ take (unat sz) (drop (unat off0) ?D)) @ take ?m (drop (unat (off0 + sz)) ?D),
        off0 + sz + of_nat ?m, s')" "cache_step s1 s'" by blast
    have sum: "sz + of_nat ?m = of_nat m" using sz(2) by (simp add: of_nat_diff)
    have cat: "take (unat sz) (drop (unat off0) ?D) @ take ?m (drop (unat (off0 + sz)) ?D) = take m (drop (unat off0) ?D)"
      using sz(2) take_add [of "unat sz" ?m "drop (unat off0) ?D"] by (simp add: off add.commute)
    have "ext2_read_loop io a cnt off0 toread read out s =
        Some (sint (read + of_nat m), out @ take m (drop (unat off0) ?D), off0 + of_nat m, s')"
      using s1(3) go s'(1) unfolding Let_def append_assoc cat by (simp add: add.assoc sum)
    then show ?thesis using cache_step_trans [OF s1(2) s'(2)] by blast
  qed
qed

section \<open>Where the file system fails\<close>

text \<open>
  Both levels of the double indirect tree are indexed with the same number, so that a block behind
  the first \<open>bs / 4\<close> of them is looked for outside of the buffer.
\<close>

lemma block_word_outside:
  assumes "cache_ok sz (Suc n) s" "disk_ok io dev sz disk" "unat sz < 4 * unat i + 4"
  shows "block_word io dev blk sz i s = None"
proof -
  obtain a b s1 s2 where r: "bread io dev blk sz s = Some (Some a, s1)" "bufs s1 a = Some b" "b_data b = disk blk"
    by (rule bread_ok [OF assms(1,2)])
  have "le32 (disk blk) (4 * unat i) = None"
    using assms(3) disk_len [OF assms(2), of blk] by (auto simp: le32_def le16_def aget_def bind_eq_None_conv)
  then show ?thesis using r by (simp add: block_word_def)
qed

lemma ext2_bmap_double_indirect_fails:
  assumes "vn_fs a s = Some (v, fs)" "length (i_block (v_ino v)) = 15" "blk_size fs \<le> 4096"
    "cache_ok (blk_size fs) (Suc n) s" "disk_ok io (v_rdev v) (blk_size fs) disk"
    "12 + 2 * (unat (blk_size fs) div 4) < unat i" "unat i < 2 ^ 31"
  shows "ext2_bmap io a i s = None"
proof -
  let ?b = "unat (blk_size fs)"
  have v: "vnodes s a = Some v" using assms(1) by (auto simp: vn_fs_def bind_Some)
  have b: "?b \<le> 4096" using assms(3) by (simp add: word_le_nat_alt)
  have tot: "unat (blk_size fs div 4 + 12) = ?b div 4 + 12"
    using b by (simp add: unat_plus_simple [THEN iffD1] word_le_nat_alt unat_word_ariths unat_div)
  have i: "\<not> i < 12" "\<not> i < blk_size fs div 4 + 12" "blk_size fs div 4 + 12 \<le> i"
    using assms(6) by (simp_all add: word_less_nat_alt word_le_nat_alt tot)
  have "unat (i + (blk_size fs div 4 + 12)) = unat i + (?b div 4 + 12)"
    using assms(7) b tot by (simp add: unat_word_ariths)
  then have w: "i \<le> i + (blk_size fs div 4 + 12)" by (simp add: word_le_nat_alt)
  have "unat (i - (blk_size fs div 4 + 12)) = unat i - (?b div 4 + 12)"
    using unat_sub [OF i(3)] tot by simp
  then have "?b < 4 * unat (i - (blk_size fs div 4 + 12)) + 4" using assms(6) by linarith
  note out = block_word_outside [OF assms(4,5) this]
  show ?thesis using v i w assms(1,2) out
    by (simp add: ext2_bmap_def EXT2_IND_BLOCK_def EXT2_DIND_BLOCK_def Let_def)
qed

text \<open>
  The number of groups is rounded down. A file system smaller than a group has none, the counter of
  the loop starts at 0, and the second block is copied behind the end of an empty array.
\<close>

lemma word_div_small:
  fixes x y :: u32
  assumes "x < y"
  shows "x div y = 0"
proof -
  have "unat (x div y) = 0" using assms by (simp add: unat_div word_less_nat_alt)
  then show ?thesis by (simp only: unsigned_eq_0_iff)
qed

lemma read_group_desc_small_disk_fails:
  assumes "s_blocks_count (ext2sb fs) < s_blocks_per_group (ext2sb fs)" "EXT2_BLOCK_SIZE (ext2sb fs) = Some (blk_size fs)"
    "blk_size fs \<noteq> 0" "cache_ok (blk_size fs) (Suc (Suc n)) s" "disk_ok io (vfs_dev fs) (blk_size fs) disk"
  shows "read_group_desc io fs index [] s = None"
proof -
  let ?bs = "blk_size fs"
  obtain a b s1 s2 where 1: "bread io (vfs_dev fs) index ?bs s = Some (Some a, s1)" "bufs s1 a = Some b" "b_data b = disk index"
    "brelse a s1 = Some (0, s2)" "cache_ok ?bs (Suc n) s2"
    by (rule bread_ok [OF assms(4,5)])
  obtain a2 b2 s3 s4 where 2: "bread io (vfs_dev fs) (index + 1) ?bs s2 = Some (Some a2, s3)" "bufs s3 a2 = Some b2"
    by (rule bread_ok [OF 1(5) assms(5)])
  have q: "s_blocks_count (ext2sb fs) div s_blocks_per_group (ext2sb fs) = 0"
    using assms(1) by (simp add: word_div_small)
  have "(?bs - 1) div ?bs = 0"
  proof (rule word_div_small)
    show "?bs - 1 < ?bs" using assms(3) by (simp add: word_less_nat_alt unat_minus_one unat_gt_0)
  qed
  moreover have "gdesc_loop io (vfs_dev fs) ?bs ?bs 0 0 index 0 [] s = None"
  proof -
    have m: "(- 1 :: u32) \<noteq> 0" by simp
    have neg: "0 < unat (if ?bs < - ?bs then ?bs else - ?bs)" using assms(3) by (auto simp: unat_gt_0)
    have "gdesc_loop io (vfs_dev fs) ?bs ?bs (- 1) (- ?bs) (index + 1) 0 [] s2 = None"
      using neg by (subst gdesc_loop.simps) (simp add: 2 Let_def check_def)
    then show ?thesis by (subst gdesc_loop.simps) (simp add: 1)
  qed
  ultimately show ?thesis using assms(1,2) q
    by (auto simp: read_group_desc_def Let_def)
qed

lemma ext2_read_ok:
  assumes "vn_fs a s = Some (v, fs)" "small_file (v_ino v) fs" "disk_ok io (v_rdev v) (blk_size fs) disk"
    and "cache_ok (blk_size fs) (2 * (unat cnt div unat (blk_size fs) + 2)) s"
    and "d = take (unat cnt) (drop (unat (f_offset file)) (file_data disk (v_ino v) (unat (blk_size fs))))"
  shows "\<exists>s'. ext2_read io file a cnt s =
    Some (int (length d), d, file\<lparr>f_offset := f_offset file + of_nat (length d)\<rparr>, s') \<and> cache_step s s'"
proof (cases "i_size (v_ino v) \<le> f_offset file")
  case True
  have "vnodes s a = Some v" using assms(1) by (auto simp: vn_fs_def bind_Some)
  moreover have "d = []" using True assms(5) by (simp add: file_data_def word_le_nat_alt)
  ultimately show ?thesis using True cache_step_refl by (auto simp: ext2_read_def)
next
  case False
  let ?b = "unat (blk_size fs)" and ?o = "unat (f_offset file)" and ?N = "unat (i_size (v_ino v))"
  have v: "vnodes s a = Some v" using assms(1) by (auto simp: vn_fs_def bind_Some)
  have lt: "f_offset file < i_size (v_ino v)" "?o < ?N" using False unfolding not_le by (simp_all add: word_less_nat_alt)
  have b: "0 < ?b" "?N + ?b < 2 ^ 32" using small_file_bound [OF assms(2)] by simp_all
  define m where "m = min (unat cnt) (?N - ?o)"
  have m: "m = length d" "d = take m (drop ?o (file_data disk (v_ino v) ?b))"
    using assms(5) by (cases "unat cnt \<le> ?N - ?o"; simp add: m_def file_data_def min_def)+
  have "?o mod ?b \<le> ?b" "unat cnt mod ?b \<le> ?b" using b(1) by (simp_all add: less_imp_le)
  moreover have "(?o div ?b + Suc (unat cnt div ?b + 1)) * ?b = ?o div ?b * ?b + unat cnt div ?b * ?b + 2 * ?b"
    by (simp add: add_mult_distrib)
  ultimately have "?o + unat cnt \<le> (?o div ?b + Suc (unat cnt div ?b + 1)) * ?b"
    using div_mult_mod_eq [of ?o ?b] div_mult_mod_eq [of "unat cnt" ?b] by linarith
  then obtain s' where s': "ext2_read_loop io a cnt (f_offset file) cnt 0 [] s = Some (sint (0 + of_nat m :: u32),
      [] @ take m (drop ?o (file_data disk (v_ino v) ?b)), f_offset file + of_nat m, s')" "cache_step s s'"
    using ext2_read_loop_ok [OF assms(1-3) _ lt(1) _ _ _ m_def, of "unat cnt div ?b + 1" cnt 0 "[]"] assms(4)
    unsigned_less [of cnt, where ?'a = nat] by auto
  have "m < 2 ^ 31" using small_file_size [OF assms(2)] by (simp add: m_def)
  then have "sint (of_nat m :: u32) = int m" by (simp add: signed_of_nat signed_take_bit_int_eq_self)
  then have "ext2_read io file a cnt s = Some (int m, d, file\<lparr>f_offset := f_offset file + of_nat m\<rparr>, s')"
    using False v s'(1) [folded m(2)] by (simp add: ext2_read_def)
  then show ?thesis using s'(2) unfolding m(1) by blast
qed

text \<open>
  C4. Reading a file works through all its layers: for a file whose blocks are direct or in the
  single indirect block, on a device from which every block can be read and with memory for the
  buffers left, \<open>ext2_read\<close> returns exactly the bytes of the file that start at the file
  offset, as many as asked for or up to the end of the file, moves the offset behind them, and
  changes nothing but the buffer cache.
\<close>

theorem ext2_read_correct:
  assumes "vn_fs a s = Some (v, fs)" "small_file (v_ino v) fs" "disk_ok io (v_rdev v) (blk_size fs) disk"
    and "cache_ok (blk_size fs) (2 * (unat cnt div unat (blk_size fs) + 2)) s"
    and "d = take (unat cnt) (drop (unat (f_offset file)) (file_data disk (v_ino v) (unat (blk_size fs))))"
  shows "\<exists>s'. ext2_read io file a cnt s =
    Some (int (length d), d, file\<lparr>f_offset := f_offset file + of_nat (length d)\<rparr>, s') \<and> cache_step s s'"
  using ext2_read_ok [OF assms] .

definition ext2_ex_disk :: "u32 \<Rightarrow> byte list" where
  "ext2_ex_disk b = replicate 1024 (ucast b)"

definition ext2_ex_io :: io_fn where
  "ext2_ex_io ty dev b sz buf = Some (0, ext2_ex_disk b)"

definition ext2_ex_vnode :: vnode where
  "ext2_ex_vnode = \<lparr>v_flag = V_FREE, v_count = 1, v_fsmounted = None, vfsp = Some 50, v_inum = 12, v_rdev = 0x30001,
     v_type = 0x81A4, ops = Some Ext2_vnode_ops,
     v_ino = \<lparr>i_mode = 0x81A4, i_uid = 0, i_size = 1027, i_atime = 0, i_ctime = 0, i_mtime = 0, i_gid = 0,
       i_links_count = 1, i_blocks = 4, i_block = [5, 7, 0, 0, 0, 0, 0, 0, 0, 0, 0, 0, 0, 0, 0]\<rparr>\<rparr>"

definition ext2_ex_fs :: vfs where
  "ext2_ex_fs = \<lparr>vfs_mpoint = None, vfs_dev = 0x30001, blk_size = 1024,
     ext2sb = \<lparr>s_blocks_count = 100, s_log_block_size = 0, s_blocks_per_group = 100, s_inodes_per_group = 32,
       s_magic = EXT2_SUPER_MAGIC\<rparr>, ext2gdesc = replicate 32 0, vfs_ops = Some Ext2_vfs_ops\<rparr>"

definition ext2_ex :: fsstate where
  "ext2_ex = \<lparr>bufs = Map.empty, bhash_table = htab_empty, freelist = replicate FREELIST [], maxbuffcache = 65536,
     curbuffcache = 0, fresh = [1, 2, 3, 4], vnodes = [100 \<mapsto> ext2_ex_vnode], vnhash = htab_empty, vnfreelist = [],
     vfss = [50 \<mapsto> ext2_ex_fs], rootvfs = Some 50, mnted = [], fssw = [], fs_index = 0, vnhashlock = False, fslock = False\<rparr>"

lemma ext2_ex_facts:
  "vn_fs 100 ext2_ex = Some (ext2_ex_vnode, ext2_ex_fs)" "small_file (v_ino ext2_ex_vnode) ext2_ex_fs"
  "disk_ok ext2_ex_io (v_rdev ext2_ex_vnode) (blk_size ext2_ex_fs) ext2_ex_disk"
  "cache_ok (blk_size ext2_ex_fs) (2 * (unat (4 :: u32) div unat (blk_size ext2_ex_fs) + 2)) ext2_ex"
proof -
  show "vn_fs 100 ext2_ex = Some (ext2_ex_vnode, ext2_ex_fs)"
    by (simp add: vn_fs_def ext2_ex_def ext2_ex_vnode_def)
  show "small_file (v_ino ext2_ex_vnode) ext2_ex_fs"
    by (simp add: small_file_def ext2_ex_vnode_def ext2_ex_fs_def)
  show "disk_ok ext2_ex_io (v_rdev ext2_ex_vnode) (blk_size ext2_ex_fs) ext2_ex_disk"
    by (simp add: disk_ok_def ext2_ex_io_def ext2_ex_disk_def ext2_ex_fs_def)
  show "cache_ok (blk_size ext2_ex_fs) (2 * (unat (4 :: u32) div unat (blk_size ext2_ex_fs) + 2)) ext2_ex"
    by (simp add: cache_ok_def no_hits_def ext2_ex_def ext2_ex_fs_def list_index_def MINSZ_def bits_of.simps
      htab_empty_def NWORDS_def FREELIST_def)
qed

definition ext2_ex_file :: fs_file where
  "ext2_ex_file = \<lparr>f_access = 0, f_offset = 1022, f_ref = 1, f_inode = 12, f_dev = 0x30001\<rparr>"

lemma ext2_ex_data: "[5, 5, 7, 7] = take (unat (4 :: u32)) (drop (unat (f_offset ext2_ex_file))
    (file_data ext2_ex_disk (v_ino ext2_ex_vnode) (unat (blk_size ext2_ex_fs))))"
  by (simp add: ext2_ex_file_def ext2_ex_fs_def file_data_def ext2_ex_vnode_def take_map drop_map take_upt drop_upt file_blkno_def ext2_ex_disk_def)

theorem ext2_read_correct_witness:
  "\<exists>s'. ext2_read ext2_ex_io ext2_ex_file 100 4 ext2_ex =
    Some (4, [5, 5, 7, 7], ext2_ex_file\<lparr>f_offset := 1026\<rparr>, s') \<and> cache_step ext2_ex s'"
  using ext2_read_correct [OF ext2_ex_facts ext2_ex_data] by (simp add: ext2_ex_file_def)

end
