(* ===== verification/Vfs.thy ===== *)
theory Vfs
  imports Ext2 Fd
begin

unbundle bit_operations_syntax

text \<open>
  The virtual file system of the file server: \<^verbatim>\<open>vfs.c\<close>,
  \<^verbatim>\<open>vfs_namei.c\<close> and \<^verbatim>\<open>file.c\<close> under
  \<^verbatim>\<open>src/servers/fs-io/fs/\<close>, the directories and mounting of ext2
  (\<^verbatim>\<open>ext2fs/ext2dir.c\<close>, \<^verbatim>\<open>ext2fs/ext2.c\<close>), and
  \<^verbatim>\<open>src/servers/fs-io/io/character/chrdev.c\<close>.

  Open files live in the kernel. An operation that uses them works on the state of the kernel, as
  \<open>Fd\<close> models its two system calls, and on that of the server. The operations of a
  vnode are dispatched over the three tables that exist; an operation that a table does not have is
  a null pointer. A spin lock that is left held stops everyone who takes it later.
\<close>

definition VNODE_DIR :: u32 where "VNODE_DIR = 0x4"
definition VNODE_BLK :: u32 where "VNODE_BLK = 0x6"
definition O_CREAT :: int where "O_CREAT = 1"
definition O_EXCL :: int where "O_EXCL = 2"
definition O_RDONLY :: int where "O_RDONLY = 0x400"
definition O_WRONLY :: int where "O_WRONLY = 0x800"
definition O_RDWR :: int where "O_RDWR = 0xC00"
definition R_OK :: int where "R_OK = 2"
definition W_OK :: int where "W_OK = 4"
definition X_OK :: int where "X_OK = 8"
definition EEXIST :: int where "EEXIST = 0x15"
definition ENODEV :: int where "ENODEV = 0x2c"
definition EXT2_NAME_LEN :: nat where "EXT2_NAME_LEN = 255"
definition EXT2_ROOT_INO :: u32 where "EXT2_ROOT_INO = 2"
definition MAX_DEF_FS :: nat where "MAX_DEF_FS = 20"
definition NVNODES :: nat where "NVNODES = 2000"

definition S_ISCHR :: "u32 \<Rightarrow> bool" where "S_ISCHR m \<longleftrightarrow> m AND 0xF000 = 0x2000"
definition S_ISBLK :: "u32 \<Rightarrow> bool" where "S_ISBLK m \<longleftrightarrow> m AND 0xF000 = 0x6000"
definition S_ISREG :: "u32 \<Rightarrow> bool" where "S_ISREG m \<longleftrightarrow> m AND 0xF000 = 0x8000"
definition S_ISDIR :: "u32 \<Rightarrow> bool" where "S_ISDIR m \<longleftrightarrow> m AND 0xF000 = 0x4000"

section \<open>The table of vnodes\<close>

definition vnhash_insert :: "addr \<Rightarrow> 'z fsstate_scheme \<Rightarrow> 'z fsstate_scheme option" where
  "vnhash_insert a s = do {
     check (\<not> vnhashlock s);
     v \<leftarrow> vnodes s a;
     h \<leftarrow> hash_insert (bhash_fn (v_inum v) (v_rdev v)) a (vnhash s);
     Some (s\<lparr>vnhash := h\<rparr>)
   }"

text \<open>The condition of the loop never becomes false: it runs over the end of the bucket.\<close>

partial_function (option) vnhash_remove_walk :: "addr \<Rightarrow> (addr \<Rightarrow> addr option) \<Rightarrow> addr option \<Rightarrow>
  (addr \<Rightarrow> addr option) option" where
  "vnhash_remove_walk a nx link = do {
     l \<leftarrow> link;
     if nx l \<noteq> Some a \<or> nx l \<noteq> None then vnhash_remove_walk a nx (nx l) else Some (nx(l := nx a))
   }"

definition vnhash_remove :: "addr \<Rightarrow> 'z fsstate_scheme \<Rightarrow> 'z fsstate_scheme option" where
  "vnhash_remove a s = do {
     check (\<not> vnhashlock s);
     v \<leftarrow> vnodes s a;
     p \<leftarrow> aget (heads (vnhash s)) (bhash_fn (v_inum v) (v_rdev v));
     if p = None then Some (s\<lparr>vnhashlock := True\<rparr>)
     else if p = Some a then Some s
     else do {
       nx \<leftarrow> vnhash_remove_walk a (links (vnhash s)) p;
       Some (s\<lparr>vnhash := (vnhash s)\<lparr>links := nx\<rparr>\<rparr>)
     }
   }"

partial_function (option) vnode_walk :: "(addr \<Rightarrow> vnode option) \<Rightarrow> (addr \<Rightarrow> addr option) \<Rightarrow> u32 \<Rightarrow> u32 \<Rightarrow> addr option \<Rightarrow>
  addr option option" where
  "vnode_walk vs nx dev inum link =
     (case link of
        None \<Rightarrow> Some None
      | Some l \<Rightarrow> do {
          v \<leftarrow> vs l;
          if v_rdev v = dev \<and> v_inum v = inum then Some (Some l) else vnode_walk vs nx dev inum (nx l)
        })"

definition find_vnode :: "u32 \<Rightarrow> u32 \<Rightarrow> 'z fsstate_scheme \<Rightarrow> addr option option" where
  "find_vnode dev inum s = do {
     check (\<not> vnhashlock s);
     p \<leftarrow> aget (heads (vnhash s)) (bhash_fn inum dev);
     vnode_walk (vnodes s) (links (vnhash s)) dev inum p
   }"

text \<open>
  \<open>vget\<close> gets the operations and the file system of the vnode it is called with. With no free
  vnode it waits for ever, holding the lock of the list.
\<close>

definition vget :: "io_fn \<Rightarrow> vnodeops option \<Rightarrow> addr option \<Rightarrow> u32 \<Rightarrow> u32 \<Rightarrow> 'z fsstate_scheme \<Rightarrow>
  (addr option \<times> 'z fsstate_scheme) option" where
  "vget io pops pvfs inum dev s =
     (if pops \<noteq> Some Ext2_vnode_ops then Some (None, s)
      else do {
        r \<leftarrow> find_vnode dev inum s;
        case r of
          Some a \<Rightarrow> do {
            s \<leftarrow> upd_vnode a (\<lambda>v. v\<lparr>v_count := v_count v + 1\<rparr>) s;
            Some (Some a, s)
          }
        | None \<Rightarrow> do {
            (a, l) \<leftarrow> ll_dequeue (vnfreelist s);
            let s = s\<lparr>vnfreelist := l\<rparr>;
            v \<leftarrow> vnodes s a;
            s \<leftarrow> (if v_flag v AND V_FREE \<noteq> 0 then upd_vnode a (\<lambda>v. v\<lparr>v_count := 1, vfsp := pvfs\<rparr>) s
                  else do {
                    s \<leftarrow> vnhash_remove a s;
                    upd_vnode a (\<lambda>v. v\<lparr>v_count := v_count v + 1\<rparr>) s
                  });
            s \<leftarrow> upd_vnode a (\<lambda>v. v\<lparr>v_rdev := dev, v_inum := inum\<rparr>) s;
            (_, s) \<leftarrow> ext2_read_inode io a inum s;
            s \<leftarrow> upd_vnode a (\<lambda>v. if S_ISCHR (v_type v) then v\<lparr>ops := Some Chrops\<rparr>
                                 else if S_ISBLK (v_type v) then v\<lparr>ops := Some Blkops\<rparr> else v) s;
            s \<leftarrow> vnhash_insert a s;
            Some (Some a, s)
          }
      })"

text \<open>No table of operations has \<open>vop_write_inode\<close>.\<close>

definition vput :: "addr \<Rightarrow> 'z fsstate_scheme \<Rightarrow> 'z fsstate_scheme option" where
  "vput a s = do {
     v \<leftarrow> vnodes s a;
     s \<leftarrow> upd_vnode a (\<lambda>v. v\<lparr>v_count := v_count v - 1\<rparr>) s;
     if v_count v - 1 \<noteq> 0 then Some s
     else do {
       check (v_flag v AND V_DIRTY = 0);
       s \<leftarrow> upd_vnode a (\<lambda>v. v\<lparr>v_flag := V_FREE\<rparr>) s;
       l \<leftarrow> ll_enqueue a (vnfreelist s);
       Some (s\<lparr>vnfreelist := l\<rparr>)
     }
   }"

section \<open>Directories\<close>

partial_function (option) dest_dot :: "byte list \<Rightarrow> byte list \<Rightarrow> nat \<Rightarrow> nat option option" where
  "dest_dot dest src j = do {
     d \<leftarrow> aget dest j;
     if d = 46 then Some (Some j)
     else do {
       c \<leftarrow> str_at src j;
       if c = 0 then Some None else dest_dot dest src (j + 1)
     }
   }"

partial_function (option) check_name_loop :: "byte list \<Rightarrow> nat \<Rightarrow> byte list \<Rightarrow> nat \<Rightarrow> nat \<Rightarrow> int option" where
  "check_name_loop dest nlen src i j =
     (if i < length src then
        if src ! i = 63 then check_name_loop dest nlen src (i + 1) (j + 1)
        else if src ! i = 42 then
          (case find (\<lambda>k. src ! k = 46) [i..<length src] of
             None \<Rightarrow> Some 0
           | Some k \<Rightarrow> do {
               r \<leftarrow> dest_dot dest src j;
               case r of
                 None \<Rightarrow> Some 0
               | Some j' \<Rightarrow> check_name_loop dest nlen src (k + 1) (j' + 1)
             })
        else do {
          d \<leftarrow> aget dest j;
          if src ! i \<noteq> d then Some 1 else check_name_loop dest nlen src (i + 1) (j + 1)
        }
      else if i \<noteq> nlen then Some 1 else Some 0)"

definition check_name :: "byte list \<Rightarrow> nat \<Rightarrow> byte list \<Rightarrow> int option" where
  "check_name dest nlen src = check_name_loop dest nlen src 0 0"

definition get_file_blk :: "vnode \<Rightarrow> u32" where
  "get_file_blk v = i_blocks (v_ino v) * 512"

text \<open>The entries of one block: the inode number of the first entry with the name.\<close>

partial_function (option) dir_scan :: "byte list \<Rightarrow> byte list \<Rightarrow> nat \<Rightarrow> u32 option option" where
  "dir_scan d name p = do {
     len \<leftarrow> le16 d (p + 4);
     if len = 0 then Some None
     else do {
       nlen \<leftarrow> aget d (p + 6);
       r \<leftarrow> check_name (drop (p + 8) d) (unat nlen) name;
       if r = 0 then do { inum \<leftarrow> le32 d p; Some (Some inum) }
       else if length d \<le> p + unat len then Some None
       else dir_scan d name (p + unat len)
     }
   }"

datatype dir_result = Dir_err int | Dir_mount addr | Dir_none | Dir_found u32

text \<open>The blocks of one directory. The buffer of the block with the entry is not released.\<close>

partial_function (option) dir_blocks :: "io_fn \<Rightarrow> addr \<Rightarrow> byte list \<Rightarrow> u32 \<Rightarrow> 'z fsstate_scheme \<Rightarrow>
  (dir_result \<times> 'z fsstate_scheme) option" where
  "dir_blocks io a name blkindex s = do {
     v \<leftarrow> vnodes s a;
     if v_type v AND VNODE_DIR = 0 then Some (Dir_err (- EINVAL), s)
     else case v_fsmounted v of
       Some m \<Rightarrow> Some (Dir_mount m, s)
     | None \<Rightarrow> do {
         (_, fs) \<leftarrow> vn_fs a s;
         (blk, s) \<leftarrow> ext2_bmap io a blkindex s;
         (r, s) \<leftarrow> bread io (v_rdev v) blk (blk_size fs) s;
         case r of
           None \<Rightarrow> Some (Dir_err (- EINTR), s)
         | Some b \<Rightarrow> do {
             bc \<leftarrow> bufs s b;
             f \<leftarrow> dir_scan (b_data bc) name 0;
             case f of
               Some inum \<Rightarrow> Some (Dir_found inum, s)
             | None \<Rightarrow> do {
                 (_, s) \<leftarrow> brelse b s;
                 let blkindex = blkindex + 1;
                 if get_file_blk v \<le> blkindex * blk_size fs then Some (Dir_none, s)
                 else dir_blocks io a name blkindex s
               }
           }
       }
   }"

record nameidata =
  nd_vn :: "addr option"
  nd_vfs :: "addr option"
  nd_access :: int

text \<open>One component of the path after the other; the name is copied into an array of 255 bytes.\<close>

partial_function (option) ext2_readdir :: "io_fn \<Rightarrow> addr \<Rightarrow> byte list \<Rightarrow> nameidata \<Rightarrow> 'z fsstate_scheme \<Rightarrow>
  (int \<times> nameidata \<times> 'z fsstate_scheme) option" where
  "ext2_readdir io a path nm s = do {
     let path = dropWhile (\<lambda>c. c = 47) path;
     let name = takeWhile (\<lambda>c. c \<noteq> 47) path;
     let path = dropWhile (\<lambda>c. c \<noteq> 47) path;
     check (length name < EXT2_NAME_LEN);
     let comp = (length path \<le> 1);
     (r, s) \<leftarrow> dir_blocks io a name 0 s;
     case r of
       Dir_err e \<Rightarrow> Some (e, nm, s)
     | Dir_mount m \<Rightarrow> Some (1, nm\<lparr>nd_vfs := Some m\<rparr>, s)
     | Dir_none \<Rightarrow> Some (- 1, if comp then nm\<lparr>nd_vn := Some a\<rparr> else nm, s)
     | Dir_found inum \<Rightarrow> do {
         v \<leftarrow> vnodes s a;
         (r, s) \<leftarrow> vget io (ops v) (vfsp v) inum (v_rdev v) s;
         case r of
           None \<Rightarrow> Some (- 1, nm, s)
         | Some a' \<Rightarrow> if comp then Some (0, nm\<lparr>nd_vn := Some a'\<rparr>, s) else ext2_readdir io a' path nm s
       }
   }"

definition ext2_namei :: "io_fn \<Rightarrow> addr \<Rightarrow> byte list \<Rightarrow> nameidata \<Rightarrow> 'z fsstate_scheme \<Rightarrow>
  (int \<times> nameidata \<times> 'z fsstate_scheme) option" where
  "ext2_namei io a path nm s = do {
     (ret, nm, s) \<leftarrow> ext2_readdir io a path nm s;
     if ret \<noteq> 0 then Some (ret, nm, s)
     else if nd_access nm AND O_CREAT \<noteq> 0 \<or> nd_access nm AND O_EXCL \<noteq> 0 then Some (- EEXIST, nm, s)
     else Some (ret, nm, s)
   }"

section \<open>Mounting\<close>

text \<open>The local vnode \<open>oper\<close> of the source only carries the operations and the file system.\<close>

definition ext2_mount :: "io_fn \<Rightarrow> addr \<Rightarrow> 'z fsstate_scheme \<Rightarrow> (int \<times> 'z fsstate_scheme) option" where
  "ext2_mount io f s = do {
     (ret, s) \<leftarrow> ext2_read_sb io f s;
     if ret < 0 then Some (ret, s)
     else do {
       fs \<leftarrow> vfss s f;
       (r, s) \<leftarrow> vget io (Some Ext2_vnode_ops) (Some f) EXT2_ROOT_INO (vfs_dev fs) s;
       a \<leftarrow> r;
       s \<leftarrow> upd_vnode a (\<lambda>v. v\<lparr>ops := Some Ext2_vnode_ops, v_type := VNODE_DIR\<rparr>) s;
       fs \<leftarrow> vfss s f;
       Some (0, s\<lparr>vfss := (vfss s)(f \<mapsto> fs\<lparr>vfs_mpoint := Some a\<rparr>)\<rparr>)
     }
   }"

definition ext2_unmount :: "addr \<Rightarrow> 'z fsstate_scheme \<Rightarrow> (int \<times> 'z fsstate_scheme) option" where
  "ext2_unmount f s = do {
     fs \<leftarrow> vfss s f;
     Some (0, s\<lparr>vfss := (vfss s)(f \<mapsto> fs\<lparr>ext2gdesc := []\<rparr>)\<rparr>)
   }"

definition vfs_zero :: vfs where
  "vfs_zero = \<lparr>vfs_mpoint = None, vfs_dev = 0, blk_size = 0,
     ext2sb = \<lparr>s_blocks_count = 0, s_log_block_size = 0, s_blocks_per_group = 0, s_inodes_per_group = 0, s_magic = 0\<rparr>,
     ext2gdesc = [], vfs_ops = None\<rparr>"

definition ext2fs_construct :: "'z fsstate_scheme \<Rightarrow> (addr \<times> 'z fsstate_scheme) option" where
  "ext2fs_construct s = (case fresh s of
     [] \<Rightarrow> None
   | f # rest \<Rightarrow> Some (f, s\<lparr>fresh := rest, vfss := (vfss s)(f \<mapsto> vfs_zero\<lparr>vfs_ops := Some Ext2_vfs_ops\<rparr>)\<rparr>))"

definition register_vfs :: "byte list \<Rightarrow> vfsops \<Rightarrow> 'z fsstate_scheme \<Rightarrow> (int \<times> 'z fsstate_scheme) option" where
  "register_vfs name entry s = do {
     check (\<not> fslock s);
     t \<leftarrow> aput (fssw s) (fs_index s) \<lparr>vsw_name = Some name, vsw_init = Some entry\<rparr>;
     Some (int (fs_index s), s\<lparr>fssw := t, fs_index := fs_index s + 1\<rparr>)
   }"

definition unregister_vfs :: "nat \<Rightarrow> 'z fsstate_scheme \<Rightarrow> (int \<times> 'z fsstate_scheme) option" where
  "unregister_vfs i s = do {
     check (\<not> fslock s);
     e \<leftarrow> aget (fssw s) i;
     t \<leftarrow> aput (fssw s) i (e\<lparr>vsw_init := None\<rparr>);
     Some (int i, s\<lparr>fssw := t\<rparr>)
   }"

definition ext2_name :: "byte list" where "ext2_name = [0x65, 0x78, 0x74, 0x32]"

definition ext2fs_init :: "'z fsstate_scheme \<Rightarrow> 'z fsstate_scheme option" where
  "ext2fs_init s = do {
     (_, s) \<leftarrow> register_vfs ext2_name Ext2_vfs_ops s;
     Some s
   }"

text \<open>The search of \<open>mount_root\<close>: \<open>Some None\<close> is the jump out of the loop at an entry without a name.\<close>

partial_function (option) fs_search :: "vfssw list \<Rightarrow> byte list \<Rightarrow> nat \<Rightarrow> vfssw option option" where
  "fs_search t name i = do {
     e \<leftarrow> aget t i;
     case vsw_name e of
       None \<Rightarrow> Some None
     | Some n \<Rightarrow> if n = name \<or> vsw_init e = None then Some (Some e) else fs_search t name (i + 1)
   }"

definition mount_root :: "io_fn \<Rightarrow> byte list \<Rightarrow> u32 \<Rightarrow> 'z fsstate_scheme \<Rightarrow> (int \<times> 'z fsstate_scheme) option" where
  "mount_root io name dev s = do {
     check (\<not> fslock s);
     r \<leftarrow> fs_search (fssw s) name 0;
     case r of
       None \<Rightarrow> Some (- 1, s\<lparr>fslock := True\<rparr>)
     | Some e \<Rightarrow>
         if vsw_init e = None then Some (- 1, s)
         else do {
           (f, s) \<leftarrow> ext2fs_construct s;
           fs \<leftarrow> vfss s f;
           let s = s\<lparr>rootvfs := Some f, vfss := (vfss s)(f \<mapsto> fs\<lparr>vfs_dev := dev\<rparr>)\<rparr>;
           if vfs_ops fs = None then Some (- 1, s)
           else do {
             (err, s) \<leftarrow> ext2_mount io f s;
             if err < 0 then Some (err, s)
             else do {
               l \<leftarrow> ll_add f (mnted s);
               Some (0, s\<lparr>mnted := l\<rparr>)
             }
           }
         }
   }"

definition get_root_vnode :: "'z fsstate_scheme \<Rightarrow> addr option option" where
  "get_root_vnode s = do {
     f \<leftarrow> rootvfs s;
     fs \<leftarrow> vfss s f;
     Some (vfs_mpoint fs)
   }"

definition vnode_zero :: vnode where
  "vnode_zero = \<lparr>v_flag = V_NEW OR V_FREE, v_count = 0, v_fsmounted = None, vfsp = None, v_inum = 0, v_rdev = 0, v_type = 0,
     ops = None, v_ino = \<lparr>i_mode = 0, i_uid = 0, i_size = 0, i_atime = 0, i_ctime = 0, i_mtime = 0, i_gid = 0,
       i_links_count = 0, i_blocks = 0, i_block = replicate 15 0\<rparr>\<rparr>"

text \<open>The array of vnodes is at \<open>base\<close>, and the vnodes are numbered from there. The allocations of the tables succeed.\<close>

definition vfs_init :: "io_fn \<Rightarrow> addr \<Rightarrow> u32 \<Rightarrow> u32 \<Rightarrow> byte list \<Rightarrow> u32 \<Rightarrow> 'z fsstate_scheme \<Rightarrow>
  (int \<times> 'z fsstate_scheme) option" where
  "vfs_init io base tot used name dev s = do {
     let s = s\<lparr>fssw := replicate MAX_DEF_FS \<lparr>vsw_name = None, vsw_init = None\<rparr>, fs_index := 0\<rparr>;
     s \<leftarrow> ext2fs_init s;
     let s = s\<lparr>vnhash := htab_empty, mnted := [], vnfreelist := rev [base..<base + NVNODES],
       vnodes := (\<lambda>a. if base \<le> a \<and> a < base + NVNODES then Some vnode_zero else None)\<rparr>;
     mount_root io name dev (bcache_init tot used s)
   }"

section \<open>Names\<close>

text \<open>
  \<open>cwd\<close> is what the kernel keeps as the inode and the device of the current directory; the
  two are given to \<open>find_vnode\<close> in the wrong order. When a mount point is met, the rest of
  the path is taken from a variable that was never set.
\<close>

definition get_cwd :: "u32 \<times> u32 \<Rightarrow> 'z fsstate_scheme \<Rightarrow> addr option option" where
  "get_cwd cwd s = find_vnode (fst cwd) (snd cwd) s"

definition vfs_namev :: "io_fn \<Rightarrow> u32 \<times> u32 \<Rightarrow> byte list \<Rightarrow> int \<Rightarrow> 'z fsstate_scheme \<Rightarrow>
  (addr option \<times> int \<times> 'z fsstate_scheme) option" where
  "vfs_namev io cwd path access s = do {
     c \<leftarrow> str_at path 0;
     r \<leftarrow> (if c = 47 then get_root_vnode s else get_cwd cwd s);
     if path = [47] then Some (r, access, s)
     else do {
       a \<leftarrow> r;
       v \<leftarrow> vnodes s a;
       if ops v \<noteq> Some Ext2_vnode_ops then Some (None, access, s)
       else do {
         (status, nm, s) \<leftarrow> ext2_namei io a path \<lparr>nd_vn = None, nd_vfs = None, nd_access = access\<rparr> s;
         check (status \<le> 0);
         if status < 0 then Some (None, status, s) else Some (nd_vn nm, access, s)
       }
     }
   }"

section \<open>Character devices\<close>

record chevsw =
  d_open :: "(fs_file \<Rightarrow> u32 \<Rightarrow> fs_file option) option"
  d_close :: "(fs_file \<Rightarrow> u32 \<Rightarrow> fs_file option) option"
  d_read :: "(fs_file \<Rightarrow> u32 \<Rightarrow> u32 \<Rightarrow> (byte list \<times> fs_file) option) option"
  d_write :: "(fs_file \<Rightarrow> u32 \<Rightarrow> byte list \<Rightarrow> fs_file option) option"

type_synonym chr_tab = "chevsw option list"

definition chr_init :: chr_tab where "chr_init = replicate MAX_MAJOR None"

definition chrdev_register :: "int \<Rightarrow> chevsw \<Rightarrow> chr_tab \<Rightarrow> (int \<times> chr_tab) option" where
  "chrdev_register major chops t =
     (if major \<ge> int MAX_MAJOR \<or> major < 0 then Some (- 1, t)
      else do { t \<leftarrow> aput t (nat major) (Some chops); Some (0, t) })"

definition chrdev_unregister :: "int \<Rightarrow> chr_tab \<Rightarrow> (int \<times> chr_tab) option" where
  "chrdev_unregister major t =
     (if major \<ge> int MAX_MAJOR \<or> major < 0 then Some (- 1, t)
      else do { t \<leftarrow> aput t (nat major) None; Some (0, t) })"

definition chrdev_open :: "chr_tab \<Rightarrow> fs_file \<Rightarrow> vnode \<Rightarrow> (int \<times> fs_file) option" where
  "chrdev_open t file v = do {
     e \<leftarrow> aget t (MAJOR (v_rdev v));
     case Option.bind e d_open of
       None \<Rightarrow> Some (0, file)
     | Some f \<Rightarrow> do { file \<leftarrow> f file (v_rdev v); Some (0, file) }
   }"

definition chrdev_close :: "chr_tab \<Rightarrow> fs_file \<Rightarrow> vnode \<Rightarrow> (int \<times> fs_file) option" where
  "chrdev_close t file v =
     (if ops v = None then Some (0, file)
      else do {
        e \<leftarrow> aget t (MAJOR (v_rdev v));
        sw \<leftarrow> e;
        f \<leftarrow> d_close sw;
        file \<leftarrow> f file (v_rdev v);
        Some (0, file)
      })"

definition chrdev_read :: "chr_tab \<Rightarrow> fs_file \<Rightarrow> vnode \<Rightarrow> u32 \<Rightarrow> (int \<times> byte list \<times> fs_file) option" where
  "chrdev_read t file v cnt = do {
     e \<leftarrow> aget t (MAJOR (v_rdev v));
     sw \<leftarrow> e;
     f \<leftarrow> d_read sw;
     (d, file) \<leftarrow> f file (v_rdev v) cnt;
     Some (0, d, file)
   }"

definition chrdev_write :: "chr_tab \<Rightarrow> fs_file \<Rightarrow> vnode \<Rightarrow> byte list \<Rightarrow> (int \<times> fs_file) option" where
  "chrdev_write t file v buf = do {
     e \<leftarrow> aget t (MAJOR (v_rdev v));
     sw \<leftarrow> e;
     f \<leftarrow> d_write sw;
     file \<leftarrow> f file (v_rdev v) buf;
     Some (0, file)
   }"

section \<open>Open files\<close>

text \<open>
  The structure is the same in the kernel and in the server. The stubs of the system calls turn
  every error into -1. \<open>put_openfile\<close> is the call that also allocates descriptors.
\<close>

definition to_fs :: "file_t \<Rightarrow> fs_file" where
  "to_fs f = \<lparr>f_access = file_t.f_access f, f_offset = of_int (file_t.f_offset f), f_ref = file_t.f_ref f,
     f_inode = file_t.f_inode f, f_dev = f_device f\<rparr>"

definition from_fs :: "fs_file \<Rightarrow> file_t" where
  "from_fs f = \<lparr>file_t.f_access = f_access f, f_offset = uint (f_offset f), f_ref = f_ref f,
     f_inode = f_inode f, f_device = f_dev f\<rparr>"

definition usys :: "int \<Rightarrow> int" where "usys r = (if r < 0 then - 1 else r)"

definition get_openfile :: "int \<Rightarrow> int \<Rightarrow> 'k kstate_scheme \<Rightarrow> (int \<times> fs_file option \<times> 'k kstate_scheme) option" where
  "get_openfile t fd ks = do {
     (r, f, ks) \<leftarrow> syscall_fd_free t fd True ks;
     Some (usys r, map_option to_fs f, ks)
   }"

definition put_openfile :: "int \<Rightarrow> (addr \<times> file_t) option \<Rightarrow> int \<Rightarrow> int \<Rightarrow> fs_file \<Rightarrow> 'k kstate_scheme \<Rightarrow>
  (int \<times> 'k kstate_scheme) option" where
  "put_openfile junk mem t fd file ks = do {
     (r, ks) \<leftarrow> syscall_fd_alloc junk mem t fd (Some (from_fs file)) ks;
     Some (usys r, ks)
   }"

definition FDESC_CREATE :: "int \<Rightarrow> int \<Rightarrow> int" where
  "FDESC_CREATE svr fd = sint (push_bit 16 (of_int svr) OR of_int fd :: u32)"

definition FDESC_FD :: "int \<Rightarrow> int" where "FDESC_FD fd = fd AND 0xFFFF"

definition vgetattr :: "addr \<Rightarrow> vattr \<Rightarrow> 'z fsstate_scheme \<Rightarrow> vattr option" where
  "vgetattr a attr s = do {
     v \<leftarrow> vnodes s a;
     check (ops v = Some Ext2_vnode_ops);
     ext2_get_attr a attr s
   }"

definition vputattr :: "addr \<Rightarrow> vattr \<Rightarrow> 'z fsstate_scheme \<Rightarrow> 'z fsstate_scheme option" where
  "vputattr a attr s = do {
     v \<leftarrow> vnodes s a;
     check (ops v = Some Ext2_vnode_ops);
     ext2_put_attr a attr s
   }"

text \<open>\<open>junk\<close> is the content of the variable \<open>eaccess\<close>, which is not initialized.\<close>

definition vfs_access :: "io_fn \<Rightarrow> u32 \<times> u32 \<Rightarrow> int \<Rightarrow> byte list \<Rightarrow> int \<Rightarrow> 'z fsstate_scheme \<Rightarrow>
  (int \<times> 'z fsstate_scheme) option" where
  "vfs_access io cwd junk path amode s = do {
     let ea = (if amode AND R_OK \<noteq> 0 \<or> amode AND X_OK \<noteq> 0 then junk OR O_RDONLY else junk);
     let ea = (if amode AND W_OK \<noteq> 0 then ea OR O_WRONLY else ea);
     (r, ea, s) \<leftarrow> vfs_namev io cwd path ea s;
     Some (if r = None then ea else 0, s)
   }"

text \<open>\<open>bopen\<close> is the \<open>d_open\<close> of the block driver of a device. The new file is made with \<open>mem\<close>.\<close>

definition vfs_open :: "io_fn \<Rightarrow> chr_tab \<Rightarrow> (u32 \<Rightarrow> int option) \<Rightarrow> int \<Rightarrow> (addr \<times> file_t) option \<Rightarrow> u32 \<times> u32 \<Rightarrow> int \<Rightarrow>
  byte list \<Rightarrow> int \<Rightarrow> 'k kstate_scheme \<Rightarrow> 'z fsstate_scheme \<Rightarrow>
  (int \<times> int \<times> 'k kstate_scheme \<times> 'z fsstate_scheme) option" where
  "vfs_open io cd bopen junk mem cwd t path access ks s = do {
     (r, ea, s) \<leftarrow> vfs_namev io cwd path access s;
     case r of
       None \<Rightarrow> Some (ea, access, ks, s)
     | Some a \<Rightarrow> do {
         v \<leftarrow> vnodes s a;
         let file = \<lparr>f_access = of_int access, f_offset = 0, f_ref = 0, f_inode = v_inum v, f_dev = v_rdev v\<rparr>;
         (ea, file) \<leftarrow> (case ops v of
             None \<Rightarrow> Some (ea, file)
           | Some Ext2_vnode_ops \<Rightarrow> Some (0, file)
           | Some Chrops \<Rightarrow> chrdev_open cd file v
           | Some Blkops \<Rightarrow> do { e \<leftarrow> bopen (v_rdev v); Some (e, file) });
         let access = sint (v_type v);
         if ea < 0 then Some (ea, access, ks, s)
         else do {
           (fd, ks) \<leftarrow> put_openfile junk mem t (- 1) file ks;
           Some (FDESC_CREATE ea fd, access, ks, s)
         }
       }
   }"

definition vfs_close :: "int \<Rightarrow> int \<Rightarrow> 'k kstate_scheme \<Rightarrow> 'z fsstate_scheme \<Rightarrow>
  (int \<times> 'k kstate_scheme \<times> 'z fsstate_scheme) option" where
  "vfs_close t fd ks s = do {
     (ret, f, ks) \<leftarrow> get_openfile t (FDESC_FD fd) ks;
     if ret < 0 then Some (ret, ks, s)
     else do {
       file \<leftarrow> f;
       r \<leftarrow> find_vnode (f_inode file) (f_dev file) s;
       case r of
         None \<Rightarrow> Some (- EINVAL, ks, s)
       | Some a \<Rightarrow> do {
           s \<leftarrow> vput a s;
           Some (ret, ks, s)
         }
     }
   }"

definition vop_read :: "io_fn \<Rightarrow> chr_tab \<Rightarrow> fs_file \<Rightarrow> addr \<Rightarrow> u32 \<Rightarrow> 'z fsstate_scheme \<Rightarrow>
  (int \<times> byte list \<times> fs_file \<times> 'z fsstate_scheme) option" where
  "vop_read io cd file a cnt s = do {
     v \<leftarrow> vnodes s a;
     case ops v of
       Some Ext2_vnode_ops \<Rightarrow> ext2_read io file a cnt s
     | Some Chrops \<Rightarrow> do { (ret, d, file) \<leftarrow> chrdev_read cd file v cnt; Some (ret, d, file, s) }
     | _ \<Rightarrow> None
   }"

text \<open>The error of \<open>get_openfile\<close> is not looked at; the file is then whatever was on the stack.\<close>

definition vfs_read :: "io_fn \<Rightarrow> chr_tab \<Rightarrow> int \<Rightarrow> int \<Rightarrow> int \<Rightarrow> u32 \<Rightarrow> 'k kstate_scheme \<Rightarrow> 'z fsstate_scheme \<Rightarrow>
  (int \<times> byte list \<times> 'k kstate_scheme \<times> 'z fsstate_scheme) option" where
  "vfs_read io cd junk t fd cnt ks s = do {
     (err, f, ks) \<leftarrow> get_openfile t fd ks;
     file \<leftarrow> f;
     r \<leftarrow> find_vnode (f_dev file) (f_inode file) s;
     case r of
       None \<Rightarrow> Some (err, [], ks, s)
     | Some a \<Rightarrow> do {
         (err, d, file, s) \<leftarrow> vop_read io cd file a cnt s;
         if err < 0 then Some (err, d, ks, s)
         else do {
           (_, ks) \<leftarrow> put_openfile junk None t fd file ks;
           Some (err, d, ks, s)
         }
       }
   }"

definition vfs_write :: "chr_tab \<Rightarrow> int \<Rightarrow> int \<Rightarrow> int \<Rightarrow> byte list \<Rightarrow> 'k kstate_scheme \<Rightarrow> 'z fsstate_scheme \<Rightarrow>
  (int \<times> 'k kstate_scheme) option" where
  "vfs_write cd junk t fd buf ks s = do {
     (err, f, ks) \<leftarrow> get_openfile t fd ks;
     file \<leftarrow> f;
     if f_access file AND of_int O_WRONLY = 0 then Some (- EPERM, ks)
     else do {
       r \<leftarrow> find_vnode (f_inode file) (f_dev file) s;
       case r of
         None \<Rightarrow> Some (err, ks)
       | Some a \<Rightarrow> do {
           v \<leftarrow> vnodes s a;
           (err, file) \<leftarrow> (case ops v of
               Some Ext2_vnode_ops \<Rightarrow> Some (ext2_write file a buf, file)
             | Some Chrops \<Rightarrow> chrdev_write cd file v buf
             | _ \<Rightarrow> Some (err, file));
           (_, ks) \<leftarrow> put_openfile junk None t fd file ks;
           Some (err, ks)
         }
     }
   }"

section \<open>Attributes and mount points\<close>

definition vattr0 :: vattr where
  "vattr0 = \<lparr>st_ino = 0, st_mode = 0, st_nlink = 0, st_uid = 0, st_gid = 0, st_size = 0, st_atime = 0, st_mtime = 0,
     st_ctime = 0, st_blksize = 0\<rparr>"

text \<open>Changing attributes of a file; every field of the local structure is set before it is used.\<close>

definition change_attr :: "(vattr \<Rightarrow> vattr) \<Rightarrow> addr \<Rightarrow> 'z fsstate_scheme \<Rightarrow> 'z fsstate_scheme option" where
  "change_attr f a s = do {
     attr \<leftarrow> vgetattr a vattr0 s;
     s \<leftarrow> vputattr a (f attr) s;
     vput a s
   }"

definition vfs_chmod :: "io_fn \<Rightarrow> u32 \<times> u32 \<Rightarrow> byte list \<Rightarrow> u32 \<Rightarrow> 'z fsstate_scheme \<Rightarrow>
  (int \<times> 'z fsstate_scheme) option" where
  "vfs_chmod io cwd path mode s = do {
     (r, err, s) \<leftarrow> vfs_namev io cwd path O_RDWR s;
     case r of
       None \<Rightarrow> Some (err, s)
     | Some a \<Rightarrow> do { s \<leftarrow> change_attr (\<lambda>at. at\<lparr>st_mode := mode\<rparr>) a s; Some (err, s) }
   }"

definition vfs_chown :: "io_fn \<Rightarrow> u32 \<times> u32 \<Rightarrow> byte list \<Rightarrow> u32 \<Rightarrow> u32 \<Rightarrow> 'z fsstate_scheme \<Rightarrow>
  (int \<times> 'z fsstate_scheme) option" where
  "vfs_chown io cwd path u g s = do {
     (r, err, s) \<leftarrow> vfs_namev io cwd path O_RDWR s;
     case r of
       None \<Rightarrow> Some (err, s)
     | Some a \<Rightarrow> do {
         s \<leftarrow> change_attr (\<lambda>at. at\<lparr>st_uid := (if u \<noteq> - 1 then u else st_uid at),
                                st_gid := (if g \<noteq> - 1 then g else st_gid at)\<rparr>) a s;
         Some (err, s)
       }
   }"

definition vfs_fchmod :: "int \<Rightarrow> int \<Rightarrow> u32 \<Rightarrow> 'k kstate_scheme \<Rightarrow> 'z fsstate_scheme \<Rightarrow>
  (int \<times> 'k kstate_scheme \<times> 'z fsstate_scheme) option" where
  "vfs_fchmod t fd mode ks s = do {
     (err, f, ks) \<leftarrow> get_openfile t fd ks;
     if err < 0 then Some (- ESRCH, ks, s)
     else do {
       file \<leftarrow> f;
       r \<leftarrow> find_vnode (f_inode file) (f_dev file) s;
       case r of
         None \<Rightarrow> Some (err, ks, s)
       | Some a \<Rightarrow> do { s \<leftarrow> change_attr (\<lambda>at. at\<lparr>st_mode := mode\<rparr>) a s; Some (err, ks, s) }
     }
   }"

text \<open>Both functions for the status of a file begin with an endless loop.\<close>

partial_function (option) yield_for_ever :: "'s \<Rightarrow> 's option" where
  "yield_for_ever s = yield_for_ever s"

definition vfs_stat :: "io_fn \<Rightarrow> u32 \<times> u32 \<Rightarrow> byte list \<Rightarrow> vattr \<Rightarrow> 'z fsstate_scheme \<Rightarrow>
  (int \<times> vattr \<times> 'z fsstate_scheme) option" where
  "vfs_stat io cwd path attr s = do {
     s \<leftarrow> yield_for_ever s;
     (r, _, s) \<leftarrow> vfs_namev io cwd path O_RDONLY s;
     case r of
       None \<Rightarrow> Some (0, attr, s)
     | Some a \<Rightarrow> do { attr \<leftarrow> vgetattr a attr s; Some (0, attr, s) }
   }"

definition vfs_fstat :: "int \<Rightarrow> int \<Rightarrow> vattr \<Rightarrow> 'k kstate_scheme \<Rightarrow> 'z fsstate_scheme \<Rightarrow>
  (int \<times> vattr \<times> 'k kstate_scheme) option" where
  "vfs_fstat t fd attr ks s = do {
     s \<leftarrow> yield_for_ever s;
     (err, f, ks) \<leftarrow> get_openfile t fd ks;
     if err < 0 then Some (- ESRCH, attr, ks)
     else do {
       file \<leftarrow> f;
       r \<leftarrow> find_vnode (f_dev file) (f_inode file) s;
       case r of
         None \<Rightarrow> Some (err, attr, ks)
       | Some a \<Rightarrow> do { attr \<leftarrow> vgetattr a attr s; Some (err, attr, ks) }
     }
   }"

text \<open>The search compares with the name of every entry, also where there is none.\<close>

partial_function (option) mount_search :: "vfssw list \<Rightarrow> byte list \<Rightarrow> nat \<Rightarrow> vfssw option" where
  "mount_search t name i = do {
     e \<leftarrow> aget t i;
     n \<leftarrow> vsw_name e;
     if n = name \<or> vsw_init e = None then Some e else mount_search t name (i + 1)
   }"

definition free_vfs :: "addr \<Rightarrow> 'z fsstate_scheme \<Rightarrow> 'z fsstate_scheme" where
  "free_vfs f s = s\<lparr>vfss := (vfss s)(f := None)\<rparr>"

definition vfs_mount :: "io_fn \<Rightarrow> u32 \<times> u32 \<Rightarrow> byte list \<Rightarrow> byte list \<Rightarrow> byte list \<Rightarrow> 'z fsstate_scheme \<Rightarrow>
  (int \<times> 'z fsstate_scheme) option" where
  "vfs_mount io cwd spec dir name s = do {
     check (\<not> fslock s);
     e \<leftarrow> mount_search (fssw s) name 0;
     _ \<leftarrow> vsw_init e;
     (f, s) \<leftarrow> ext2fs_construct s;
     (r, err, s) \<leftarrow> vfs_namev io cwd dir (- EINVAL) s;
     fs \<leftarrow> vfss s f;
     let s = s\<lparr>vfss := (vfss s)(f \<mapsto> fs\<lparr>vfs_mpoint := r\<rparr>)\<rparr>;
     case r of
       None \<Rightarrow> Some (err, free_vfs f s)
     | Some m \<Rightarrow> do {
         v \<leftarrow> vnodes s m;
         if v_type v \<noteq> VNODE_DIR then Some (err, free_vfs f s)
         else do {
           (r, err, s) \<leftarrow> vfs_namev io cwd spec err s;
           a \<leftarrow> r;
           v \<leftarrow> vnodes s a;
           fs \<leftarrow> vfss s f;
           let s = s\<lparr>vfss := (vfss s)(f \<mapsto> fs\<lparr>vfs_dev := v_rdev v\<rparr>)\<rparr>;
           if v_type v \<noteq> VNODE_BLK then Some (err, free_vfs f s)
           else do {
             (err, s) \<leftarrow> ext2_mount io f s;
             if err < 0 then Some (err, free_vfs f s)
             else do {
               l \<leftarrow> ll_add f (mnted s);
               Some (0, s\<lparr>mnted := l\<rparr>)
             }
           }
         }
       }
   }"

text \<open>What is taken off the list of mounted file systems, and freed, is its first one.\<close>

definition vfs_umount :: "io_fn \<Rightarrow> u32 \<times> u32 \<Rightarrow> byte list \<Rightarrow> 'z fsstate_scheme \<Rightarrow> (int \<times> 'z fsstate_scheme) option" where
  "vfs_umount io cwd target s = do {
     (r, err, s) \<leftarrow> vfs_namev io cwd target 0 s;
     case r of
       None \<Rightarrow> Some (err, s)
     | Some m \<Rightarrow> do {
         v \<leftarrow> vnodes s m;
         if v_type v \<noteq> VNODE_DIR then Some (err, s)
         else case v_fsmounted v of
           None \<Rightarrow> Some (err, s)
         | Some f \<Rightarrow> do {
             (err, s) \<leftarrow> ext2_unmount f s;
             if err < 0 then Some (err, free_vfs f s)
             else do {
               (f, l) \<leftarrow> ll_remove (mnted s);
               Some (0, free_vfs f (s\<lparr>mnted := l\<rparr>))
             }
           }
       }
   }"

section \<open>Directory entries\<close>

definition enc16 :: "u16 \<Rightarrow> byte list" where "enc16 w = [ucast w, ucast (drop_bit 8 w)]"
definition enc32 :: "u32 \<Rightarrow> byte list" where "enc32 w = enc16 (ucast w) @ enc16 (ucast (drop_bit 16 w))"

lemma enc_length [simp]: "length (enc16 w) = 2" "length (enc32 v) = 4"
  by (simp_all add: enc16_def enc32_def)

lemma le16_enc: "le16 (pre @ enc16 w @ rest) (length pre) = Some w"
proof -
  have "ucast (ucast w :: byte) OR push_bit 8 (ucast (ucast (drop_bit 8 w) :: byte)) = w"
    by (rule bit_word_eqI) (auto simp: bit_simps)
  then show ?thesis by (simp add: le16_def enc16_def nth_append)
qed

lemma le32_enc: "le32 (pre @ enc32 w @ rest) (length pre) = Some w"
proof -
  have "ucast (ucast w :: u16) OR push_bit 16 (ucast (ucast (drop_bit 16 w) :: u16)) = w"
    by (rule bit_word_eqI) (auto simp: bit_simps)
  moreover have "le16 (pre @ enc32 w @ rest) (length pre + 2) = Some (ucast (drop_bit 16 w))"
    using le16_enc [of "pre @ enc16 (ucast w)" "ucast (drop_bit 16 w)" rest] by (simp add: enc32_def enc16_def)
  moreover have "le16 (pre @ enc32 w @ rest) (length pre) = Some (ucast w)"
    using le16_enc [of pre "ucast w" "enc16 (ucast (drop_bit 16 w)) @ rest"] by (simp add: enc32_def)
  ultimately show ?thesis by (simp add: le32_def)
qed

text \<open>
  A directory as it is on the disk: an entry has an inode number, a name and the padding behind
  the name up to the next entry.
\<close>

type_synonym entry = "u32 \<times> byte list \<times> byte list"

fun enc_entry :: "entry \<Rightarrow> byte list" where
  "enc_entry (inum, nm, pad) =
     enc32 inum @ enc16 (of_nat (8 + length nm + length pad)) @ [of_nat (length nm), 0] @ nm @ pad"

fun entry_ok :: "entry \<Rightarrow> bool" where
  "entry_ok (inum, nm, pad) \<longleftrightarrow> length nm \<le> 255 \<and> 8 + length nm + length pad < 2 ^ 16"

lemma enc_entry_length [simp]: "length (enc_entry (inum, nm, pad)) = 8 + length nm + length pad"
  by (simp add: enc32_def enc16_def)

lemma check_name_plain:
  assumes "63 \<notin> set src" "42 \<notin> set src" "length src \<le> length dest"
  shows "check_name dest nlen src = Some (if take (length src) dest = src \<and> length src = nlen then 0 else 1)"
proof -
  have "check_name_loop dest nlen src i i =
      Some (if take (length src - i) (drop i dest) = drop i src \<and> length src = nlen then 0 else 1)"
    if "i \<le> length src" for i
    using that
  proof (induction "length src - i" arbitrary: i)
    case 0
    then show ?case by (subst check_name_loop.simps) auto
  next
    case (Suc n)
    then have i: "i < length src" by simp
    then have d: "i < length dest" using assms(3) by simp
    have ne: "src ! i \<noteq> 63" "src ! i \<noteq> 42" using assms(1,2) i nth_mem by metis+
    have split: "take (length src - i) (drop i dest) = dest ! i # take (length src - Suc i) (drop (Suc i) dest)"
      "drop i src = src ! i # drop (Suc i) src"
      using i d Cons_nth_drop_Suc [of i dest] Cons_nth_drop_Suc [of i src]
      by (metis Suc_diff_Suc take_Suc_Cons, simp)
    have IH: "check_name_loop dest nlen src (Suc i) (Suc i) =
      Some (if take (length src - Suc i) (drop (Suc i) dest) = drop (Suc i) src \<and> length src = nlen then 0 else 1)"
      by (rule Suc.hyps(1)) (use Suc i in simp_all)
    show ?case by (subst check_name_loop.simps) (simp add: i d ne split IH)
  qed
  from this [of 0] show ?thesis by (simp add: check_name_def)
qed

lemma dir_scan_step:
  assumes "le16 d (p + 4) = Some len" "len \<noteq> 0" "aget d (p + 6) = Some nlen"
    "check_name (drop (p + 8) d) (unat nlen) name = Some r" "le32 d p = Some inum"
  shows "dir_scan d name p = (if r = 0 then Some (Some inum)
    else if length d \<le> p + unat len then Some None else dir_scan d name (p + unat len))"
  unfolding dir_scan.simps [of d name p] assms(1,3) Option.bind.bind_lunit assms(4,5) using assms(2) by simp

lemma dir_scan_encoded:
  assumes "es \<noteq> []" "\<forall>e \<in> set es. entry_ok e" "63 \<notin> set name" "42 \<notin> set name"
    "8 + length name \<le> length (enc_entry (last es))"
  shows "dir_scan (pre @ concat (map enc_entry es)) name (length pre) =
    Some (map_option fst (find (\<lambda>e. fst (snd e) = name) es))"
  using assms
proof (induction es arbitrary: pre)
  case (Cons e es)
  obtain inum nm pad where e: "e = (inum, nm, pad)" by (cases e)
  let ?len = "8 + length nm + length pad" and ?rest = "concat (map enc_entry es)"
  let ?d = "pre @ concat (map enc_entry (e # es))"
  have ok: "length nm \<le> 255" "?len < 2 ^ 16" using Cons.prems(2) by (simp_all add: e)
  have d: "?d = pre @ enc32 inum @ enc16 (of_nat ?len) @ [of_nat (length nm), 0] @ nm @ pad @ ?rest"
    by (simp add: e)
  have l32: "le32 ?d (length pre) = Some inum" unfolding d by (rule le32_enc)
  have l16: "le16 ?d (length pre + 4) = Some (of_nat ?len)"
    using le16_enc [of "pre @ enc32 inum" "of_nat ?len" "[of_nat (length nm), 0] @ nm @ pad @ ?rest"]
    unfolding d by simp
  have len: "unat (of_nat ?len :: u16) = ?len" using ok(2) by (simp only: unat_of_nat) simp
  then have nz: "(of_nat ?len :: u16) \<noteq> 0" by (metis add_is_0 unsigned_0 zero_neq_numeral)
  have nl: "aget ?d (length pre + 6) = Some (of_nat (length nm))" unfolding d
    by (simp add: nth_append enc32_def enc16_def)
  have "unat (of_nat (length nm) :: byte) = length nm" using ok(1) by (simp only: unat_of_nat) simp
  moreover have tl: "drop (length pre + 8) ?d = nm @ pad @ ?rest" unfolding d by (simp add: enc32_def enc16_def)
  moreover have long: "length name \<le> length (nm @ pad @ ?rest)"
  proof (cases "es = []")
    case True
    then show ?thesis using Cons.prems(5) by (simp add: e)
  next
    case False
    then obtain es' l where "es = es' @ [l]" by (cases es rule: rev_cases) auto
    then have "length (enc_entry (last es)) \<le> length ?rest" by simp
    then show ?thesis using Cons.prems(5) False by simp
  qed
  moreover have "take (length name) (nm @ pad @ ?rest) = name \<and> length name = length nm \<longleftrightarrow> nm = name"
    by auto
  ultimately have cn: "check_name (drop (length pre + 8) ?d) (unat (of_nat (length nm) :: byte)) name =
      Some (if nm = name then 0 else 1)"
    using check_name_plain [OF Cons.prems(3,4) long, of "length nm"] by simp
  note step = dir_scan_step [OF l16 nz nl cn l32, unfolded len]
  show ?case
  proof (cases "nm = name")
    case True
    then show ?thesis using step by (simp add: e)
  next
    case False
    have last_one: "length ?d \<le> length pre + ?len \<longleftrightarrow> es = []"
    proof -
      have "enc_entry x \<noteq> []" for x by (cases x) (simp add: enc32_def enc16_def)
      then have "?rest = [] \<longleftrightarrow> es = []" by (cases es) simp_all
      then show ?thesis by (auto simp: e)
    qed
    have step: "dir_scan ?d name (length pre) = (if es = [] then Some None else dir_scan ?d name (length pre + ?len))"
      using step False unfolding last_one by simp
    show ?thesis
    proof (cases "es = []")
      case True
      then show ?thesis using step False by (simp add: e)
    next
      case nonempty: False
      have "dir_scan ((pre @ enc_entry e) @ ?rest) name (length (pre @ enc_entry e)) =
          Some (map_option fst (find (\<lambda>e. fst (snd e) = name) es))"
        by (rule Cons.IH) (use Cons.prems nonempty in simp_all)
      then show ?thesis using step False nonempty by (simp add: e add.assoc)
    qed
  qed
qed simp

text \<open>
  C8. A directory block is read back as it was written: in a block made of the entries
  \<open>es\<close>, the search for a name without wildcards gives the inode number of the first entry
  with that name, or nothing when there is none, provided that the name does not reach behind the
  end of the block when it is compared with the last entry.
\<close>

theorem dir_scan_finds:
  assumes "es \<noteq> []" "\<forall>e \<in> set es. entry_ok e" "63 \<notin> set name" "42 \<notin> set name"
    "8 + length name \<le> length (enc_entry (last es))"
  shows "dir_scan (concat (map enc_entry es)) name 0 = Some (map_option fst (find (\<lambda>e. fst (snd e) = name) es))"
  using dir_scan_encoded [OF assms, of "[]"] by simp

theorem dir_scan_finds_witness:
  "dir_scan (concat (map enc_entry [(2, [46], [0, 0, 0]), (12, [97, 98], [0, 0]), (13, [97], replicate 20 0)])) [97] 0 = Some (Some 13)"
  using dir_scan_finds [of "[(2, [46], [0, 0, 0]), (12, [97, 98], [0, 0]), (13, [97], replicate 20 0)]" "[97]"]
  by simp

section \<open>Vnodes that go wrong\<close>

text \<open>
  A vnode that was released stays in the hash table. When it is got again it is not taken off the
  free list, so that a later \<open>vget\<close> for another file takes it away from its user.
\<close>

lemma vget_leaves_on_freelist:
  assumes "find_vnode dev inum s = Some (Some a)" "vnodes s a = Some v"
  shows "\<exists>s'. vget io (Some Ext2_vnode_ops) pvfs inum dev s = Some (Some a, s') \<and> vnfreelist s' = vnfreelist s \<and>
    vnodes s' a = Some (v\<lparr>v_count := v_count v + 1\<rparr>)"
  using assms by (simp add: vget_def upd_vnode_def)

text \<open>A change of attributes marks the vnode as dirty, and releasing its last reference then calls a null pointer.\<close>

lemma change_attr_undefined:
  assumes "vnodes s a = Some v" "v_count v = 1"
  shows "change_attr f a s = None"
proof -
  have d: "(v_flag v OR V_DIRTY) AND V_DIRTY \<noteq> 0"
  proof
    assume "(v_flag v OR V_DIRTY) AND V_DIRTY = 0"
    then have "\<not> bit ((v_flag v OR V_DIRTY) AND V_DIRTY) 3" by simp
    then show False by (simp add: bit_simps V_DIRTY_def)
  qed
  show ?thesis
    using assms d by (auto simp: change_attr_def vgetattr_def vputattr_def ext2_put_attr_def upd_vnode_def vput_def
      bind_eq_None_conv)
qed

lemma yield_for_ever_None: "yield_for_ever s = None"
proof (rule ccontr)
  assume "yield_for_ever s \<noteq> None"
  then obtain y where "yield_for_ever s = Some y" by auto
  then show False by (rule yield_for_ever.raw_induct [rotated]) blast
qed

lemma vfs_stat_never_returns: "vfs_stat io cwd path attr s = None" "vfs_fstat t fd attr ks s = None"
  by (simp_all add: vfs_stat_def vfs_fstat_def yield_for_ever_None)

section \<open>Reading through the server\<close>

text \<open>The kernel's view of an open descriptor: its file is at \<open>fa\<close>.\<close>

definition open_fd :: "int \<Rightarrow> int \<Rightarrow> addr \<Rightarrow> file_t \<Rightarrow> 'k kstate_scheme \<Rightarrow> bool" where
  "open_fd t fd fa f ks \<longleftrightarrow> superuser ks = Some True \<and> t \<noteq> 0 \<and>
     (\<exists>p th q. find_by_tid t ks = Some (Some p) \<and> threads ks p = Some th \<and> procs ks (t_proc th) = Some q \<and>
        file_at (t_proc th) fd ks = Some fa \<and> files ks fa = Some f)"

lemma get_openfile_open:
  assumes "open_fd t fd fa f ks" "0 \<le> fd"
  shows "get_openfile t fd ks = Some (fd, Some (to_fs f), ks)"
  using assms by (auto simp: open_fd_def get_openfile_def syscall_fd_free_def usys_def)

lemma put_openfile_writes_zero:
  assumes "open_fd t 0 fa f ks" "0 \<le> fd"
  shows "put_openfile junk None t fd file ks = Some (0, ks\<lparr>files := (files ks)(fa \<mapsto> from_fs file)\<rparr>)"
  using assms by (auto simp: open_fd_def put_openfile_def syscall_fd_alloc_def usys_def)


definition vfs_ex_file :: file_t where
  "vfs_ex_file = \<lparr>file_t.f_access = 0x400, f_offset = 1022, f_ref = 1, f_inode = 12, f_device = 0x30001\<rparr>"

definition vfs_ex_ks :: kstate where
  "vfs_ex_ks = fd_ex\<lparr>files := (files fd_ex)(91 \<mapsto> vfs_ex_file)\<rparr>"

definition vfs_ex :: fsstate where
  "vfs_ex = ext2_ex\<lparr>vnhash := \<lparr>heads = (replicate NWORDS None)[13 := Some 100], links = Map.empty\<rparr>\<rparr>"

lemma vfs_ex_open:
  "open_fd 501 2 91 vfs_ex_file vfs_ex_ks"
  "open_fd 501 0 90 \<lparr>file_t.f_access = 1, f_offset = 0, f_ref = 1, f_inode = 5, f_device = 1\<rparr> vfs_ex_ks"
proof -
  have "in_table 2 thread_ex_B" unfolding in_table_def by (intro exI [of _ 500]) (simp add: NWORDS_def)
  moreover have "tid_at thread_ex 2 = Some 501" by (simp add: tid_at_def thread_ex_def)
  ultimately have "find_by_tid 501 thread_ex = Some (Some 2)" by (rule thread_inv_find [OF thread_ex_inv])
  moreover have "tid_at vfs_ex_ks = tid_at thread_ex" by (rule ext) (simp add: tid_at_def vfs_ex_ks_def fd_ex_def)
  moreover have "thash vfs_ex_ks = thash thread_ex" by (simp add: vfs_ex_ks_def fd_ex_def)
  ultimately have f: "find_by_tid 501 vfs_ex_ks = Some (Some 2)" by (simp add: find_by_tid_def)
  have th: "threads vfs_ex_ks 2 = Some (thread0\<lparr>tid := 501, t_proc := 7, priority_stat := 40, priority_dyn := 40\<rparr>)"
    by (simp add: vfs_ex_ks_def fd_ex_def thread_ex_def)
  have fo: "fd_of 7 vfs_ex_ks = fd_of 7 fd_ex" by (simp add: vfs_ex_ks_def fd_of_def)
  have p: "procs vfs_ex_ks 7 \<noteq> None" "files vfs_ex_ks 91 = Some vfs_ex_file"
    "files vfs_ex_ks 90 = Some \<lparr>file_t.f_access = 1, f_offset = 0, f_ref = 1, f_inode = 5, f_device = 1\<rparr>"
    by (simp_all add: vfs_ex_ks_def fd_ex_def)
  have su: "superuser vfs_ex_ks = Some True"
    by (simp add: superuser_def cur_proc_def cur_thread_def vfs_ex_ks_def fd_ex_def thread_ex_def sched_ex_def process0_def)
  show "open_fd 501 2 91 vfs_ex_file vfs_ex_ks"
    "open_fd 501 0 90 \<lparr>file_t.f_access = 1, f_offset = 0, f_ref = 1, f_inode = 5, f_device = 1\<rparr> vfs_ex_ks"
    unfolding open_fd_def using f th p su by (auto simp: file_at_def fo fd_ex_fd MAX_DEF_FD_def)
qed

lemma vfs_ex_vnode:
  "find_vnode (f_device vfs_ex_file) (file_t.f_inode vfs_ex_file) vfs_ex = Some (Some 100)"
  "vn_fs 100 vfs_ex = Some (ext2_ex_vnode, ext2_ex_fs)"
  "cache_ok (blk_size ext2_ex_fs) (2 * (unat (4 :: u32) div unat (blk_size ext2_ex_fs) + 2)) vfs_ex"
proof -
  have h: "bhash_fn 12 0x30001 = 13" by (simp add: bhash_fn_def)
  show "find_vnode (f_device vfs_ex_file) (file_t.f_inode vfs_ex_file) vfs_ex = Some (Some 100)"
    by (simp add: find_vnode_def vfs_ex_def ext2_ex_def vfs_ex_file_def h NWORDS_def vnode_walk.simps ext2_ex_vnode_def)
  show "vn_fs 100 vfs_ex = Some (ext2_ex_vnode, ext2_ex_fs)"
    using ext2_ex_facts(1) by (simp add: vn_fs_def vfs_ex_def)
  show "cache_ok (blk_size ext2_ex_fs) (2 * (unat (4 :: u32) div unat (blk_size ext2_ex_fs) + 2)) vfs_ex"
    using ext2_ex_facts(4) by (simp add: cache_ok_def no_hits_def vfs_ex_def)
qed

lemma vfs_ex_data: "[5, 5, 7, 7] = take (unat (4 :: u32)) (drop (unat (of_int (file_t.f_offset vfs_ex_file) :: u32))
    (file_data ext2_ex_disk (v_ino ext2_ex_vnode) (unat (blk_size ext2_ex_fs))))"
  using ext2_ex_data by (simp add: ext2_ex_file_def vfs_ex_file_def)


end
