(* ===== verification/FsExec.thy ===== *)
theory FsExec
  imports Vfs VmPage
begin

unbundle bit_operations_syntax

text \<open>
  What the file server does for the memory manager and for executing programs:
  \<^verbatim>\<open>src/servers/fs-io/fs/binaries/elf.c\<close> and
  \<^verbatim>\<open>src/servers/fs-io/kernel_helper.c\<close>, and the handlers of the
  requests in \<^verbatim>\<open>src/servers/fs-io/msg.c\<close>.

  The field \<open>data\<close> of a vnode is the map \<open>execs\<close>. \<open>room\<close> is the size of the memory behind
  the pointer \<open>data\<close> of a request; what is written there is returned as a list.
\<close>

definition SHT_NOBITS :: u32 where "SHT_NOBITS = 8"
definition VM_MAP_FILE :: u32 where "VM_MAP_FILE = 0x80"
definition MAP_FIXED :: u32 where "MAP_FIXED = 4"
definition ID_FSIO_MNGR :: int where "ID_FSIO_MNGR = 2"
definition ENOTDIR :: int where "ENOTDIR = 0x39"
definition PATH_MAX :: nat where "PATH_MAX = 256"

section \<open>Executable files\<close>

record Elf32_Ehdr =
  e_entry :: u32
  e_phoff :: u32
  e_shoff :: u32
  e_phentsize :: u16
  e_phnum :: u16
  e_shentsize :: u16
  e_shnum :: u16

definition checkmagic :: "byte list \<Rightarrow> bool" where
  "checkmagic d \<longleftrightarrow> take 4 d = [0x7F, 0x45, 0x4C, 0x46]"

definition ehdr_at :: "byte list \<Rightarrow> Elf32_Ehdr option" where
  "ehdr_at d = do {
     entry \<leftarrow> le32 d 24;
     phoff \<leftarrow> le32 d 28;
     shoff \<leftarrow> le32 d 32;
     phentsize \<leftarrow> le16 d 42;
     phnum \<leftarrow> le16 d 44;
     shentsize \<leftarrow> le16 d 46;
     shnum \<leftarrow> le16 d 48;
     Some \<lparr>e_entry = entry, e_phoff = phoff, e_shoff = shoff, e_phentsize = phentsize, e_phnum = phnum,
       e_shentsize = shentsize, e_shnum = shnum\<rparr>
   }"

record exec_struct =
  header :: Elf32_Ehdr
  phdr :: "byte list"

record execstate = fsstate +
  execs :: "addr \<Rightarrow> exec_struct option"

text \<open>The first section that occupies memory and has no bytes in the file; \<open>n\<close> headers are left.\<close>

primrec noload_loop :: "byte list \<Rightarrow> nat \<Rightarrow> nat \<Rightarrow> nat \<Rightarrow> vn_object \<Rightarrow> vn_object option" where
  "noload_loop d p entsize 0 obj = Some obj"
| "noload_loop d p entsize (Suc n) obj = do {
     ty \<leftarrow> le32 d (p + 4);
     fl \<leftarrow> le32 d (p + 8);
     ad \<leftarrow> le32 d (p + 12);
     sz \<leftarrow> le32 d (p + 20);
     if ty = SHT_NOBITS \<and> fl AND 3 \<noteq> 0 then Some (obj\<lparr>noload_start := ad, noload_end := ad + sz\<rparr>)
     else noload_loop d (p + entsize) entsize n obj
   }"

text \<open>\<open>block_data\<close>: the buffer of a block of a file, and its content.\<close>

definition block_data :: "io_fn \<Rightarrow> addr \<Rightarrow> u32 \<Rightarrow> 'z fsstate_scheme \<Rightarrow> ((addr \<times> byte list) option \<times> 'z fsstate_scheme) option" where
  "block_data io a i s = do {
     (v, fs) \<leftarrow> vn_fs a s;
     (blk, s) \<leftarrow> ext2_bmap io a i s;
     (r, s) \<leftarrow> bread io (v_rdev v) blk (vfs.blk_size fs) s;
     case r of
       None \<Rightarrow> Some (None, s)
     | Some b \<Rightarrow> do { bc \<leftarrow> bufs s b; Some (Some (b, b_data bc), s) }
   }"

text \<open>A header with a wrong magic number leaves its buffer unreleased. Both allocations are used without a test.\<close>

definition read_header :: "io_fn \<Rightarrow> addr \<Rightarrow> vn_object \<Rightarrow> 'z fsstate_scheme \<Rightarrow>
  (exec_struct option \<times> vn_object \<times> 'z fsstate_scheme) option" where
  "read_header io a obj s = do {
     (v, fs) \<leftarrow> vn_fs a s;
     if ops v \<noteq> Some Ext2_vnode_ops then Some (None, obj, s)
     else do {
       (r, s) \<leftarrow> block_data io a 0 s;
       case r of
         None \<Rightarrow> Some (None, obj, s)
       | Some (b, d) \<Rightarrow>
           if \<not> checkmagic d then Some (None, obj, s)
           else do {
             hdr \<leftarrow> ehdr_at d;
             let bs = vfs.blk_size fs;
             check (bs \<noteq> 0);
             let off = e_shoff hdr div bs;
             (r, s) \<leftarrow> (if off \<noteq> 0 then block_data io a off s else Some (Some (b, d), s));
             case r of
               None \<Rightarrow> do { (_, s) \<leftarrow> brelse b s; Some (None, obj, s) }
             | Some (b1, d1) \<Rightarrow> do {
                 let sh = (if off \<noteq> 0 then unat (e_shoff hdr mod bs) else unat (e_shoff hdr));
                 obj \<leftarrow> noload_loop d1 sh (unat (e_shentsize hdr)) (unat (e_shnum hdr)) obj;
                 let phsize = unat (e_phentsize hdr) * unat (e_phnum hdr);
                 check (2 \<le> length (fresh s));
                 check (unat (e_phoff hdr) + phsize \<le> length d);
                 let ex = \<lparr>header = hdr, phdr = take phsize (drop (unat (e_phoff hdr)) d)\<rparr>;
                 let s = s\<lparr>fresh := drop 2 (fresh s)\<rparr>;
                 s \<leftarrow> (if off \<noteq> 0 then map_option snd (brelse b1 s) else Some s);
                 (_, s) \<leftarrow> brelse b s;
                 Some (Some ex, obj, s)
               }
           }
     }
   }"

definition open_elf :: "io_fn \<Rightarrow> addr \<Rightarrow> vn_object \<Rightarrow> 'z execstate_scheme \<Rightarrow>
  (int \<times> vn_object \<times> 'z execstate_scheme) option" where
  "open_elf io a obj s = do {
     (r, obj, s) \<leftarrow> read_header io a obj s;
     case r of
       None \<Rightarrow> Some (- 1, obj, s)
     | Some ex \<Rightarrow> Some (0, obj\<lparr>vn_va := e_entry (header ex)\<rparr>, s\<lparr>execs := (execs s)(a \<mapsto> ex)\<rparr>)
   }"

text \<open>The loop that copies whole blocks; its counter is decremented before it is tested.\<close>

partial_function (option) copy_blocks :: "io_fn \<Rightarrow> addr \<Rightarrow> nat \<Rightarrow> u32 \<Rightarrow> u32 \<Rightarrow> byte list \<Rightarrow> 'z fsstate_scheme \<Rightarrow>
  (int \<times> byte list \<times> 'z fsstate_scheme) option" where
  "copy_blocks io a room n off out s = do {
     (r, s) \<leftarrow> block_data io a off s;
     case r of
       None \<Rightarrow> Some (- 1, out, s)
     | Some (b, d) \<Rightarrow> do {
         check (length out + length d \<le> room);
         (_, s) \<leftarrow> brelse b s;
         if n - 1 \<noteq> 0 then copy_blocks io a room (n - 1) (off + 1) (out @ d) s else Some (0, out @ d, s)
       }
   }"

definition read_file :: "io_fn \<Rightarrow> addr \<Rightarrow> vn_object \<Rightarrow> nat \<Rightarrow> u32 \<Rightarrow> u32 \<Rightarrow> 'z fsstate_scheme \<Rightarrow>
  (int \<times> byte list \<times> 'z fsstate_scheme) option" where
  "read_file io a ob room p_offset p_vaddr s = do {
     (v, fs) \<leftarrow> vn_fs a s;
     let bs = vfs.blk_size fs;
     check (bs \<noteq> 0);
     let n = vn_size ob div bs;
     let off = (vn_va ob - p_vaddr) div bs;
     let off = (if bs \<le> p_offset then off + p_offset div bs else off);
     copy_blocks io a room n off [] s
   }"

text \<open>The segment an address lies in, both ends included: where its bytes are in the file and in memory.\<close>

partial_function (option) find_segment :: "byte list \<Rightarrow> nat \<Rightarrow> nat \<Rightarrow> u32 \<Rightarrow> nat \<Rightarrow> (u32 \<times> u32) option option" where
  "find_segment d entsize num va index = do {
     off \<leftarrow> le32 d (entsize * index + 4);
     vaddr \<leftarrow> le32 d (entsize * index + 8);
     filesz \<leftarrow> le32 d (entsize * index + 16);
     if vaddr \<le> va \<and> va \<le> vaddr + filesz then Some (Some (off, vaddr))
     else if index + 1 < num then find_segment d entsize num va (index + 1)
     else Some None
   }"

definition elf_read_data :: "io_fn \<Rightarrow> addr \<Rightarrow> vn_object \<Rightarrow> nat \<Rightarrow> 'z execstate_scheme \<Rightarrow>
  (int \<times> byte list \<times> 'z execstate_scheme) option" where
  "elf_read_data io a obj room s = do {
     ex \<leftarrow> execs s a;
     r \<leftarrow> find_segment (phdr ex) (unat (e_phentsize (header ex))) (unat (e_phnum (header ex))) (vn_va obj) 0;
     case r of
       None \<Rightarrow> Some (0, [], s)
     | Some (off, vaddr) \<Rightarrow> read_file io a obj room off vaddr s
   }"

section \<open>Requests of the memory manager\<close>

definition read_file_data :: "io_fn \<Rightarrow> addr \<Rightarrow> vn_object \<Rightarrow> nat \<Rightarrow> 'z fsstate_scheme \<Rightarrow>
  (int \<times> byte list \<times> vn_object \<times> 'z fsstate_scheme) option" where
  "read_file_data io a ob room s = do {
     (v, fs) \<leftarrow> vn_fs a s;
     let bs = vfs.blk_size fs;
     check (bs \<noteq> 0);
     let sz = (if vn_page_size ob \<le> of_int (vn_object.blk_size ob) then of_int (vn_object.blk_size ob) else vn_page_size ob);
     (ret, d, s) \<leftarrow> copy_blocks io a room (sz div bs) (vn_offset ob div bs) [] s;
     Some (ret, d, ob\<lparr>vn_offset := vn_offset ob + sz\<rparr>, s)
   }"

definition fs_data_request :: "io_fn \<Rightarrow> int \<Rightarrow> vn_object option \<Rightarrow> nat \<Rightarrow> 'k kstate_scheme \<Rightarrow> 'z execstate_scheme \<Rightarrow>
  (int \<times> byte list \<times> 'k kstate_scheme \<times> 'z execstate_scheme) option" where
  "fs_data_request io t ob room ks s = (case ob of
     None \<Rightarrow> Some (- 1, [], ks, s)
   | Some ob \<Rightarrow> do {
       (err, f, ks) \<leftarrow> get_openfile t (vn_fd ob) ks;
       if err < 0 then Some (err, [], ks, s)
       else do {
         file \<leftarrow> f;
         r \<leftarrow> find_vnode (f_dev file) (f_inode file) s;
         case r of
           None \<Rightarrow> Some (- 1, [], ks, s)
         | Some a \<Rightarrow>
             if map_type ob AND VM_MAP_FILE \<noteq> 0 then do {
               (ret, d, _, s) \<leftarrow> read_file_data io a ob room s;
               Some (ret, d, ks, s)
             }
             else do {
               (ret, d, s) \<leftarrow> elf_read_data io a ob room s;
               Some (ret, d, ks, s)
             }
       }
     })"

definition do_exec :: "io_fn \<Rightarrow> int \<Rightarrow> (addr \<times> file_t) option \<Rightarrow> u32 \<times> u32 \<Rightarrow> int \<Rightarrow> byte list \<Rightarrow> vn_object \<Rightarrow>
  'k kstate_scheme \<Rightarrow> 'z execstate_scheme \<Rightarrow> (int \<times> vn_object \<times> 'k kstate_scheme \<times> 'z execstate_scheme) option" where
  "do_exec io junk mem cwd t path vno ks s = do {
     (r, _, s) \<leftarrow> vfs_namev io cwd path O_RDONLY s;
     case r of
       None \<Rightarrow> Some (- 1, vno, ks, s)
     | Some a \<Rightarrow> do {
         attr \<leftarrow> vgetattr a vattr0 s;
         if \<not> S_ISREG (st_mode attr) then do { s \<leftarrow> vput a s; Some (- EINVAL, vno, ks, s) }
         else do {
           (ea, vno, s) \<leftarrow> open_elf io a vno s;
           if ea < 0 then do { s \<leftarrow> vput a s; Some (ea, vno, ks, s) }
           else do {
             (v, fs) \<leftarrow> vn_fs a s;
             let file = \<lparr>fs_file.f_access = of_int ea, f_offset = 0, f_ref = 0, f_inode = v_inum v, f_dev = v_rdev v\<rparr>;
             (fd, ks) \<leftarrow> put_openfile junk mem t (- 1) file ks;
             Some (0, vno\<lparr>vn_fd := fd, vn_object.blk_size := uint (vfs.blk_size fs), map_type := MAP_FIXED,
               vn_size := st_size attr, pager_id := ID_FSIO_MNGR\<rparr>, ks, s)
           }
         }
       }
   }"

text \<open>
  \<open>old\<close> is the path of the current directory as the kernel has it. The new one overwrites it:
  both copies go to the beginning of the array. The result is what the kernel is given.
\<close>

definition fs_chdir :: "io_fn \<Rightarrow> u32 \<times> u32 \<Rightarrow> byte list \<Rightarrow> 'z fsstate_scheme \<Rightarrow>
  (int \<times> (u32 \<times> u32 \<times> byte list) option \<times> 'z fsstate_scheme) option" where
  "fs_chdir io cwd path s = do {
     (r, ea, s) \<leftarrow> vfs_namev io cwd path O_RDONLY s;
     case r of
       None \<Rightarrow> Some (ea, None, s)
     | Some a \<Rightarrow> do {
         v \<leftarrow> vnodes s a;
         if \<not> S_ISDIR (v_type v) then Some (- ENOTDIR, None, s)
         else do {
           c0 \<leftarrow> str_at path 0;
           if c0 = 47 then Some (0, Some (v_inum v, v_rdev v, path), s)
           else do {
             c1 \<leftarrow> (if c0 = 46 then str_at path 1 else Some 0);
             let p = (if c0 = 46 \<and> c1 \<noteq> 46 then tl path else path);
             check (length p < PATH_MAX);
             Some (0, Some (v_inum v, v_rdev v, p), s)
           }
         }
       }
   }"

section \<open>Handlers of requests\<close>

text \<open>
  The handlers fill in the word \<open>w1\<close> of the message and send it back. The pointers of a message are
  arguments: the path or the data sent, and the place for the answer. \<open>msg_stat\<close> calls
  \<open>vfs_chmod\<close> and takes the address of the place for the answer for the mode.
\<close>

definition msg_open :: "io_fn \<Rightarrow> chr_tab \<Rightarrow> (u32 \<Rightarrow> int option) \<Rightarrow> int \<Rightarrow> (addr \<times> file_t) option \<Rightarrow> u32 \<times> u32 \<Rightarrow> byte list \<Rightarrow>
  message \<Rightarrow> 'k kstate_scheme \<Rightarrow> 'z fsstate_scheme \<Rightarrow> (message \<times> 'k kstate_scheme \<times> 'z fsstate_scheme) option" where
  "msg_open io cd bopen junk mem cwd path m ks s = do {
     (ret, access, ks, s) \<leftarrow> vfs_open io cd bopen junk mem cwd (m_tid m) path (sint (w4 m)) ks s;
     Some (m\<lparr>w4 := of_int access, w1 := of_int ret\<rparr>, ks, s)
   }"

definition msg_close :: "message \<Rightarrow> 'k kstate_scheme \<Rightarrow> 'z fsstate_scheme \<Rightarrow>
  (message \<times> 'k kstate_scheme \<times> 'z fsstate_scheme) option" where
  "msg_close m ks s = do {
     (ret, ks, s) \<leftarrow> vfs_close (m_tid m) (sint (w4 m)) ks s;
     Some (m\<lparr>w1 := of_int ret\<rparr>, ks, s)
   }"

definition msg_read :: "io_fn \<Rightarrow> chr_tab \<Rightarrow> int \<Rightarrow> u32 \<Rightarrow> message \<Rightarrow> 'k kstate_scheme \<Rightarrow> 'z fsstate_scheme \<Rightarrow>
  (message \<times> byte list \<times> 'k kstate_scheme \<times> 'z fsstate_scheme) option" where
  "msg_read io cd junk rcv_bufsize m ks s = do {
     (ret, d, ks, s) \<leftarrow> vfs_read io cd junk (m_tid m) (sint (w2 m)) rcv_bufsize ks s;
     Some (m\<lparr>w1 := of_int ret\<rparr>, d, ks, s)
   }"

definition msg_write :: "chr_tab \<Rightarrow> int \<Rightarrow> byte list \<Rightarrow> message \<Rightarrow> 'k kstate_scheme \<Rightarrow> 'z fsstate_scheme \<Rightarrow>
  (message \<times> 'k kstate_scheme) option" where
  "msg_write cd junk buf m ks s = do {
     (ret, ks) \<leftarrow> vfs_write cd junk (m_tid m) (sint (w4 m)) buf ks s;
     Some (m\<lparr>w1 := of_int ret\<rparr>, ks)
   }"

definition msg_access :: "io_fn \<Rightarrow> u32 \<times> u32 \<Rightarrow> int \<Rightarrow> byte list \<Rightarrow> message \<Rightarrow> 'z fsstate_scheme \<Rightarrow>
  (message \<times> 'z fsstate_scheme) option" where
  "msg_access io cwd junk path m s = do {
     (ret, s) \<leftarrow> vfs_access io cwd junk path (sint (w4 m)) s;
     Some (m\<lparr>w1 := of_int ret\<rparr>, s)
   }"

definition msg_chdir :: "io_fn \<Rightarrow> u32 \<times> u32 \<Rightarrow> byte list \<Rightarrow> message \<Rightarrow> 'z fsstate_scheme \<Rightarrow>
  (message \<times> (u32 \<times> u32 \<times> byte list) option \<times> 'z fsstate_scheme) option" where
  "msg_chdir io cwd path m s = do {
     (ret, new, s) \<leftarrow> fs_chdir io cwd path s;
     Some (m\<lparr>w1 := of_int ret\<rparr>, new, s)
   }"

definition msg_chown :: "io_fn \<Rightarrow> u32 \<times> u32 \<Rightarrow> byte list \<Rightarrow> message \<Rightarrow> 'z fsstate_scheme \<Rightarrow> (message \<times> 'z fsstate_scheme) option" where
  "msg_chown io cwd path m s = do {
     (ret, s) \<leftarrow> vfs_chown io cwd path (w4 m) (w5 m) s;
     Some (m\<lparr>w1 := of_int ret\<rparr>, s)
   }"

definition msg_exec :: "io_fn \<Rightarrow> int \<Rightarrow> (addr \<times> file_t) option \<Rightarrow> u32 \<times> u32 \<Rightarrow> byte list \<Rightarrow> vn_object \<Rightarrow> message \<Rightarrow>
  'k kstate_scheme \<Rightarrow> 'z execstate_scheme \<Rightarrow> (message \<times> vn_object \<times> 'k kstate_scheme \<times> 'z execstate_scheme) option" where
  "msg_exec io junk mem cwd path ob m ks s = do {
     (ret, ob, ks, s) \<leftarrow> do_exec io junk mem cwd (m_tid m) path ob ks s;
     Some (m\<lparr>w1 := of_int ret\<rparr>, ob, ks, s)
   }"

definition msg_chmod :: "io_fn \<Rightarrow> u32 \<times> u32 \<Rightarrow> byte list \<Rightarrow> message \<Rightarrow> 'z fsstate_scheme \<Rightarrow> (message \<times> 'z fsstate_scheme) option" where
  "msg_chmod io cwd path m s = do {
     (ret, s) \<leftarrow> vfs_chmod io cwd path (w4 m) s;
     Some (m\<lparr>w1 := of_int ret\<rparr>, s)
   }"

definition msg_stat :: "io_fn \<Rightarrow> u32 \<times> u32 \<Rightarrow> byte list \<Rightarrow> u32 \<Rightarrow> message \<Rightarrow> 'z fsstate_scheme \<Rightarrow>
  (message \<times> 'z fsstate_scheme) option" where
  "msg_stat io cwd path rcv_ptr m s = do {
     (ret, s) \<leftarrow> vfs_chmod io cwd path rcv_ptr s;
     Some (m\<lparr>w1 := of_int ret\<rparr>, s)
   }"

definition msg_fstat :: "vattr \<Rightarrow> message \<Rightarrow> 'k kstate_scheme \<Rightarrow> 'z fsstate_scheme \<Rightarrow>
  (message \<times> vattr \<times> 'k kstate_scheme) option" where
  "msg_fstat attr m ks s = do {
     (ret, attr, ks) \<leftarrow> vfs_fstat (m_tid m) (sint (w2 m)) attr ks s;
     Some (m\<lparr>w1 := of_int ret\<rparr>, attr, ks)
   }"

definition msg_data_req :: "io_fn \<Rightarrow> vn_object option \<Rightarrow> nat \<Rightarrow> message \<Rightarrow> 'k kstate_scheme \<Rightarrow> 'z execstate_scheme \<Rightarrow>
  (message \<times> byte list \<times> 'k kstate_scheme \<times> 'z execstate_scheme) option" where
  "msg_data_req io ob room m ks s = do {
     (ret, d, ks, s) \<leftarrow> fs_data_request io (m_tid m) ob room ks s;
     Some (m\<lparr>w1 := of_int ret\<rparr>, d, ks, s)
   }"

section \<open>Pages of mapped files\<close>

lemma block_data_ok:
  assumes "vn_fs a s = Some (v, fs)" "small_file (v_ino v) fs" "unat i < 12 + unat (vfs.blk_size fs) div 4"
    "cache_ok (vfs.blk_size fs) (2 + n) s" "disk_ok io (v_rdev v) (vfs.blk_size fs) disk"
  obtains b s1 s2 where "block_data io a i s = Some (Some (b, disk (file_blkno disk (v_ino v) (unat i))), s1)"
    "brelse b s1 = Some (0, s2)" "cache_ok (vfs.blk_size fs) n s2" "cache_step s s2"
proof -
  obtain s0 where s0: "ext2_bmap io a i s = Some (file_blkno disk (v_ino v) (unat i), s0)"
    "cache_ok (vfs.blk_size fs) (Suc n) s0" "cache_step s s0"
    by (rule ext2_bmap_ok [OF assms(1-3) _ assms(5), of "Suc n"]) (use assms(4) in simp_all)
  obtain b bc s1 s2 where r: "bread io (v_rdev v) (file_blkno disk (v_ino v) (unat i)) (vfs.blk_size fs) s0 = Some (Some b, s1)"
    "bufs s1 b = Some bc" "b_data bc = disk (file_blkno disk (v_ino v) (unat i))"
    "brelse b s1 = Some (0, s2)" "cache_ok (vfs.blk_size fs) n s2" "cache_step s0 s1" "cache_step s0 s2"
    by (rule bread_ok [OF s0(2) assms(5)])
  show ?thesis
    by (rule that [of b s1 s2])
      (use assms(1) s0(1) r cache_step_trans [OF s0(3) r(7)] in \<open>simp_all add: block_data_def\<close>)
qed

lemma copy_blocks_ok:
  assumes "vn_fs a s = Some (v, fs)" "small_file (v_ino v) fs" "disk_ok io (v_rdev v) (vfs.blk_size fs) disk"
    "cache_ok (vfs.blk_size fs) (2 * Suc k) s" "unat off + Suc k \<le> 12 + unat (vfs.blk_size fs) div 4"
    "length out + Suc k * unat (vfs.blk_size fs) \<le> room" "n = of_nat (Suc k)"
  shows "\<exists>s'. copy_blocks io a room n off out s = Some (0, out @
      concat (map (\<lambda>i. disk (file_blkno disk (v_ino v) (unat off + i))) [0..<Suc k]), s') \<and> cache_step s s'"
  using assms
proof (induction k arbitrary: s off out n)
  case 0
  obtain b s1 s2 where r: "block_data io a off s = Some (Some (b, disk (file_blkno disk (v_ino v) (unat off))), s1)"
    "brelse b s1 = Some (0, s2)" "cache_step s s2"
    by (rule block_data_ok [OF "0.prems"(1,2) _ _ "0.prems"(3), of off 0]) (use "0.prems" in simp_all)
  have "copy_blocks io a room n off out s = Some (0, out @ disk (file_blkno disk (v_ino v) (unat off)), s2)"
    using r "0.prems"(6,7) disk_len [OF "0.prems"(3)] by (subst copy_blocks.simps) simp
  then show ?case using r(3) by simp
next
  case (Suc k)
  let ?blk = "\<lambda>i. disk (file_blkno disk (v_ino v) i)"
  obtain b s1 s2 where r: "block_data io a off s = Some (Some (b, ?blk (unat off)), s1)"
    "brelse b s1 = Some (0, s2)" "cache_ok (vfs.blk_size fs) (2 * Suc k) s2" "cache_step s s2"
    by (rule block_data_ok [OF Suc.prems(1,2) _ _ Suc.prems(3), of off "2 * Suc k"]) (use Suc.prems in simp_all)
  have b: "unat (vfs.blk_size fs) \<le> 4096" using Suc.prems(2) by (simp add: small_file_def word_le_nat_alt)
  have bound: "unat off + Suc (Suc k) \<le> 12 + 4096 div 4" using Suc.prems(5) b by linarith
  then have off: "unat (off + 1) = unat off + 1" by (simp add: unat_word_ariths)
  have k: "(of_nat (Suc k) :: u32) \<noteq> 0"
  proof
    assume "(of_nat (Suc k) :: u32) = 0"
    then have "unat (of_nat (Suc k) :: u32) = 0" by simp
    moreover have "unat (of_nat (Suc k) :: u32) = Suc k" using bound by (simp only: unat_of_nat) simp
    ultimately show False by simp
  qed
  have n: "n - 1 = of_nat (Suc k)" using Suc.prems(7) by simp
  have "\<exists>s'. copy_blocks io a room (of_nat (Suc k)) (off + 1) (out @ ?blk (unat off)) s2 =
    Some (0, (out @ ?blk (unat off)) @ concat (map (\<lambda>i. ?blk (unat (off + 1) + i)) [0..<Suc k]), s') \<and> cache_step s2 s'"
  proof (rule Suc.IH)
    show "vn_fs a s2 = Some (v, fs)" using cache_step_fs(3) [OF r(4)] Suc.prems(1) by simp
  qed (use Suc.prems r(3) off disk_len [OF Suc.prems(3)] in \<open>simp_all add: algebra_simps\<close>)
  then obtain s' where s': "copy_blocks io a room (of_nat (Suc k)) (off + 1) (out @ ?blk (unat off)) s2 =
    Some (0, (out @ ?blk (unat off)) @ concat (map (\<lambda>i. ?blk (unat (off + 1) + i)) [0..<Suc k]), s')" "cache_step s2 s'" by blast
  have split: "map (\<lambda>i. ?blk (unat off + i)) [0..<Suc (Suc k)] = ?blk (unat off) # map (\<lambda>i. ?blk (unat (off + 1) + i)) [0..<Suc k]"
    by (simp add: upt_conv_Cons map_Suc_upt [symmetric] off comp_def del: upt_Suc)
  have room: "length out + length (?blk (unat off)) \<le> room" using Suc.prems(6) disk_len [OF Suc.prems(3)] by simp
  have "copy_blocks io a room n off out s = copy_blocks io a room (of_nat (Suc k)) (off + 1) (out @ ?blk (unat off)) s2"
    by (subst copy_blocks.simps) (simp add: r room n k del: of_nat_Suc)
  then show ?case using s' cache_step_trans [OF r(4) s'(2)] unfolding split by auto
qed

lemma file_blocks_data:
  assumes "(j + m) * bs \<le> unat (i_size ino)" "0 < bs" "\<And>b. length (disk b) = bs"
  shows "concat (map (\<lambda>i. disk (file_blkno disk ino (j + i))) [0..<m]) = take (m * bs) (drop (j * bs) (file_data disk ino bs))"
  using assms(1)
proof (induction m)
  case (Suc m)
  have le: "(j + m) * bs + bs \<le> unat (i_size ino)" using Suc.prems by (simp add: add_mult_distrib)
  have "take bs (drop ((j + m) * bs) (file_data disk ino bs)) = disk (file_blkno disk ino (j + m))"
    using file_data_slice [of "(j + m) * bs" bs bs ino disk] le assms(2,3) by simp
  moreover have "take (Suc m * bs) xs = take (m * bs) xs @ take bs (drop (m * bs) xs)" for xs :: "byte list"
    using take_add [of "m * bs" bs xs] by (simp add: add.commute)
  ultimately show ?case using Suc by (simp add: add_mult_distrib add.commute)
qed simp


definition page_ex_vnode :: vnode where
  "page_ex_vnode = ext2_ex_vnode\<lparr>v_ino := (v_ino ext2_ex_vnode)\<lparr>i_size := 5000,
     i_block := [5, 6, 7, 8, 9, 0, 0, 0, 0, 0, 0, 0, 0, 0, 0]\<rparr>\<rparr>"

definition page_ex :: execstate where
  "page_ex = fsstate.extend (vfs_ex\<lparr>vnodes := [100 \<mapsto> page_ex_vnode], fresh := [1, 2, 3, 4, 5, 6, 7, 8]\<rparr>) (execstate.fields Map.empty)"

definition page_ex_ob :: vn_object where
  "page_ex_ob = \<lparr>vn_fd = 2, blk_size = 1024, vn_page_size = 4096, vn_va = 0x400000, vn_offset = 0, map_type = VM_MAP_FILE,
     protection = 0, vn_size = 4096, pager_id = ID_FSIO_MNGR, noload_start = 0, noload_end = 0\<rparr>"

lemma page_ex_facts:
  "find_vnode (f_device vfs_ex_file) (file_t.f_inode vfs_ex_file) page_ex = Some (Some 100)"
  "vn_fs 100 page_ex = Some (page_ex_vnode, ext2_ex_fs)"
  "small_file (v_ino page_ex_vnode) ext2_ex_fs"
  "disk_ok ext2_ex_io (v_rdev page_ex_vnode) (vfs.blk_size ext2_ex_fs) ext2_ex_disk"
  "cache_ok (vfs.blk_size ext2_ex_fs) (2 * Suc 3) page_ex"
proof -
  have h: "bhash_fn 12 0x30001 = 13" by (simp add: bhash_fn_def)
  note ex = page_ex_def vfs_ex_def ext2_ex_def fsstate.defs execstate.defs
  show "find_vnode (f_device vfs_ex_file) (file_t.f_inode vfs_ex_file) page_ex = Some (Some 100)"
    by (simp add: find_vnode_def ex vfs_ex_file_def h NWORDS_def vnode_walk.simps page_ex_vnode_def ext2_ex_vnode_def)
  show "vn_fs 100 page_ex = Some (page_ex_vnode, ext2_ex_fs)"
    by (simp add: vn_fs_def ex page_ex_vnode_def ext2_ex_vnode_def)
  show "small_file (v_ino page_ex_vnode) ext2_ex_fs"
    by (simp add: small_file_def page_ex_vnode_def ext2_ex_fs_def)
  show "disk_ok ext2_ex_io (v_rdev page_ex_vnode) (vfs.blk_size ext2_ex_fs) ext2_ex_disk"
    using ext2_ex_facts(3) by (simp add: page_ex_vnode_def)
  show "cache_ok (vfs.blk_size ext2_ex_fs) (2 * Suc 3) page_ex"
    by (simp add: cache_ok_def no_hits_def ex ext2_ex_fs_def list_index_def MINSZ_def bits_of.simps
      htab_empty_def NWORDS_def FREELIST_def)
qed


end
