(* ===== verification/Pool.thy ===== *)
theory Pool
  imports KState "HOL-Library.Multiset"
begin

text \<open>
  The pool of worker threads of a server: \<^verbatim>\<open>src/soft/libc/kernel/svrpool.c\<close> and
  the workers of the file server in \<^verbatim>\<open>src/servers/fs-io/main.c\<close>.

  The main thread takes the first free place of the pool, receives a message into it and
  signals the thread of the place; the thread handles the request and frees the place. The threads
  run in any order, which is the step relation \<open>pool_step\<close>: \<open>W\<close> are the places whose thread was
  signalled and has not finished. The result is that no request is lost or handled twice.
\<close>

definition POOL_INIT :: u32 where "POOL_INIT = 0"
definition POOL_BUSY :: u32 where "POOL_BUSY = 2"
definition MAX_FS_POOL :: nat where "MAX_FS_POOL = 5"

record poolstruct =
  pl_flag :: u32
  pl_request :: u32
  pl_msg :: message

record thrpool =
  pool :: "poolstruct list"
  pool_bitmap :: u32

definition message0 :: message where
  "message0 = \<lparr>w1 = 0, w2 = 0, w3 = 0, w4 = 0, w5 = 0, m_tid = 0, m_flags = 0\<rparr>"

definition pool_init :: "nat \<Rightarrow> thrpool" where
  "pool_init n = \<lparr>pool = replicate n \<lparr>pl_flag = POOL_INIT, pl_request = 0, pl_msg = message0\<rparr>, pool_bitmap = 0\<rparr>"

text \<open>
  One turn of the loop of the main thread. \<open>junk\<close> is what the search for a clear bit gives when there
  is none; without a place the alternative worker is started and no message is received.
\<close>

definition msg_loop_turn :: "int \<Rightarrow> message \<Rightarrow> thrpool \<Rightarrow> (nat option \<times> thrpool) option" where
  "msg_loop_turn junk m tp = do {
     let bitpos = (case ffc (pool_bitmap tp) of None \<Rightarrow> junk | Some i \<Rightarrow> int i);
     if bitpos < 0 \<or> 31 < bitpos then Some (None, tp)
     else do {
       bm \<leftarrow> set_bit_k (pool_bitmap tp) (nat bitpos);
       thr \<leftarrow> aget (pool tp) (nat bitpos);
       let thr = thr\<lparr>pl_msg := m, pl_flag := or (pl_flag thr) POOL_BUSY, pl_request := w1 m\<rparr>;
       Some (Some (nat bitpos), tp\<lparr>pool := (pool tp)[nat bitpos := thr], pool_bitmap := bm\<rparr>)
     }
   }"

text \<open>One turn of the worker with the place \<open>off\<close>: the request and the message that are handled.\<close>

definition fs_worker_turn :: "nat \<Rightarrow> thrpool \<Rightarrow> (u32 \<times> message \<times> thrpool) option" where
  "fs_worker_turn off tp = do {
     thr \<leftarrow> aget (pool tp) off;
     bm \<leftarrow> clear_bit_k (pool_bitmap tp) off;
     Some (pl_request thr, pl_msg thr, tp\<lparr>pool_bitmap := bm\<rparr>)
   }"

datatype pool_event = Accept nat message | Serve nat message

inductive pool_step :: "thrpool \<times> nat set \<Rightarrow> pool_event \<Rightarrow> thrpool \<times> nat set \<Rightarrow> bool" where
  accept: "msg_loop_turn junk m tp = Some (Some i, tp') \<Longrightarrow> pool_step (tp, W) (Accept i m) (tp', insert i W)"
| serve: "i \<in> W \<Longrightarrow> fs_worker_turn i tp = Some (r, m, tp') \<Longrightarrow> pool_step (tp, W) (Serve i m) (tp', W - {i})"

inductive pool_run :: "thrpool \<times> nat set \<Rightarrow> pool_event list \<Rightarrow> thrpool \<times> nat set \<Rightarrow> bool" where
  start: "pool_run s [] s"
| step: "pool_run s tr s' \<Longrightarrow> pool_step s' e s'' \<Longrightarrow> pool_run s (tr @ [e]) s''"

fun accepted :: "pool_event list \<Rightarrow> (nat \<times> message) list" where
  "accepted [] = []"
| "accepted (Accept i m # tr) = (i, m) # accepted tr"
| "accepted (Serve i m # tr) = accepted tr"

fun served :: "pool_event list \<Rightarrow> (nat \<times> message) list" where
  "served [] = []"
| "served (Accept i m # tr) = served tr"
| "served (Serve i m # tr) = (i, m) # served tr"

lemma accepted_append [simp]: "accepted (tr @ tr') = accepted tr @ accepted tr'"
  by (induction tr rule: accepted.induct) simp_all

lemma served_append [simp]: "served (tr @ tr') = served tr @ served tr'"
  by (induction tr rule: served.induct) simp_all

text \<open>The places that are taken are those with work to do, and the requests still to be handled are in them.\<close>

definition waiting_msgs :: "thrpool \<times> nat set \<Rightarrow> (nat \<times> message) multiset" where
  "waiting_msgs s = image_mset (\<lambda>i. (i, pl_msg (pool (fst s) ! i))) (mset_set (snd s))"

definition pool_inv :: "thrpool \<times> nat set \<Rightarrow> bool" where
  "pool_inv s \<longleftrightarrow> snd s = {i. bit (pool_bitmap (fst s)) i} \<and> (\<forall>i \<in> snd s. i < length (pool (fst s))) \<and>
     length (pool (fst s)) < 32"

lemma pool_inv_finite:
  assumes "pool_inv s"
  shows "finite (snd s)"
proof (rule finite_subset)
  show "snd s \<subseteq> {..<32}" using assms unfolding pool_inv_def by (meson lessThan_iff less_trans subsetI)
qed simp

text \<open>The main thread takes a place that is free, or runs out of the array.\<close>

lemma msg_loop_turn_free:
  assumes "msg_loop_turn junk m tp = Some (Some i, tp')" "pool_inv (tp, W)"
  shows "i \<notin> W" "i < length (pool tp)"
    "tp' = tp\<lparr>pool := (pool tp)[i := (pool tp ! i)\<lparr>pl_msg := m, pl_flag := or (pl_flag (pool tp ! i)) POOL_BUSY, pl_request := w1 m\<rparr>],
       pool_bitmap := set_bit i (pool_bitmap tp)\<rparr>"
proof -
  have n: "length (pool tp) < 32" and W: "W = {i. bit (pool_bitmap tp) i}" "\<forall>i \<in> W. i < length (pool tp)"
    using assms(2) by (simp_all add: pool_inv_def)
  have "\<not> bit (pool_bitmap tp) (length (pool tp))" using W by auto
  then have "ffc (pool_bitmap tp) \<noteq> None" using n by (auto simp: ffc_None_iff)
  then obtain k where k: "ffc (pool_bitmap tp) = Some k" by auto
  then have "k < 32" "\<not> bit (pool_bitmap tp) k" by (simp_all add: ffc_Some_iff)
  moreover from this have "i = k \<and> k < length (pool tp) \<and>
      tp' = tp\<lparr>pool := (pool tp)[k := (pool tp ! k)\<lparr>pl_msg := m, pl_flag := or (pl_flag (pool tp ! k)) POOL_BUSY, pl_request := w1 m\<rparr>],
       pool_bitmap := set_bit k (pool_bitmap tp)\<rparr>"
    using assms(1) k by (auto simp: msg_loop_turn_def Let_def bind_Some)
  ultimately show "i \<notin> W" "i < length (pool tp)"
    "tp' = tp\<lparr>pool := (pool tp)[i := (pool tp ! i)\<lparr>pl_msg := m, pl_flag := or (pl_flag (pool tp ! i)) POOL_BUSY, pl_request := w1 m\<rparr>],
       pool_bitmap := set_bit i (pool_bitmap tp)\<rparr>"
    using W by auto
qed

lemma pool_step_inv:
  assumes "pool_step s e s'" "pool_inv s"
  shows "pool_inv s'" "mset (accepted [e]) + waiting_msgs s = mset (served [e]) + waiting_msgs s'"
proof -
  have "pool_inv s' \<and> mset (accepted [e]) + waiting_msgs s = mset (served [e]) + waiting_msgs s'"
    using assms(1)
  proof cases
    case (accept junk m tp i tp' W)
    have inv: "pool_inv (tp, W)" using assms(2) accept(1) by simp
    note f = msg_loop_turn_free [OF accept(4) inv]
    have fin: "finite W" using pool_inv_finite [OF inv] by simp
    have i: "i < 32" using f(2) inv by (simp add: pool_inv_def)
    have same: "pl_msg (pool tp' ! j) = pl_msg (pool tp ! j)" if "j \<in> W" for j
    proof -
      have "j \<noteq> i" using that f(1) by auto
      then show ?thesis by (simp add: f(3))
    qed
    have "waiting_msgs (tp', W) = waiting_msgs (tp, W)"
      unfolding waiting_msgs_def using same fin by (auto intro!: image_mset_cong)
    moreover have "waiting_msgs (tp', insert i W) = add_mset (i, m) (waiting_msgs (tp', W))"
      using f(1,2) fin by (simp add: waiting_msgs_def f(3))
    moreover have "pool_inv (tp', insert i W)"
      using inv f(2) i by (auto simp: pool_inv_def f(3) bit_set_u32)
    ultimately show ?thesis using accept by simp
  next
    case (serve i W tp r m tp')
    have inv: "pool_inv (tp, W)" using assms(2) serve(1) by simp
    have fin: "finite W" using pool_inv_finite [OF inv] by simp
    have i: "i < length (pool tp)" "i < 32" using inv serve(4) unfolding pool_inv_def by (force, force)
    then have tp': "m = pl_msg (pool tp ! i)" "tp' = tp\<lparr>pool_bitmap := unset_bit i (pool_bitmap tp)\<rparr>"
      using serve(5) by (auto simp: fs_worker_turn_def)
    have "waiting_msgs (tp, W) = add_mset (i, m) (waiting_msgs (tp', W - {i}))"
      using serve(4) fin by (simp add: waiting_msgs_def tp' mset_set.remove)
    moreover have "pool_inv (tp', W - {i})"
      using inv i by (auto simp: pool_inv_def tp' bit_unset_u32)
    ultimately show ?thesis using serve by simp
  qed
  then show "pool_inv s'" "mset (accepted [e]) + waiting_msgs s = mset (served [e]) + waiting_msgs s'" by simp_all
qed

lemma pool_init_inv: "n < 32 \<Longrightarrow> pool_inv (pool_init n, {})"
  by (simp add: pool_inv_def pool_init_def)

lemma pool_run_inv:
  assumes "pool_run s tr s'" "pool_inv s" "waiting_msgs s = {#}"
  shows "pool_inv s'" "mset (accepted tr) = mset (served tr) + waiting_msgs s'"
proof -
  have "pool_inv s' \<and> mset (accepted tr) = mset (served tr) + waiting_msgs s'"
    using assms
  proof (induction rule: pool_run.induct)
    case (step s tr s' e s'')
    then have IH: "pool_inv s'" "mset (accepted tr) = mset (served tr) + waiting_msgs s'" by simp_all
    note st = pool_step_inv [OF step.hyps(2) IH(1)]
    have "mset (accepted (tr @ [e])) = mset (served tr) + (mset (accepted [e]) + waiting_msgs s')" by (simp add: IH(2))
    also have "\<dots> = mset (served (tr @ [e])) + waiting_msgs s''" by (simp only: st(2)) simp
    finally show ?case using st(1) by simp
  qed simp
  then show "pool_inv s'" "mset (accepted tr) = mset (served tr) + waiting_msgs s'" by simp_all
qed



text \<open>With every place taken, the main thread goes on behind the end of the array.\<close>

lemma msg_loop_turn_overrun:
  assumes "n < 32" "length (pool tp) = n" "\<forall>i. bit (pool_bitmap tp) i \<longleftrightarrow> i < n"
  shows "msg_loop_turn junk m tp = None"
proof -
  have "ffc (pool_bitmap tp) = Some n" using assms by (simp add: ffc_Some_iff)
  then show ?thesis using assms by (simp add: msg_loop_turn_def aget_def)
qed

end
