(* ===== verification/Env.thy ===== *)
theory Env
  imports CMem KState
begin

text \<open>
  The environment of a program: \<^verbatim>\<open>src/soft/libc/posix/env.c\<close>, as it is built without
  a search tree for values.

  A state has the strings and the arrays of pointers that exist, by address; the end of an array is
  its first null pointer. \<open>efresh\<close> holds the addresses that \<open>malloc\<close> and \<open>realloc\<close> are going to return.
  The results show that \<open>getenv\<close> returns what \<open>setenv\<close> has set.
\<close>

record env =
  strs :: "addr \<Rightarrow> byte list option"
  arrs :: "addr \<Rightarrow> addr option list option"
  environ :: "addr option"
  last_environ :: "addr option"
  efresh :: "addr list"

text \<open>\<open>!strncmp (*ep, name, namelen) && (*ep)[namelen] == '='\<close>\<close>

definition has_name :: "byte list \<Rightarrow> byte list \<Rightarrow> bool" where
  "has_name name str \<longleftrightarrow> take (length name) str = name \<and> length name < length str \<and> str ! length name = 61"

text \<open>The loop over the array from an index on: the index where it stops, and whether the name was found there.\<close>

partial_function (option) env_find :: "(addr \<Rightarrow> byte list option) \<Rightarrow> addr option list \<Rightarrow> byte list \<Rightarrow> nat \<Rightarrow> (nat \<times> bool) option" where
  "env_find st arr name i = do {
     p \<leftarrow> aget arr i;
     case p of
       None \<Rightarrow> Some (i, False)
     | Some a \<Rightarrow> do {
         str \<leftarrow> st a;
         if has_name name str then Some (i, True) else env_find st arr name (i + 1)
       }
   }"

definition env_array :: "env \<Rightarrow> addr option list option" where
  "env_array e = do { a \<leftarrow> environ e; arrs e a }"

text \<open>
  \<open>__add_to_environ\<close>. The new array holds the old pointers, whether \<open>realloc\<close> keeps them or they are
  copied. When there is no memory for the string, the old array is already gone.
\<close>

definition add_to_environ :: "byte list \<Rightarrow> byte list \<Rightarrow> addr option \<Rightarrow> bool \<Rightarrow> env \<Rightarrow> (int \<times> env) option" where
  "add_to_environ name value combined replace e = do {
     (old, i, found) \<leftarrow> (case environ e of
         None \<Rightarrow> Some ([], 0, False)
       | Some a \<Rightarrow> do {
           arr \<leftarrow> arrs e a;
           (i, found) \<leftarrow> env_find (strs e) arr name 0;
           Some (arr, i, found)
         });
     if \<not> found then
       (case efresh e of
          [] \<Rightarrow> Some (- 1, e)
        | new # rest \<Rightarrow> do {
            arrs1 \<leftarrow> (case last_environ e of
                None \<Rightarrow> Some (arrs e)
              | Some la \<Rightarrow> do { _ \<leftarrow> arrs e la; Some ((arrs e)(la := None)) });
            let e = e\<lparr>efresh := rest, arrs := arrs1\<rparr>;
            case combined of
              Some c \<Rightarrow> Some (0, e\<lparr>arrs := arrs1(new \<mapsto> take i old @ [Some c, None]), environ := Some new, last_environ := Some new\<rparr>)
            | None \<Rightarrow>
                (case rest of
                   [] \<Rightarrow> Some (- 1, e\<lparr>arrs := arrs1(new \<mapsto> replicate (i + 2) None)\<rparr>)
                 | p # rest \<Rightarrow> Some (0, e\<lparr>efresh := rest, strs := (strs e)(p \<mapsto> name @ [61] @ value),
                     arrs := arrs1(new \<mapsto> take i old @ [Some p, None]), environ := Some new, last_environ := Some new\<rparr>))
          })
     else if replace then do {
       a \<leftarrow> environ e;
       case combined of
         Some c \<Rightarrow> Some (0, e\<lparr>arrs := (arrs e)(a \<mapsto> old[i := Some c])\<rparr>)
       | None \<Rightarrow>
           (case efresh e of
              [] \<Rightarrow> Some (- 1, e)
            | p # rest \<Rightarrow> Some (0, e\<lparr>efresh := rest, strs := (strs e)(p \<mapsto> name @ [61] @ value),
                arrs := (arrs e)(a \<mapsto> old[i := Some p])\<rparr>))
     }
     else Some (0, e)
   }"

definition setenv :: "byte list \<Rightarrow> byte list \<Rightarrow> bool \<Rightarrow> env \<Rightarrow> (int \<times> env) option" where
  "setenv name value replace e = add_to_environ name value None replace e"

text \<open>The pointers behind an entry that is removed move up, the null pointer included.\<close>

partial_function (option) unsetenv_loop :: "(addr \<Rightarrow> byte list option) \<Rightarrow> addr option list \<Rightarrow> byte list \<Rightarrow> nat \<Rightarrow> addr option list option" where
  "unsetenv_loop st arr name i = do {
     p \<leftarrow> aget arr i;
     case p of
       None \<Rightarrow> Some arr
     | Some a \<Rightarrow> do {
         str \<leftarrow> st a;
         if has_name name str then unsetenv_loop st (take i arr @ drop (i + 1) arr) name i
         else unsetenv_loop st arr name (i + 1)
       }
   }"

definition unsetenv :: "byte list option \<Rightarrow> env \<Rightarrow> (int \<times> env) option" where
  "unsetenv nm e = (case nm of
     None \<Rightarrow> Some (- 1, e)
   | Some name \<Rightarrow>
       if name = [] \<or> 61 \<in> set name then Some (- 1, e)
       else do {
         a \<leftarrow> environ e;
         arr \<leftarrow> arrs e a;
         arr \<leftarrow> unsetenv_loop (strs e) arr name 0;
         Some (0, e\<lparr>arrs := (arrs e)(a \<mapsto> arr)\<rparr>)
       })"

definition clearenv :: "env \<Rightarrow> (int \<times> env) option" where
  "clearenv e =
     (if environ e = last_environ e \<and> environ e \<noteq> None then do {
        a \<leftarrow> environ e;
        _ \<leftarrow> arrs e a;
        Some (0, e\<lparr>arrs := (arrs e)(a := None), last_environ := None, environ := None\<rparr>)
      }
      else Some (0, e\<lparr>environ := None\<rparr>))"

text \<open>
  The two loops of \<open>getenv\<close>: the first two characters are compared as a number of 16 bits. The result is
  the address of a string and the offset of the value in it.
\<close>

definition start16 :: "byte \<Rightarrow> byte \<Rightarrow> u16" where
  "start16 a b = or (ucast a) (push_bit 8 (ucast b))"

partial_function (option) getenv_loop :: "(addr \<Rightarrow> byte list option) \<Rightarrow> addr option list \<Rightarrow> byte list \<Rightarrow> nat \<Rightarrow>
  (addr \<times> nat) option option" where
  "getenv_loop st arr name i = do {
     p \<leftarrow> aget arr i;
     case p of
       None \<Rightarrow> Some None
     | Some a \<Rightarrow> do {
         str \<leftarrow> st a;
         c0 \<leftarrow> str_at str 0;
         c1 \<leftarrow> str_at str 1;
         if length name = 1 then
           if start16 (name ! 0) 61 = start16 c0 c1 then Some (Some (a, 2)) else getenv_loop st arr name (i + 1)
         else
           if start16 (name ! 0) (name ! 1) = start16 c0 c1 \<and> take (length name - 2) (drop 2 str) = drop 2 name \<and>
             str_at str (length name) = Some 61
           then Some (Some (a, length name + 1)) else getenv_loop st arr name (i + 1)
       }
   }"

definition getenv :: "byte list \<Rightarrow> env \<Rightarrow> (addr \<times> nat) option option" where
  "getenv name e =
     (if environ e = None \<or> name = [] then Some None
      else do {
        arr \<leftarrow> env_array e;
        getenv_loop (strs e) arr name 0
      })"

section \<open>The environment as a list of strings\<close>

definition strings_at :: "(addr \<Rightarrow> byte list option) \<Rightarrow> addr list \<Rightarrow> byte list list \<Rightarrow> bool" where
  "strings_at st ps xs \<longleftrightarrow> list_all2 (\<lambda>p x. st p = Some x \<and> x \<noteq> []) ps xs"

text \<open>\<open>env_is e xs\<close>: the environment consists of the strings \<open>xs\<close>, none of them empty.\<close>

definition env_is :: "env \<Rightarrow> byte list list \<Rightarrow> bool" where
  "env_is e xs \<longleftrightarrow> (environ e = None \<and> xs = []) \<or>
     (\<exists>a ps junk. environ e = Some a \<and> arrs e a = Some (map Some ps @ None # junk) \<and> strings_at (strs e) ps xs)"

definition env_lookup :: "byte list \<Rightarrow> byte list list \<Rightarrow> byte list option" where
  "env_lookup name xs = map_option (drop (length name + 1)) (find (has_name name) xs)"

definition env_index :: "byte list \<Rightarrow> byte list list \<Rightarrow> nat" where
  "env_index name xs = length (takeWhile (\<lambda>x. \<not> has_name name x) xs)"

text \<open>What the caller of \<open>getenv\<close> sees: the string behind the pointer.\<close>

definition getenv_str :: "byte list \<Rightarrow> env \<Rightarrow> byte list option option" where
  "getenv_str name e = do {
     r \<leftarrow> getenv name e;
     case r of
       None \<Rightarrow> Some None
     | Some (a, k) \<Rightarrow> do { str \<leftarrow> strs e a; Some (Some (drop k str)) }
   }"

definition env_name :: "byte list \<Rightarrow> bool" where
  "env_name name \<longleftrightarrow> name \<noteq> [] \<and> 61 \<notin> set name \<and> 0 \<notin> set name"

lemma has_name_iff:
  assumes "61 \<notin> set name"
  shows "has_name name x \<longleftrightarrow> (\<exists>v. x = name @ 61 # v)"
proof
  assume "has_name name x"
  then have h: "take (length name) x = name" "length name < length x" "x ! length name = 61" by (simp_all add: has_name_def)
  have "x = take (length name) x @ x ! length name # drop (Suc (length name)) x" using id_take_nth_drop [OF h(2)] .
  then show "\<exists>v. x = name @ 61 # v" using h by auto
qed (auto simp: has_name_def)

lemma has_name_unique:
  assumes "has_name n x" "has_name m x" "61 \<notin> set n" "61 \<notin> set m"
  shows "n = m"
proof -
  have tw: "k = takeWhile (\<lambda>c. c \<noteq> 61) x" if k: "has_name k x" "61 \<notin> set k" for k
  proof -
    obtain v where "x = k @ 61 # v" using k has_name_iff by blast
    then show ?thesis using k(2) by (auto simp: takeWhile_append takeWhile_eq_all_conv)
  qed
  show ?thesis using tw [OF assms(1,3)] tw [OF assms(2,4)] by simp
qed

lemma env_find_ok:
  assumes "strings_at st ps xs"
  shows "env_find st (map Some pre @ map Some ps @ None # junk) name (length pre) =
    Some (length pre + env_index name xs, env_index name xs < length xs)"
  using assms
proof (induction ps arbitrary: pre xs)
  case Nil
  then show ?case by (subst env_find.simps) (simp add: strings_at_def env_index_def nth_append)
next
  case (Cons p ps)
  then obtain x xs' where xs: "xs = x # xs'" "st p = Some x" "strings_at st ps xs'"
    by (auto simp: strings_at_def list_all2_Cons1)
  have IH: "env_find st (map Some (pre @ [p]) @ map Some ps @ None # junk) name (length (pre @ [p])) =
    Some (length (pre @ [p]) + env_index name xs', env_index name xs' < length xs')" by (rule Cons.IH [OF xs(3)])
  show ?case using xs(2) IH
    by (subst env_find.simps) (simp add: xs(1) nth_append env_index_def)
qed

lemma start16_inj: "start16 a b = start16 c d \<longleftrightarrow> a = c \<and> b = d"
proof
  assume eq: "start16 a b = start16 c d"
  have "bit a n = bit c n \<and> bit b n = bit d n" if n: "n < 8" for n
  proof -
    have "bit (start16 a b) n = bit (start16 c d) n" "bit (start16 a b) (n + 8) = bit (start16 c d) (n + 8)"
      by (simp_all add: eq)
    then show ?thesis using n bit_imp_le_length [of a "n + 8"] bit_imp_le_length [of c "n + 8"]
      by (auto simp: start16_def bit_simps)
  qed
  then show "a = c \<and> b = d" by (auto intro!: bit_word_eqI)
qed simp

text \<open>The test on two characters at once finds the same entries as the comparison with the name.\<close>

lemma getenv_test:
  assumes "env_name name" "x \<noteq> []"
  shows "\<exists>c0 c1. str_at x 0 = Some c0 \<and> str_at x 1 = Some c1 \<and>
    (if length name = 1 then start16 (name ! 0) 61 = start16 c0 c1
     else start16 (name ! 0) (name ! 1) = start16 c0 c1 \<and> take (length name - 2) (drop 2 x) = drop 2 name \<and>
       str_at x (length name) = Some 61) = has_name name x"
proof -
  obtain n0 ns where name: "name = n0 # ns" using assms(1) by (cases name) (auto simp: env_name_def)
  obtain x0 xs where x: "x = x0 # xs" using assms(2) by (cases x) auto
  show ?thesis
  proof (cases ns)
    case Nil
    then show ?thesis by (cases xs) (auto simp: name x str_at_def start16_inj has_name_def)
  next
    case (Cons n1 ms)
    have "n1 \<noteq> 0" using assms(1) by (auto simp: env_name_def name Cons)
    then show ?thesis
      by (cases xs) (auto simp: name x Cons str_at_def start16_inj has_name_def)
  qed
qed

lemma getenv_loop_ok:
  assumes "strings_at st ps xs" "env_name name"
  shows "getenv_loop st (map Some pre @ map Some ps @ None # junk) name (length pre) =
    Some (if env_index name xs < length xs then Some (ps ! env_index name xs, length name + 1) else None)"
  using assms(1)
proof (induction ps arbitrary: pre xs)
  case Nil
  then show ?case by (subst getenv_loop.simps) (simp add: strings_at_def env_index_def nth_append)
next
  case (Cons p ps)
  then obtain x xs' where xs: "xs = x # xs'" "st p = Some x" "x \<noteq> []" "strings_at st ps xs'"
    by (auto simp: strings_at_def list_all2_Cons1)
  have IH: "getenv_loop st (map Some (pre @ [p]) @ map Some ps @ None # junk) name (length (pre @ [p])) =
    Some (if env_index name xs' < length xs' then Some (ps ! env_index name xs', length name + 1) else None)"
    by (rule Cons.IH [OF xs(4)])
  obtain c0 c1 where c: "str_at x 0 = Some c0" "str_at x 1 = Some c1"
    and test: "(if length name = 1 then start16 (name ! 0) 61 = start16 c0 c1
     else start16 (name ! 0) (name ! 1) = start16 c0 c1 \<and> take (length name - 2) (drop 2 x) = drop 2 name \<and>
       str_at x (length name) = Some 61) = has_name name x"
    using getenv_test [OF assms(2) xs(3)] by blast
  have "getenv_loop st (map Some pre @ map Some (p # ps) @ None # junk) name (length pre) =
      (if has_name name x then Some (Some (p, length name + 1))
       else getenv_loop st (map Some pre @ map Some (p # ps) @ None # junk) name (length pre + 1))"
    using xs(2) c by (subst getenv_loop.simps) (auto simp: nth_append simp flip: test)
  then show ?case using IH by (simp add: xs(1) env_index_def)
qed

lemma env_index_find:
  "find (has_name name) xs = (if env_index name xs < length xs then Some (xs ! env_index name xs) else None)"
  by (induction xs) (auto simp: env_index_def)

lemma strings_at_nth: "strings_at st ps xs \<Longrightarrow> i < length xs \<Longrightarrow> st (ps ! i) = Some (xs ! i)"
  by (simp add: strings_at_def list_all2_conv_all_nth)

lemma getenv_str_ok:
  assumes "env_is e xs" "env_name name"
  shows "getenv_str name e = Some (env_lookup name xs)"
proof -
  consider "environ e = None" "xs = []"
    | a ps junk where "environ e = Some a" "arrs e a = Some (map Some ps @ None # junk)" "strings_at (strs e) ps xs"
    using assms(1) by (auto simp: env_is_def)
  then show ?thesis
  proof cases
    case 1
    then show ?thesis by (simp add: getenv_str_def getenv_def env_lookup_def)
  next
    case 2
    have "name \<noteq> []" using assms(2) by (simp add: env_name_def)
    then show ?thesis
      using 2 getenv_loop_ok [OF 2(3) assms(2), of "[]" junk] strings_at_nth [OF 2(3)]
      by (simp add: getenv_str_def getenv_def env_array_def env_lookup_def env_index_find)
  qed
qed

text \<open>The memory for an array and a string is there and is not in use.\<close>

definition env_memory :: "env \<Rightarrow> bool" where
  "env_memory e \<longleftrightarrow> 2 \<le> length (efresh e) \<and> distinct (efresh e) \<and> (\<forall>p \<in> set (efresh e). strs e p = None) \<and>
     (\<forall>la. last_environ e = Some la \<longrightarrow> arrs e la \<noteq> None)"

lemma strings_at_fresh:
  assumes "strings_at st ps xs" "st p = None"
  shows "strings_at (st(p \<mapsto> y)) ps xs"
  using assms unfolding strings_at_def by (elim list_all2_mono) auto

lemma setenv_ok:
  assumes "env_is e xs" "env_memory e" "new = name @ [61] @ value"
  shows "\<exists>e'. setenv name value True e = Some (0, e') \<and>
    env_is e' (if env_index name xs < length xs then xs[env_index name xs := new] else xs @ [new])"
proof -
  obtain f1 f2 rest where fr: "efresh e = f1 # f2 # rest" using assms(2)
    by (cases "efresh e"; cases "tl (efresh e)") (auto simp: env_memory_def)
  have none: "strs e f1 = None" "strs e f2 = None" using assms(2) fr by (auto simp: env_memory_def)
  have new: "new \<noteq> []" using assms(3) by simp
  obtain arrs1 where arrs1: "(case last_environ e of None \<Rightarrow> Some (arrs e)
      | Some la \<Rightarrow> do { _ \<leftarrow> arrs e la; Some ((arrs e)(la := None)) }) = Some arrs1"
    using assms(2) by (cases "last_environ e") (auto simp: env_memory_def)
  consider "environ e = None" "xs = []"
    | a ps junk where "environ e = Some a" "arrs e a = Some (map Some ps @ None # junk)" "strings_at (strs e) ps xs"
    using assms(1) by (auto simp: env_is_def)
  then show ?thesis
  proof cases
    case 1
    let ?e = "e\<lparr>efresh := rest, strs := (strs e)(f2 \<mapsto> new), arrs := arrs1(f1 \<mapsto> [Some f2, None]),
      environ := Some f1, last_environ := Some f1\<rparr>"
    have "setenv name value True e = Some (0, ?e)"
      using 1 fr arrs1 assms(3) by (simp add: setenv_def add_to_environ_def)
    moreover have "env_is ?e [new]"
      unfolding env_is_def using new by (intro disjI2 exI [of _ f1] exI [of _ "[f2]"] exI [of _ "[]"]) (simp add: strings_at_def)
    ultimately show ?thesis using 1 by auto
  next
    case 2
    let ?i = "env_index name xs"
    have len: "length ps = length xs" using 2(3) by (simp add: strings_at_def list_all2_lengthD)
    have find: "env_find (strs e) (map Some ps @ None # junk) name 0 = Some (?i, ?i < length xs)"
      using env_find_ok [OF 2(3), of "[]"] by simp
    show ?thesis
    proof (cases "?i < length xs")
      case True
      let ?e = "e\<lparr>efresh := f2 # rest, strs := (strs e)(f1 \<mapsto> new), arrs := (arrs e)(a \<mapsto> (map Some ps @ None # junk)[?i := Some f1])\<rparr>"
      have "setenv name value True e = Some (0, ?e)"
        using 2(1,2) find True fr assms(3) by (simp add: setenv_def add_to_environ_def)
      moreover have "(map Some ps @ None # junk)[?i := Some f1] = map Some (ps[?i := f1]) @ None # junk"
        using True len by (simp add: list_update_append1 map_update)
      moreover have "strings_at ((strs e)(f1 \<mapsto> new)) (ps[?i := f1]) (xs[?i := new])"
        using strings_at_fresh [OF 2(3) none(1), of new] new True
        by (auto simp: strings_at_def list_all2_conv_all_nth nth_list_update split: if_splits)
      ultimately have "setenv name value True e = Some (0, ?e)" "env_is ?e (xs[?i := new])"
        unfolding env_is_def using 2(1) by auto
      then show ?thesis using True by auto
    next
      case False
      then have i: "?i = length xs" by (simp add: env_index_def takeWhile_eq_all_conv)
          (metis length_takeWhile_le le_antisym not_less takeWhile_eq_all_conv)
      let ?e = "e\<lparr>efresh := rest, strs := (strs e)(f2 \<mapsto> new), arrs := arrs1(f1 \<mapsto> map Some ps @ [Some f2, None]),
        environ := Some f1, last_environ := Some f1\<rparr>"
      have "setenv name value True e = Some (0, ?e)"
        using 2(1,2) find i fr arrs1 assms(3) len by (simp add: setenv_def add_to_environ_def)
      moreover have "strings_at ((strs e)(f2 \<mapsto> new)) (ps @ [f2]) (xs @ [new])"
        using strings_at_fresh [OF 2(3) none(2), of new] new by (simp add: strings_at_def list_all2_appendI)
      then have "env_is ?e (xs @ [new])"
        unfolding env_is_def by (intro disjI2 exI [of _ f1] exI [of _ "ps @ [f2]"] exI [of _ "[]"]) simp
      ultimately show ?thesis using False by auto
    qed
  qed
qed

lemma env_lookup_set:
  assumes "env_name name" "env_name n" "new = name @ [61] @ value"
    and "xs' = (if env_index name xs < length xs then xs[env_index name xs := new] else xs @ [new])"
  shows "env_lookup n xs' = (if n = name then Some value else env_lookup n xs)"
proof -
  have nm: "has_name n new \<longleftrightarrow> n = name"
  proof
    assume "has_name n new"
    moreover have "has_name name new" by (simp add: assms(3) has_name_def)
    ultimately show "n = name" using has_name_unique assms(1,2) by (auto simp: env_name_def)
  qed (simp add: assms(3) has_name_def)
  have other: "\<not> (has_name n x \<and> has_name name x)" if "n \<noteq> name" for x
    using has_name_unique assms(1,2) that by (auto simp: env_name_def)
  have "find (has_name n) xs' = (if n = name then Some new else find (has_name n) xs)"
    unfolding assms(4)
  proof (induction xs)
    case Nil
    then show ?case using nm by (simp add: env_index_def)
  next
    case (Cons x xs)
    then show ?case using nm other [of x] by (auto simp: env_index_def)
  qed
  then show ?thesis by (simp add: env_lookup_def assms(3))
qed

text \<open>
  C11. The environment is a dictionary: after \<open>setenv\<close> with replacement has returned 0,
  \<open>getenv\<close> gives the new value for the name, and for every other name what it gave before, whether
  the name was there already or not.
\<close>

theorem setenv_getenv:
  assumes "env_is e xs" "env_memory e" "env_name name"
  shows "\<exists>e'. setenv name value True e = Some (0, e') \<and> getenv_str name e' = Some (Some value) \<and>
    (\<forall>n. env_name n \<and> n \<noteq> name \<longrightarrow> getenv_str n e' = getenv_str n e)"
proof -
  obtain e' where e': "setenv name value True e = Some (0, e')"
    "env_is e' (if env_index name xs < length xs then xs[env_index name xs := name @ [61] @ value] else xs @ [name @ [61] @ value])"
    using setenv_ok [OF assms(1,2) refl] by blast
  have "getenv_str n e' = Some (if n = name then Some value else env_lookup n xs)" if "env_name n" for n
    using getenv_str_ok [OF e'(2) that] env_lookup_set [OF assms(3) that refl refl, of xs "value"] by simp
  then show ?thesis using e'(1) assms(3) getenv_str_ok [OF assms(1)] by auto
qed

definition env_ex :: env where
  "env_ex = \<lparr>strs = [10 \<mapsto> [65, 61, 49], 11 \<mapsto> [80, 81, 61, 50]], arrs = [20 \<mapsto> [Some 10, Some 11, None]],
     environ = Some 20, last_environ = None, efresh = [30, 31]\<rparr>"

lemma env_ex_is: "env_is env_ex [[65, 61, 49], [80, 81, 61, 50]]"
proof -
  have "arrs env_ex 20 = Some (map Some [10, 11] @ None # [])" "environ env_ex = Some 20"
    "strings_at (strs env_ex) [10, 11] [[65, 61, 49], [80, 81, 61, 50]]"
    by (simp_all add: env_ex_def strings_at_def)
  then show ?thesis unfolding env_is_def by blast
qed

theorem setenv_getenv_witness:
  "\<exists>e'. setenv [81] [51] True env_ex = Some (0, e') \<and> getenv_str [81] e' = Some (Some [51]) \<and>
    getenv_str [80, 81] e' = Some (Some [50])"
proof -
  have m: "env_memory env_ex" by (simp add: env_memory_def env_ex_def)
  have n: "env_name [81]" "env_name [80, 81]" by (simp_all add: env_name_def)
  have "getenv_str [80, 81] env_ex = Some (Some [50])"
    using getenv_str_ok [OF env_ex_is n(2)] by (simp add: env_lookup_def has_name_def)
  then show ?thesis using setenv_getenv [OF env_ex_is m n(1), of "[51]"] n(2) by auto
qed

text \<open>\<open>unsetenv\<close> takes away every entry with the name and keeps the others in their order.\<close>

lemma unsetenv_loop_ok:
  assumes "strings_at st qs ys" "strings_at st ps xs"
  shows "\<exists>ps'. unsetenv_loop st (map Some qs @ map Some ps @ None # junk) name (length qs) = Some (map Some (qs @ ps') @ None # junk) \<and>
    strings_at st (qs @ ps') (ys @ filter (\<lambda>x. \<not> has_name name x) xs)"
  using assms
proof (induction ps arbitrary: qs ys xs)
  case Nil
  then show ?case by (subst unsetenv_loop.simps) (auto simp: strings_at_def nth_append)
next
  case (Cons p ps)
  then obtain x xs' where xs: "xs = x # xs'" "st p = Some x" "x \<noteq> []" "strings_at st ps xs'"
    by (auto simp: strings_at_def list_all2_Cons1)
  show ?case
  proof (cases "has_name name x")
    case True
    then have "unsetenv_loop st (map Some qs @ map Some (p # ps) @ None # junk) name (length qs) =
        unsetenv_loop st (map Some qs @ map Some ps @ None # junk) name (length qs)"
      using xs(2) by (subst unsetenv_loop.simps) (simp add: nth_append)
    then show ?thesis using Cons.IH [OF Cons.prems(1) xs(4)] True by (simp add: xs(1))
  next
    case False
    have q: "strings_at st (qs @ [p]) (ys @ [x])" using Cons.prems(1) xs by (simp add: strings_at_def list_all2_appendI)
    have step: "unsetenv_loop st (map Some qs @ map Some (p # ps) @ None # junk) name (length qs) =
        unsetenv_loop st (map Some (qs @ [p]) @ map Some ps @ None # junk) name (length (qs @ [p]))"
      using xs(2) False by (subst unsetenv_loop.simps) (simp add: nth_append)
    obtain ps' where "unsetenv_loop st (map Some (qs @ [p]) @ map Some ps @ None # junk) name (length (qs @ [p])) =
        Some (map Some ((qs @ [p]) @ ps') @ None # junk)" "strings_at st ((qs @ [p]) @ ps') ((ys @ [x]) @ filter (\<lambda>x. \<not> has_name name x) xs')"
      using Cons.IH [OF q xs(4)] by blast
    then show ?thesis unfolding step using False by (intro exI [of _ "p # ps'"]) (simp add: xs(1))
  qed
qed

lemma unsetenv_removes:
  assumes "env_is e xs" "environ e \<noteq> None" "name \<noteq> []" "61 \<notin> set name"
  shows "\<exists>e'. unsetenv (Some name) e = Some (0, e') \<and> env_is e' (filter (\<lambda>x. \<not> has_name name x) xs)"
proof -
  obtain a ps junk where a: "environ e = Some a" "arrs e a = Some (map Some ps @ None # junk)" "strings_at (strs e) ps xs"
    using assms(1,2) by (auto simp: env_is_def)
  obtain ps' where "unsetenv_loop (strs e) (map Some ps @ None # junk) name 0 = Some (map Some ps' @ None # junk)"
    "strings_at (strs e) ps' (filter (\<lambda>x. \<not> has_name name x) xs)"
    using unsetenv_loop_ok [OF _ a(3), of "[]" "[]"] by (auto simp: strings_at_def)
  then show ?thesis using a assms(3,4) by (auto simp: unsetenv_def env_is_def)
qed

text \<open>When there is memory for the array and none for the string, the old array has been freed but is still the environment.\<close>

lemma setenv_no_memory_dangles:
  assumes "environ e = Some a" "last_environ e = Some a" "arrs e a = Some (map Some ps @ None # junk)"
    "strings_at (strs e) ps xs" "env_index name xs = length xs" "efresh e = [f]" "f \<noteq> a"
  shows "\<exists>e'. setenv name value True e = Some (- 1, e') \<and> environ e' = Some a \<and> arrs e' a = None"
proof -
  have "env_find (strs e) (map Some ps @ None # junk) name 0 = Some (length xs, False)"
    using env_find_ok [OF assms(4), of "[]"] assms(5) by simp
  then show ?thesis using assms by (simp add: setenv_def add_to_environ_def)
qed

end
