(* ===== verification/Printf.thy ===== *)
theory Printf
  imports CMem
begin

text \<open>
  Formatted output of the C library: \<^verbatim>\<open>src/soft/libc/ansi/stdio/printf.c\<close> and
  \<^verbatim>\<open>scanf.c\<close>.

  A format is the list of its bytes with the terminating zero; to read behind it is \<open>None\<close>. Every
  character goes through \<open>PUTCH\<close>, which stops the whole function when there is no room: \<open>Inl\<close> is the
  output at that point. A floating point argument is given by its sign, its integer part and the
  digits behind the point that the arithmetic of the machine produces.
\<close>

datatype va_arg = VInt u32 | VStr "byte list option" | VFlt bool u32 "nat \<Rightarrow> byte" | VPtr addr

record pflags =
  f_left :: bool
  f_sign :: bool
  f_space :: bool
  f_zero :: bool
  f_alternate :: bool

type_synonym pout = "u32 \<times> byte list"

section \<open>Putting characters\<close>

definition PUTCH :: "byte \<Rightarrow> pout \<Rightarrow> byte list + pout" where
  "PUTCH ch s = (case s of (sz, out) \<Rightarrow> if sz = 0 then Inl out else Inr (sz - 1, out @ [ch]))"

fun PUTSTR :: "byte list \<Rightarrow> pout \<Rightarrow> byte list + pout" where
  "PUTSTR [] s = Inr s"
| "PUTSTR (c # cs) s = (case PUTCH c s of Inl out \<Rightarrow> Inl out | Inr s \<Rightarrow> PUTSTR cs s)"

section \<open>Parsing a conversion\<close>

fun parse_flags :: "pflags \<Rightarrow> byte list \<Rightarrow> pflags \<times> byte list" where
  "parse_flags fl [] = (fl, [])"
| "parse_flags fl (c # fmt) =
     (if c = 45 then parse_flags (fl\<lparr>f_left := True\<rparr>) fmt
      else if c = 43 then parse_flags (fl\<lparr>f_sign := True\<rparr>) fmt
      else if c = 32 then parse_flags (fl\<lparr>f_space := True\<rparr>) fmt
      else if c = 48 then parse_flags (fl\<lparr>f_zero := True\<rparr>) fmt
      else if c = 35 then parse_flags (fl\<lparr>f_alternate := True\<rparr>) fmt
      else (fl, c # fmt))"

text \<open>A number in the format; an overflow of the signed variable is undefined.\<close>

fun parse_num :: "int \<Rightarrow> byte list \<Rightarrow> (int \<times> byte list) option" where
  "parse_num n [] = None"
| "parse_num n (c # fmt) =
     (if 48 \<le> c \<and> c \<le> 57 then
        if n * 10 + uint c - 48 < 2 ^ 31 then parse_num (n * 10 + uint c - 48) fmt else None
      else Some (n, c # fmt))"

definition peek :: "byte list \<Rightarrow> byte option" where
  "peek fmt = (case fmt of [] \<Rightarrow> None | c # _ \<Rightarrow> Some c)"

definition int_arg :: "va_arg list \<Rightarrow> (u32 \<times> va_arg list) option" where
  "int_arg args = (case args of VInt n # rest \<Rightarrow> Some (n, rest) | _ \<Rightarrow> None)"

definition parse_count :: "byte list \<Rightarrow> va_arg list \<Rightarrow> (int \<times> byte list \<times> va_arg list) option" where
  "parse_count fmt args = do {
     c \<leftarrow> peek fmt;
     if c = 42 then do { (n, args) \<leftarrow> int_arg args; Some (sint n, tl fmt, args) }
     else if 48 \<le> c \<and> c \<le> 57 then do { (n, fmt) \<leftarrow> parse_num 0 fmt; Some (n, fmt, args) }
     else Some (- 1, fmt, args)
   }"

definition parse_precision :: "byte list \<Rightarrow> va_arg list \<Rightarrow> (int \<times> byte list \<times> va_arg list) option" where
  "parse_precision fmt args = do {
     c \<leftarrow> peek fmt;
     if c = 46 then parse_count (tl fmt) args else Some (- 1, fmt, args)
   }"

definition parse_modifier :: "byte list \<Rightarrow> byte list option" where
  "parse_modifier fmt = do {
     c \<leftarrow> peek fmt;
     Some (if c = 104 \<or> c = 108 \<or> c = 76 then tl fmt else fmt)
   }"

section \<open>The characters of a conversion\<close>

definition pad :: "byte \<Rightarrow> int \<Rightarrow> byte list" where
  "pad ch n = replicate (nat n) ch"

definition LEFTPAD :: "pflags \<Rightarrow> int \<Rightarrow> byte list" where
  "LEFTPAD fl num = (if \<not> f_left fl then pad (if f_zero fl then 48 else 32) num else [])"

definition RIGHTPAD :: "pflags \<Rightarrow> int \<Rightarrow> byte list" where
  "RIGHTPAD fl num = (if f_left fl then pad 32 num else [])"

text \<open>The digits of a number, the lowest first, as they are put into \<open>convert\<close>.\<close>

function convert_digits :: "nat \<Rightarrow> nat \<Rightarrow> nat list" where
  "convert_digits base n = (if n div base = 0 \<or> base < 2 then [n mod base] else n mod base # convert_digits base (n div base))"
  by pat_completeness auto

termination
proof (relation "measure snd")
  fix base n :: nat
  assume "\<not> (n div base = 0 \<or> base < 2)"
  then have "1 < base" "0 < n" by (auto intro: gr0I)
  then show "((base, n div base), base, n) \<in> measure snd" by simp
qed simp

declare convert_digits.simps [simp del]

definition digit_char :: "bool \<Rightarrow> nat \<Rightarrow> byte" where
  "digit_char upper d = (if d < 10 then of_nat (48 + d) else if upper then of_nat (55 + d) else of_nat (87 + d))"

text \<open>
  The common part of the integer conversions, from \<open>Print_signed\<close> on. \<open>numpr\<close> no longer counts the sign and
  the prefix when the padding on the right is computed from it.
\<close>

definition print_number :: "pflags \<Rightarrow> int \<Rightarrow> int \<Rightarrow> nat \<Rightarrow> bool \<Rightarrow> bool \<Rightarrow> u32 \<Rightarrow> byte list" where
  "print_number fl width precision base upper sign uval =
     (let signch = (if sign then
                      if f_sign fl \<and> 0 \<le> sint uval then Some 43
                      else if f_space fl \<and> 0 \<le> sint uval then Some 32
                      else if sint uval < 0 then Some 45 else None
                    else None);
          uval = (if signch = Some 45 then - uval else uval);
          convert = map (digit_char upper) (convert_digits base (unat uval));
          numdigits = int (length convert);
          numpr = (if precision < numdigits then numdigits else precision);
          numpr = (if signch \<noteq> None then numpr + 1 else numpr);
          numpr = (if f_alternate fl then if base = 8 then numpr + 1 else if base = 16 \<or> base = 2 then numpr + 2 else numpr else numpr);
          left = (if \<not> f_left fl \<and> numpr < width \<and> \<not> f_zero fl then pad 32 (width - numpr) else []);
          numpr = (if \<not> f_left fl \<and> numpr < width \<and> f_zero fl then width else numpr);
          numpr = (if signch \<noteq> None then numpr - 1 else numpr);
          prefix = (if f_alternate fl then if base = 2 then [37] else if base = 8 then [48] else if base = 16 then [48, 120] else [] else []);
          numpr = numpr - int (length prefix)
      in left @ (case signch of None \<Rightarrow> [] | Some c \<Rightarrow> [c]) @ prefix @ pad 48 (numpr - numdigits) @ rev convert @
         RIGHTPAD fl (width - numpr - (if signch \<noteq> None then 1 else 0)))"

definition print_float :: "pflags \<Rightarrow> int \<Rightarrow> int \<Rightarrow> bool \<Rightarrow> u32 \<Rightarrow> (nat \<Rightarrow> byte) \<Rightarrow> byte list" where
  "print_float fl width precision neg ipart frac =
     (let precision = (if precision = - 1 then 6 else precision);
          signch = (if neg then [45] else if f_sign fl then [43] else if f_space fl then [32] else []);
          convert = map (digit_char False) (convert_digits 10 (unat ipart));
          numpr = int (length convert) + int (length signch);
          numpr = (if 0 < precision then numpr + 1 + precision else numpr)
      in LEFTPAD fl (width - numpr) @ signch @ rev convert @
         (if 0 < precision then 46 # map frac [0..<nat precision] else []) @ RIGHTPAD fl (width - numpr))"

text \<open>\<open>old\<close> is the value that \<open>numpr\<close> has from an earlier conversion: without a width it is used as it is.\<close>

definition print_string :: "pflags \<Rightarrow> int \<Rightarrow> int \<Rightarrow> int \<Rightarrow> byte list \<Rightarrow> int \<times> byte list" where
  "print_string fl width precision old str =
     (let numpr = (if 0 < width then if 0 \<le> precision \<and> precision < int (length str) then precision else int (length str) else old);
          left = (if 0 < width then LEFTPAD fl (width - numpr) else []);
          body = (if 0 \<le> precision then take (nat precision) str else str)
      in (numpr, left @ body @ RIGHTPAD fl (width - numpr)))"

definition null_string :: "byte list" where "null_string = [40, 110, 117, 108, 108, 41]"

text \<open>
  A conversion: the characters it puts, the new \<open>numpr\<close> as far as later conversions use it, and what is left of
  the arguments. \<open>%n\<close> stores the number of characters so far at an address, the last component. The \<open>numpr\<close>
  that a conversion of a number leaves is positive: the only later use, \<open>RIGHTPAD\<close> of a string whose width is not positive,
  puts nothing with it, so that it is not kept. The negation of the most negative number is undefined. Widths and
  precisions are computed with as integers, as in the code as long as they stay inside of an \<open>int\<close>.
\<close>

definition convert_one :: "pflags \<Rightarrow> int \<Rightarrow> int \<Rightarrow> byte \<Rightarrow> int \<Rightarrow> nat \<Rightarrow> va_arg list \<Rightarrow>
  (byte list \<times> int \<times> va_arg list \<times> (addr \<times> nat) option) option" where
  "convert_one fl width precision c old count args =
     (if c = 98 then do { (n, args) \<leftarrow> int_arg args; Some (print_number fl width precision 2 False False n, old, args, None) }
      else if c = 111 then do { (n, args) \<leftarrow> int_arg args; Some (print_number fl width precision 8 False False n, old, args, None) }
      else if c = 112 then do { (n, args) \<leftarrow> int_arg args; Some (print_number (fl\<lparr>f_alternate := True\<rparr>) 8 8 16 False False n, old, args, None) }
      else if c = 120 then do { (n, args) \<leftarrow> int_arg args; Some (print_number fl width precision 16 False False n, old, args, None) }
      else if c = 88 then do { (n, args) \<leftarrow> int_arg args; Some (print_number fl width precision 16 True False n, old, args, None) }
      else if c = 100 \<or> c = 105 then do {
        (n, args) \<leftarrow> int_arg args;
        if n = 0x80000000 then None else Some (print_number fl width precision 10 False True n, old, args, None)
      }
      else if c = 117 then do { (n, args) \<leftarrow> int_arg args; Some (print_number fl width precision 10 False False n, old, args, None) }
      else if c = 102 then (case args of
          VFlt neg ip frac # args \<Rightarrow> Some (print_float fl width precision neg ip frac, old, args, None)
        | _ \<Rightarrow> None)
      else if c = 115 then (case args of
          VStr None # args \<Rightarrow> Some (null_string, old, args, None)
        | VStr (Some str) # args \<Rightarrow>
            (case print_string fl width precision old str of (numpr, cs) \<Rightarrow> Some (cs, numpr, args, None))
        | _ \<Rightarrow> None)
      else if c = 99 then do { (n, args) \<leftarrow> int_arg args; Some ([ucast n], old, args, None) }
      else if c = 37 then Some ([37], old, args, None)
      else if c = 110 then (case args of VPtr a # args \<Rightarrow> Some ([], old, args, Some (a, count)) | _ \<Rightarrow> None)
      else Some ([37, c], old, args, None))"

section \<open>The whole function\<close>

text \<open>Copying up to the next percent sign: \<open>Inl\<close> is the jump to the end.\<close>

fun copy_plain :: "byte list \<Rightarrow> pout \<Rightarrow> (byte list + (byte list \<times> pout)) option" where
  "copy_plain [] s = None"
| "copy_plain (c # fmt) (sz, out) =
     (if c = 37 then Some (Inr (fmt, sz, out))
      else if sz = 0 \<or> c = 0 then Some (Inl out)
      else copy_plain fmt (sz - 1, out @ [c]))"

partial_function (option) vsn_loop :: "byte list \<Rightarrow> va_arg list \<Rightarrow> int \<Rightarrow> u32 \<Rightarrow> byte list \<Rightarrow> (addr \<times> nat) list \<Rightarrow>
  (byte list \<times> (addr \<times> nat) list) option" where
  "vsn_loop fmt args numpr sz out st =
     (if sz = 0 then Some (out, st)
      else do {
        r \<leftarrow> copy_plain fmt (sz, out);
        case r of
          Inl out \<Rightarrow> Some (out, st)
        | Inr (fmt, sz, out) \<Rightarrow> do {
            let (fl, fmt) = parse_flags \<lparr>f_left = False, f_sign = False, f_space = False, f_zero = False, f_alternate = False\<rparr> fmt;
            (width, fmt, args) \<leftarrow> parse_count fmt args;
            (precision, fmt, args) \<leftarrow> parse_precision fmt args;
            fmt \<leftarrow> parse_modifier fmt;
            c \<leftarrow> peek fmt;
            (cs, numpr, args, w) \<leftarrow> convert_one fl width precision c numpr (length out) args;
            let st = (case w of None \<Rightarrow> st | Some w \<Rightarrow> st @ [w]);
            case PUTSTR cs (sz, out) of
              Inl out \<Rightarrow> Some (out, st)
            | Inr (sz, out) \<Rightarrow> vsn_loop (tl fmt) args numpr sz out st
          }
      })"

definition null_fmt :: "byte list" where
  "null_fmt = [40, 110, 117, 108, 108, 32, 102, 109, 116, 32, 115, 116, 114, 105, 110, 103, 41]"

text \<open>The result, the bytes written without the zero behind them, and the numbers stored by \<open>%n\<close>.\<close>

definition vsnprintf :: "u32 \<Rightarrow> byte list option \<Rightarrow> va_arg list \<Rightarrow> (int \<times> byte list \<times> (addr \<times> nat) list) option" where
  "vsnprintf sz fmt args = (case fmt of
     None \<Rightarrow> (case PUTSTR null_fmt (sz - 1, []) of
         Inl out \<Rightarrow> Some (int (length out), out, [])
       | Inr (_, out) \<Rightarrow> Some (int (length out), out, []))
   | Some fmt \<Rightarrow> do {
       (out, st) \<leftarrow> vsn_loop (fmt @ [0]) args 0 (sz - 1) [] [];
       Some (int (length out), out, st)
     })"

definition BUFSIZ :: u32 where "BUFSIZ = 1024"

text \<open>\<open>snprintf\<close> passes the size of the pointer, not the size it was given, and prints what it has formatted.\<close>

definition snprintf :: "u32 \<Rightarrow> byte list option \<Rightarrow> va_arg list \<Rightarrow> (int \<times> byte list \<times> byte list) option" where
  "snprintf sz fmt args = (case fmt of
     None \<Rightarrow> Some (0, [], [])
   | Some f \<Rightarrow> do {
       (r, out, _) \<leftarrow> vsnprintf 4 (Some f) args;
       Some (r, out, if 0 < r then take (nat r) out else [])
     })"

text \<open>\<open>printf\<close> writes the terminating zero as well.\<close>

definition printf :: "byte list option \<Rightarrow> va_arg list \<Rightarrow> (int \<times> byte list) option" where
  "printf fmt args = (case fmt of
     None \<Rightarrow> Some (0, [])
   | Some f \<Rightarrow> do {
       (r, out, _) \<leftarrow> vsnprintf BUFSIZ (Some f) args;
       Some (r, if 0 < r then out @ [0] else [])
     })"

definition vsprintf :: "byte list option \<Rightarrow> va_arg list \<Rightarrow> (byte list \<times> (addr \<times> nat) list) option" where
  "vsprintf fmt args = do {
     (_, out, st) \<leftarrow> vsnprintf (- 1) fmt args;
     Some (out, st)
   }"

text \<open>\<open>fprintf\<close> does not use the stream it is given: what it writes goes to the standard output.\<close>

definition fprintf :: "byte list option \<Rightarrow> va_arg list \<Rightarrow> (int \<times> byte list) option" where
  "fprintf fmt args = (case fmt of
     None \<Rightarrow> Some (0, [])
   | Some f \<Rightarrow> do {
       (r, out, _) \<leftarrow> vsnprintf BUFSIZ (Some f) args;
       Some (r, if 0 < r then out @ [0] else [])
     })"

text \<open>The array of \<open>putc\<close> has one element; the zero is stored behind it. The result is what is written.\<close>

definition putc :: "u32 \<Rightarrow> (int \<times> byte list) option" where
  "putc k = do {
     p \<leftarrow> aput [0 :: byte] 0 (ucast k);
     p \<leftarrow> aput p 1 0;
     Some (0, p)
   }"

definition puts :: "byte list \<Rightarrow> (int \<times> byte list) option" where
  "puts str = do {
     (_, nl) \<leftarrow> putc 10;
     Some (int (length str), str @ [0] @ nl)
   }"

definition putchar :: "u32 \<Rightarrow> (u32 \<times> byte list) option" where
  "putchar c = do {
     (_, p) \<leftarrow> putc c;
     Some (c, p)
   }"

text \<open>
  \<open>vsscanf\<close> of \<^verbatim>\<open>scanf.c\<close> is the text of \<open>vsnprintf\<close> once more, with the size of a pointer for \<open>size\<close>: it formats into
  the string it should read. Its callers return the number of bytes formatted; the last component is the
  number of bytes that they then ask \<open>read\<close> for, over what was formatted.
\<close>

definition vsscanf :: "byte list option \<Rightarrow> va_arg list \<Rightarrow> (int \<times> byte list \<times> (addr \<times> nat) list) option" where
  "vsscanf fmt args = vsnprintf 4 fmt args"

definition sscanf :: "byte list option \<Rightarrow> va_arg list \<Rightarrow> (int \<times> byte list \<times> nat) option" where
  "sscanf fmt args = do {
     (i, out, _) \<leftarrow> vsscanf fmt args;
     Some (i, out, if 0 < i then 4 else 0)
   }"

definition scanf :: "byte list option \<Rightarrow> va_arg list \<Rightarrow> (int \<times> byte list \<times> nat) option" where
  "scanf fmt args = (if fmt = None then Some (0, [], 0) else do {
     (i, out, _) \<leftarrow> vsscanf fmt args;
     Some (i, out, if 0 < i then unat BUFSIZ else 0)
   })"

section \<open>What is printed\<close>

text \<open>A format as a list of items: text without percent signs, and conversions without flags.\<close>

datatype item = Lit "byte list" | PStr "byte list" | PDec u32 | PUns u32 | PHex u32 | PChr u32 | PPct

fun item_fmt :: "item \<Rightarrow> byte list" where
  "item_fmt (Lit cs) = cs"
| "item_fmt (PStr str) = [37, 115]"
| "item_fmt (PDec n) = [37, 100]"
| "item_fmt (PUns n) = [37, 117]"
| "item_fmt (PHex n) = [37, 120]"
| "item_fmt (PChr c) = [37, 99]"
| "item_fmt PPct = [37, 37]"

fun item_args :: "item \<Rightarrow> va_arg list" where
  "item_args (Lit cs) = []"
| "item_args (PStr str) = [VStr (Some str)]"
| "item_args (PDec n) = [VInt n]"
| "item_args (PUns n) = [VInt n]"
| "item_args (PHex n) = [VInt n]"
| "item_args (PChr c) = [VInt c]"
| "item_args PPct = []"

definition number :: "nat \<Rightarrow> nat \<Rightarrow> byte list" where
  "number base n = map (digit_char False) (rev (convert_digits base n))"

fun item_text :: "item \<Rightarrow> byte list" where
  "item_text (Lit cs) = cs"
| "item_text (PStr str) = str"
| "item_text (PDec n) = (if sint n < 0 then 45 # number 10 (unat (- n)) else number 10 (unat n))"
| "item_text (PUns n) = number 10 (unat n)"
| "item_text (PHex n) = number 16 (unat n)"
| "item_text (PChr c) = [ucast c]"
| "item_text PPct = [37]"

fun item_ok :: "item \<Rightarrow> bool" where
  "item_ok (Lit cs) \<longleftrightarrow> 37 \<notin> set cs \<and> 0 \<notin> set cs"
| "item_ok (PStr str) \<longleftrightarrow> 0 \<notin> set str"
| "item_ok (PDec n) \<longleftrightarrow> n \<noteq> 0x80000000"
| "item_ok _ \<longleftrightarrow> True"

text \<open>The digits of a number read back as the number.\<close>

lemma convert_digits_value:
  assumes "2 \<le> base"
  shows "foldr (\<lambda>d v. v * base + d) (convert_digits base n) 0 = n \<and> (\<forall>d \<in> set (convert_digits base n). d < base)"
  using assms
proof (induction base n rule: convert_digits.induct)
  case (1 base n)
  show ?case
  proof (cases "n div base = 0")
    case True
    then have "n < base" using "1.prems" by (auto simp: div_eq_0_iff)
    then show ?thesis using True by (subst (1 2) convert_digits.simps) simp
  next
    case False
    then show ?thesis using 1 by (subst (1 2) convert_digits.simps) simp
  qed
qed

lemma PUTSTR_take:
  "PUTSTR cs (sz, out) = (if length cs \<le> unat sz then Inr (sz - of_nat (length cs), out @ cs) else Inl (out @ take (unat sz) cs))"
proof (induction cs arbitrary: sz out)
  case (Cons c cs)
  show ?case
  proof (cases "sz = 0")
    case False
    then have u: "unat sz = Suc (unat (sz - 1))" by (simp add: unat_minus_one unat_gt_0)
    then show ?thesis using False by (auto simp: PUTCH_def Cons.IH)
  qed (simp add: PUTCH_def)
qed simp

lemma print_number_plain:
  "print_number \<lparr>f_left = False, f_sign = False, f_space = False, f_zero = False, f_alternate = False\<rparr> (- 1) (- 1) base False sign n =
    (if sign \<and> sint n < 0 then 45 # number base (unat (- n)) else number base (unat n))"
  by (simp add: print_number_def Let_def number_def pad_def RIGHTPAD_def rev_map)

text \<open>One turn of the loop, entered also when there is no room left.\<close>

definition vsn_turn :: "byte list \<Rightarrow> va_arg list \<Rightarrow> int \<Rightarrow> u32 \<Rightarrow> byte list \<Rightarrow> (addr \<times> nat) list \<Rightarrow>
  (byte list \<times> (addr \<times> nat) list) option" where
  "vsn_turn fmt args numpr sz out st = do {
     r \<leftarrow> copy_plain fmt (sz, out);
     case r of
       Inl out \<Rightarrow> Some (out, st)
     | Inr (fmt, sz, out) \<Rightarrow> do {
         let (fl, fmt) = parse_flags \<lparr>f_left = False, f_sign = False, f_space = False, f_zero = False, f_alternate = False\<rparr> fmt;
         (width, fmt, args) \<leftarrow> parse_count fmt args;
         (precision, fmt, args) \<leftarrow> parse_precision fmt args;
         fmt \<leftarrow> parse_modifier fmt;
         c \<leftarrow> peek fmt;
         (cs, numpr, args, w) \<leftarrow> convert_one fl width precision c numpr (length out) args;
         let st = (case w of None \<Rightarrow> st | Some w \<Rightarrow> st @ [w]);
         case PUTSTR cs (sz, out) of
           Inl out \<Rightarrow> Some (out, st)
         | Inr (sz, out) \<Rightarrow> vsn_loop (tl fmt) args numpr sz out st
       }
   }"

lemma vsn_loop_turn: "vsn_loop fmt args numpr sz out st = (if sz = 0 then Some (out, st) else vsn_turn fmt args numpr sz out st)"
  unfolding vsn_loop.simps [of fmt args numpr sz out st] vsn_turn_def ..

lemma unat_minus_of_nat:
  fixes w :: u32
  assumes "k \<le> unat w"
  shows "unat (w - of_nat k) = unat w - k"
proof -
  have "k < 2 ^ 32" using assms unsigned_less [of w, where ?'a = nat] by simp
  then have "unat (of_nat k :: u32) = k" by (simp add: unat_of_nat)
  then show ?thesis using assms by (simp add: unat_sub word_le_nat_alt)
qed

text \<open>The effect of a conversion without flags: \<open>c\<close> puts the characters \<open>cs\<close>.\<close>

lemma vsn_turn_conversion:
  assumes "c \<in> {115, 100, 117, 120, 99, 37}"
    "convert_one \<lparr>f_left = False, f_sign = False, f_space = False, f_zero = False, f_alternate = False\<rparr> (- 1) (- 1) c numpr (length out) args =
       Some (cs, numpr', args', None)"
  shows "vsn_turn (37 # c # fmt) args numpr sz out [] =
    (case PUTSTR cs (sz, out) of Inl out \<Rightarrow> Some (out, []) | Inr (sz, out) \<Rightarrow> vsn_loop fmt args' numpr' sz out [])"
proof -
  let ?fl = "\<lparr>f_left = False, f_sign = False, f_space = False, f_zero = False, f_alternate = False\<rparr>"
  have c: "c \<notin> {45, 43, 32, 48, 35, 42, 46, 104, 108, 76}" "\<not> (48 \<le> c \<and> c \<le> 57)" using assms(1) by auto
  have "parse_flags ?fl (c # fmt) = (?fl, c # fmt)" using c by simp
  moreover have "parse_count (c # fmt) args = Some (- 1, c # fmt, args)" using c by (auto simp: parse_count_def peek_def)
  moreover have "parse_precision (c # fmt) args = Some (- 1, c # fmt, args)" using c by (simp add: parse_precision_def peek_def)
  moreover have "parse_modifier (c # fmt) = Some (c # fmt)" using c by (simp add: parse_modifier_def peek_def)
  moreover have "peek (c # fmt) = Some c" by (simp add: peek_def)
  moreover have "copy_plain (37 # c # fmt) (sz, out) = Some (Inr (c # fmt, sz, out))" by simp
  ultimately show ?thesis
    by (simp only: vsn_turn_def assms(2) Option.bind.bind_lunit Let_def prod.case sum.case option.case list.sel)
qed

lemma item_convert:
  assumes "item_fmt it = [37, c]" "item_ok it" "\<forall>cs. it \<noteq> Lit cs"
  shows "c \<in> {115, 100, 117, 120, 99, 37}" "\<exists>numpr'. convert_one \<lparr>f_left = False, f_sign = False, f_space = False, f_zero = False, f_alternate = False\<rparr>
    (- 1) (- 1) c numpr k (item_args it @ args) = Some (item_text it, numpr', args, None)"
  using assms
  by (cases it; auto simp: convert_one_def int_arg_def print_number_plain print_string_def RIGHTPAD_def Let_def)+

lemma vsn_turn_items:
  assumes "\<forall>it \<in> set items. item_ok it"
  shows "vsn_turn (concat (map item_fmt items) @ [0]) (concat (map item_args items)) numpr sz out [] =
    Some (out @ take (unat sz) (concat (map item_text items)), [])"
  using assms
proof (induction items arbitrary: numpr sz out)
  case Nil
  then show ?case by (simp add: vsn_turn_def)
next
  case (Cons it items)
  let ?fmt = "concat (map item_fmt items) @ [0]" and ?args = "concat (map item_args items)"
    and ?txt = "concat (map item_text items)"
  have IH: "vsn_turn ?fmt ?args numpr sz out [] = Some (out @ take (unat sz) ?txt, [])" for numpr sz out
    using Cons by simp
  have loop: "vsn_loop ?fmt ?args numpr sz out [] = Some (out @ take (unat sz) ?txt, [])" for numpr sz out
    using IH by (simp add: vsn_loop_turn)
  show ?case
  proof (cases "\<exists>cs. it = Lit cs")
    case True
    then obtain cs where it: "it = Lit cs" "37 \<notin> set cs" "0 \<notin> set cs" using Cons.prems by auto
    from it(2,3) have "vsn_turn (cs @ ?fmt) ?args numpr sz out [] = Some (out @ take (unat sz) (cs @ ?txt), [])"
    proof (induction cs arbitrary: sz out)
      case Nil
      then show ?case using IH by simp
    next
      case (Cons c cs)
      show ?case
      proof (cases "sz = 0")
        case True
        then show ?thesis using Cons.prems by (simp add: vsn_turn_def)
      next
        case False
        then have u: "unat sz = Suc (unat (sz - 1))" by (simp add: unat_minus_one unat_gt_0)
        have "vsn_turn ((c # cs) @ ?fmt) ?args numpr sz out [] = vsn_turn (cs @ ?fmt) ?args numpr (sz - 1) (out @ [c]) []"
          using False Cons.prems by (simp add: vsn_turn_def)
        then show ?thesis using Cons.IH [of "sz - 1" "out @ [c]"] Cons.prems by (simp add: u)
      qed
    qed
    then show ?thesis by (simp add: it(1))
  next
    case False
    then obtain c where c: "item_fmt it = [37, c]" by (cases it) auto
    have ok: "item_ok it" "\<forall>cs. it \<noteq> Lit cs" using Cons.prems False by auto
    obtain numpr' where conv: "convert_one \<lparr>f_left = False, f_sign = False, f_space = False, f_zero = False, f_alternate = False\<rparr>
        (- 1) (- 1) c numpr (length out) (item_args it @ ?args) = Some (item_text it, numpr', ?args, None)"
      using item_convert(2) [OF c ok] by blast
    have "vsn_turn (37 # c # ?fmt) (item_args it @ ?args) numpr sz out [] =
        (case PUTSTR (item_text it) (sz, out) of Inl out \<Rightarrow> Some (out, []) | Inr (sz, out) \<Rightarrow> vsn_loop ?fmt ?args numpr' sz out [])"
      by (rule vsn_turn_conversion [OF item_convert(1) [OF c ok] conv])
    also have "\<dots> = Some (out @ take (unat sz) (item_text it @ ?txt), [])"
    proof (cases "length (item_text it) \<le> unat sz")
      case True
      then have "unat (sz - of_nat (length (item_text it))) = unat sz - length (item_text it)"
        by (rule unat_minus_of_nat)
      then show ?thesis using True by (simp add: PUTSTR_take loop)
    next
      case False
      then show ?thesis by (simp add: PUTSTR_take)
    qed
    finally show ?thesis by (simp add: c)
  qed
qed

text \<open>Every call of \<open>putc\<close> stores outside of its array, and with it every call of \<open>puts\<close> and \<open>putchar\<close>.\<close>

lemma putc_undefined: "putc k = None" "puts str = None" "putchar k = None"
  by (simp_all add: putc_def puts_def putchar_def aput_def)

text \<open>
  C10. \<open>vsnprintf\<close> prints what the format says: for a format made of text and of the conversions
  \<open>%s\<close>, \<open>%d\<close>, \<open>%u\<close>, \<open>%x\<close>, \<open>%c\<close> and \<open>%%\<close> with arguments of the right kind (the most negative number for \<open>%d\<close> apart), it returns, and
  the bytes before the terminating zero are the texts of the items one after the other, cut off
  one byte before the end of the buffer; the result is their number.
\<close>

theorem vsnprintf_prints:
  assumes "\<forall>it \<in> set items. item_ok it" "sz \<noteq> 0" "out = take (unat sz - 1) (concat (map item_text items))"
  shows "vsnprintf sz (Some (concat (map item_fmt items))) (concat (map item_args items)) = Some (int (length out), out, [])"
proof -
  have "unat (sz - 1) = unat sz - 1" using assms(2) by (rule unat_minus_one)
  then show ?thesis
    using vsn_turn_items [OF assms(1), of 0 "sz - 1" "[]"] assms(3)
    by (cases "sz - 1 = 0") (simp_all add: vsnprintf_def vsn_loop_turn)
qed

theorem vsnprintf_prints_witness:
  "vsnprintf 10 (Some [97, 61, 37, 100, 32, 37, 115]) [VInt (- 42), VStr (Some [120, 121, 122, 122])] = Some (9, [97, 61, 45, 52, 50, 32, 120, 121, 122], [])"
proof -
  have u: "unat (42 :: u32) = 42" by simp
  have n: "number 10 42 = [52, 50]" by (simp add: number_def convert_digits.simps digit_char_def)
  have t: "concat (map item_text [Lit [97, 61], PDec (- 42), Lit [32], PStr [120, 121, 122, 122]]) =
      [97, 61, 45, 52, 50, 32, 120, 121, 122, 122]" by (simp add: n)
  show ?thesis
    using vsnprintf_prints [of "[Lit [97, 61], PDec (- 42), Lit [32], PStr [120, 121, 122, 122]]" 10
      "[97, 61, 45, 52, 50, 32, 120, 121, 122]"] unfolding t by simp
qed

lemma copy_plain_bound:
  "copy_plain fmt (sz, out) = Some r \<Longrightarrow> (case r of Inl out' \<Rightarrow> length out' \<le> length out + unat sz
    | Inr (_, sz', out') \<Rightarrow> length out' + unat sz' \<le> length out + unat sz)"
proof (induction fmt arbitrary: sz out)
  case (Cons c fmt)
  show ?case
  proof (cases "c = 37 \<or> sz = 0 \<or> c = 0")
    case True
    then show ?thesis using Cons.prems by (auto split: if_splits)
  next
    case False
    then have "unat sz = Suc (unat (sz - 1))" by (simp add: unat_minus_one unat_gt_0)
    then show ?thesis using False Cons.IH [of "sz - 1" "out @ [c]"] Cons.prems by (auto split: sum.splits)
  qed
qed simp

lemma PUTSTR_bound:
  "(case PUTSTR cs (sz, out) of Inl out' \<Rightarrow> length out' \<le> length out + unat sz
    | Inr (sz', out') \<Rightarrow> length out' + unat sz' \<le> length out + unat sz)"
  by (auto simp: PUTSTR_take unat_minus_of_nat)

lemma vsn_loop_bound:
  assumes "vsn_loop fmt args numpr sz out st = Some r"
  shows "length (fst r) \<le> length out + unat sz"
proof (rule vsn_loop.raw_induct [of "\<lambda>fmt args numpr sz out st r. length (fst r) \<le> length out + unat sz", OF _ assms])
  fix vsn :: "byte list \<Rightarrow> va_arg list \<Rightarrow> int \<Rightarrow> u32 \<Rightarrow> byte list \<Rightarrow> (addr \<times> nat) list \<Rightarrow> (byte list \<times> (addr \<times> nat) list) option"
  fix fmt args numpr sz out st r
  assume IH: "\<And>fmt args numpr sz out st r. vsn fmt args numpr sz out st = Some r \<Longrightarrow> length (fst r) \<le> length out + unat sz"
  assume prems: "(if sz = 0 then Some (out, st)
      else do {
        r \<leftarrow> copy_plain fmt (sz, out);
        case r of
          Inl out \<Rightarrow> Some (out, st)
        | Inr (fmt, sz, out) \<Rightarrow> do {
            let (fl, fmt) = parse_flags \<lparr>f_left = False, f_sign = False, f_space = False, f_zero = False, f_alternate = False\<rparr> fmt;
            (width, fmt, args) \<leftarrow> parse_count fmt args;
            (precision, fmt, args) \<leftarrow> parse_precision fmt args;
            fmt \<leftarrow> parse_modifier fmt;
            c \<leftarrow> peek fmt;
            (cs, numpr, args, w) \<leftarrow> convert_one fl width precision c numpr (length out) args;
            let st = (case w of None \<Rightarrow> st | Some w \<Rightarrow> st @ [w]);
            case PUTSTR cs (sz, out) of
              Inl out \<Rightarrow> Some (out, st)
            | Inr (sz, out) \<Rightarrow> vsn (tl fmt) args numpr sz out st
          }
      }) = Some r"
  show "length (fst r) \<le> length out + unat sz"
  proof (cases "sz = 0")
    case True
    then show ?thesis using prems by auto
  next
    case False
    then obtain q where q: "copy_plain fmt (sz, out) = Some q" using prems by (auto split: Option.bind_splits)
    show ?thesis
    proof (cases q)
      case (Inl out')
      then show ?thesis using prems False q copy_plain_bound [OF q] by auto
    next
      case (Inr x)
      obtain fmt1 sz1 out1 where x: "x = (fmt1, sz1, out1)" by (cases x)
      have le: "length out1 + unat sz1 \<le> length out + unat sz" using copy_plain_bound [OF q] Inr x by simp
      obtain cs st' fmt' args' numpr' where put:
        "(case PUTSTR cs (sz1, out1) of Inl out \<Rightarrow> Some (out, st') | Inr (sz, out) \<Rightarrow> vsn fmt' args' numpr' sz out st') = Some r"
        using prems False q Inr x by (auto simp: Let_def split: Option.bind_splits prod.splits)
      show ?thesis
      proof (cases "PUTSTR cs (sz1, out1)")
        case (Inl o2)
        then show ?thesis using put PUTSTR_bound [of out1 sz1 cs] le by auto
      next
        case (Inr y)
        then show ?thesis using put PUTSTR_bound [of out1 sz1 cs] le IH [of fmt' args' numpr' "fst y" "snd y" st' r]
          by (cases y) auto
      qed
    qed
  qed
qed

text \<open>
  C9. \<open>vsnprintf\<close> stays inside the buffer: whatever the format and the arguments are (flags, widths, precisions
  and the address stored to by \<open>%n\<close> included), with a size that is not zero the bytes it writes and the zero
  behind them fit into the buffer, and the result is the number of bytes before the zero.
\<close>

theorem vsnprintf_bounded:
  assumes "vsnprintf sz fmt args = Some (r, out, st)" "sz \<noteq> 0"
  shows "length out + 1 \<le> unat sz \<and> r = int (length out)"
proof -
  have u: "unat sz = Suc (unat (sz - 1))" using assms(2) by (simp add: unat_minus_one unat_gt_0)
  show ?thesis
  proof (cases fmt)
    case None
    then show ?thesis using assms(1) PUTSTR_bound [of "[]" "sz - 1" null_fmt] u
      by (auto simp: vsnprintf_def split: sum.splits)
  next
    case (Some f)
    then obtain out' st' where "vsn_loop (f @ [0]) args 0 (sz - 1) [] [] = Some (out', st')" "out' = out" "r = int (length out)"
      using assms(1) by (auto simp: vsnprintf_def split: Option.bind_splits)
    then show ?thesis using vsn_loop_bound [of "f @ [0]" args 0 "sz - 1" "[]" "[]"] u by fastforce
  qed
qed

text \<open>The format \<open>%6d\<close> in a buffer of four bytes.\<close>

theorem vsnprintf_bounded_witness:
  "vsnprintf 4 (Some [37, 54, 100]) [VInt 7] = Some (3, [32, 32, 32], []) \<and> length [32 :: byte, 32, 32] + 1 \<le> unat (4 :: u32)"
proof -
  have d: "convert_digits 10 7 = [7]" by (simp add: convert_digits.simps)
  let ?fl = "\<lparr>f_left = False, f_sign = False, f_space = False, f_zero = False, f_alternate = False\<rparr>"
  have c: "parse_count [54, 100, 0] [VInt 7] = Some (6, [100, 0], [VInt 7])" by (simp add: parse_count_def peek_def)
  have p: "parse_precision [100, 0] [VInt 7] = Some (- 1, [100, 0], [VInt 7])" by (simp add: parse_precision_def peek_def)
  have m: "parse_modifier [100, 0] = Some [100, 0]" "peek [100, 0 :: byte] = Some 100" by (simp_all add: parse_modifier_def peek_def)
  have q: "pad 32 5 = [32, 32, 32, 32, 32]" "pad 48 0 = []" by (simp_all add: pad_def eval_nat_numeral)
  have o: "convert_one ?fl 6 (- 1) 100 0 0 [VInt 7] = Some ([32, 32, 32, 32, 32, 55], 0, [], None)"
    by (simp add: convert_one_def int_arg_def print_number_def Let_def d q RIGHTPAD_def digit_char_def)
  have "vsn_turn [37, 54, 100, 0] [VInt 7] 0 3 [] [] = Some ([32, 32, 32], [])"
    by (simp add: vsn_turn_def c p m o PUTCH_def)
  then have "vsnprintf 4 (Some [37, 54, 100]) [VInt 7] = Some (3, [32, 32, 32], [])"
    by (simp add: vsnprintf_def vsn_loop_turn)
  then show ?thesis using vsnprintf_bounded by fastforce
qed

end
