(* ===== verification/Spec2Isabelle.thy ===== *)
theory Spec2Isabelle
  imports KIrq KStdio VmFault Slab FsExec Pool Env Printf
begin

text \<open>
  A verification development of Manrix: the microkernel (\<^verbatim>\<open>src/microkernel\<close>), the file server
  (\<^verbatim>\<open>src/servers/fs-io\<close>) and parts of the C library of its programs (\<^verbatim>\<open>src/soft/libc\<close>).

  \<^bold>\<open>The program.\<close> The kernel schedules threads, passes messages between them, manages physical pages,
  page tables and memory maps, and delivers interrupts, timers and signals. Everything else is a server that
  is a loop over messages: the file server takes the requests of programs (open, read, stat, exec) and of the
  memory manager of the kernel (the pages of a mapped file) and answers them from an ext2 file system behind a buffer cache. A
  server receives in its main thread and hands the requests to a pool of worker threads. A page fault of a
  program goes from the fault handler through the memory map to the pager, which is a message to the file server.

  \<^bold>\<open>How the code is translated.\<close> A C function is a function on a record of the state with the result in
  \<^typ>\<open>'a option\<close>: \<^const>\<open>None\<close> is undefined behaviour (a null or freed pointer, an index out of bounds), a panic, or a
  loop that does not end. Error codes are results, as in the code. Pointers are numbers (\<open>addr\<close>); the objects
  of a type are a map from addresses to records; intrusive lists are maps of \<open>next\<close> and \<open>prev\<close> links. Machine integers
  are words of their width where they can wrap around. The kernel records extend each other
  (\<open>kstate\<close>, \<open>syncstate\<close>, \<open>timestate\<close>, \<open>procstate\<close>), and so do those of the server (\<open>fscache\<close>, \<open>fsstate\<close>, \<open>execstate\<close>);
  an operation that spans the kernel and the server takes both. A function that sleeps is
  divided at the point where it sleeps. What an allocation returns is an argument or comes from a list of addresses
  in the state; an empty list is the lack of memory. Drivers, the console and other code that is not modelled are function
  arguments. Constants keep the name of their macro.

  The build is the configured one: one processor and no preemption in the kernel, so that the spin locks of the kernel do
  nothing, and a file server without \<^verbatim>\<open>EXT2_WRITE\<close> and \<^verbatim>\<open>SEPERATE_IO_PROCESS\<close>. The mutexes of the library
  have empty bodies and are left out; the spin locks of the file server are fields of its state, and to take one that is held
  is \<^const>\<open>None\<close>.

  \<^bold>\<open>Foundations.\<close>

  \<^item> \<^theory_text>\<open>Prelude\<close>: types, the collections of rules, access to arrays with bounds.
  \<^item> \<^theory_text>\<open>Machine\<close>: bit operations and page arithmetic (\<^verbatim>\<open>asm.h\<close>, \<^verbatim>\<open>vm_param.h\<close>).
  \<^item> \<^theory_text>\<open>KList\<close>: the macros of \<^verbatim>\<open>list.h\<close> on a heap of links. They refine operations on HOL lists; the locale \<^verbatim>\<open>kqueue\<close> derives first-in first-out order from the laws of a queue and is interpreted on the rings and the lists.
  \<^item> \<^theory_text>\<open>KId\<close>: the bitmaps of identifiers (\<^verbatim>\<open>id.c\<close>), a refinement of a set of numbers in use; the locale \<^verbatim>\<open>id_space\<close> gives the uniqueness of ids over every sequence of calls, for processes, threads and timers.
  \<^item> \<^theory_text>\<open>KHash\<close>: the chained hash tables; the locale \<^verbatim>\<open>bucket_dir\<close> gives lookup after insertion and removal, for threads, for numbered objects and for pages.

  \<^bold>\<open>The kernel.\<close>

  \<^item> \<^theory_text>\<open>KState\<close>: threads, processes, messages and the run queue as records.
  \<^item> \<^theory_text>\<open>Sched\<close>: \<^verbatim>\<open>scheduling.c\<close>, \<^verbatim>\<open>scheduling.h\<close>: the choice of the next thread, fairness of yielding, the timer tick, and the consistency of the run queue in every state reached by the operations (a step relation with rule induction).
  \<^item> \<^theory_text>\<open>KThread\<close>: \<^verbatim>\<open>thread.c\<close>: creation, exit and waiting; the table of threads stays consistent, \<^verbatim>\<open>exit_threads\<close> ends.
  \<^item> \<^theory_text>\<open>Ipc\<close>: \<^verbatim>\<open>message.c\<close>: send, receive and reply, their round trip and the order of messages.
  \<^item> \<^theory_text>\<open>KSync\<close>: \<^verbatim>\<open>sync.c\<close>: wait queues of processes.
  \<^item> \<^theory_text>\<open>KIrq\<close>: \<^verbatim>\<open>irq.c\<close>: interrupts delivered to threads.
  \<^item> \<^theory_text>\<open>KSignal\<close>: \<^verbatim>\<open>signal.c\<close>: sending, masking, queueing and taking signals, on every branch.
  \<^item> \<^theory_text>\<open>Timer\<close>: \<^verbatim>\<open>timer.c\<close> and the clock calls; the inverted test of the timeouts and the ring of one timer are shown.
  \<^item> \<^theory_text>\<open>Fd\<close>: \<^verbatim>\<open>fd.c\<close>: tables of descriptors.
  \<^item> \<^theory_text>\<open>Process\<close>: \<^verbatim>\<open>process.c\<close>, \<^verbatim>\<open>info.c\<close>: fork, spawn, wait, exit and the attributes of processes.
  \<^item> \<^theory_text>\<open>KStdio\<close>: \<^verbatim>\<open>kernel_stdio.c\<close>: the output of the kernel; digits read back as their number.

  \<^bold>\<open>Memory.\<close>

  \<^item> \<^theory_text>\<open>VmPage\<close>: \<^verbatim>\<open>vm_page.c\<close>, \<^verbatim>\<open>vm_object.c\<close>: free lists and the hash table of pages, with the invariant that allocation keeps.
  \<^item> \<^theory_text>\<open>PhysMem\<close>: the frames that \<^verbatim>\<open>arch/i386/memory.c\<close> hands out at boot.
  \<^item> \<^theory_text>\<open>Pmap\<close>: \<^verbatim>\<open>pmap.c\<close>: page directories and tables as frames.
  \<^item> \<^theory_text>\<open>VmMap\<close>: \<^verbatim>\<open>vm_map.c\<close>, \<^verbatim>\<open>vm.c\<close>: the ring of entries, ranges, copy on write; lookup with its hint.
  \<^item> \<^theory_text>\<open>VmFault\<close>: \<^verbatim>\<open>vm_pager.c\<close> and the fault handler: a fault maps one page and leaves every other translation.
  \<^item> \<^theory_text>\<open>Slab\<close>: \<^verbatim>\<open>vm_slab.c\<close>: objects of a page are distinct and inside of it, and what happens after the last.

  \<^bold>\<open>The file server.\<close>

  \<^item> \<^theory_text>\<open>BCache\<close>: \<^verbatim>\<open>blockdev.c\<close>, \<^verbatim>\<open>bcache.c\<close>: the buffer cache over a device that is an argument.
  \<^item> \<^theory_text>\<open>Ext2\<close>: \<^verbatim>\<open>fs/ext2fs\<close>: block mapping and reading; a read gives the bytes of the file, for direct and single indirect blocks.
  \<^item> \<^theory_text>\<open>Vfs\<close>: \<^verbatim>\<open>vfs.c\<close>, \<^verbatim>\<open>vfs_namei.c\<close>, \<^verbatim>\<open>file.c\<close>, \<^verbatim>\<open>chrdev.c\<close>: vnodes, names, mounting, open files; a read of a program through all layers.
  \<^item> \<^theory_text>\<open>FsExec\<close>: \<^verbatim>\<open>elf.c\<close>, \<^verbatim>\<open>kernel_helper.c\<close>, \<^verbatim>\<open>msg.c\<close>: pages for the memory manager, exec and the handlers.
  \<^item> \<^theory_text>\<open>Pool\<close>: \<^verbatim>\<open>svrpool.c\<close>, \<^verbatim>\<open>main.c\<close>: the receiving thread and the workers as a step relation over every interleaving; no request is lost.

  \<^bold>\<open>The C library.\<close>

  \<^item> \<^theory_text>\<open>CMem\<close>: bytes in memory and classes of characters (\<^verbatim>\<open>ctype.c\<close>).
  \<^item> \<^theory_text>\<open>CString\<close>: \<^verbatim>\<open>string.c\<close>: copying, comparing and searching, with the search a word at a time equal to that byte by byte.
  \<^item> \<^theory_text>\<open>Env\<close>: \<^verbatim>\<open>env.c\<close>: \<^verbatim>\<open>getenv\<close> returns what \<^verbatim>\<open>setenv\<close> has set.
  \<^item> \<^theory_text>\<open>Printf\<close>: \<^verbatim>\<open>printf.c\<close>, \<^verbatim>\<open>scanf.c\<close>: what is printed, and that the buffer is never left.

  \<^bold>\<open>Loops.\<close> Structural loops are \<open>fun\<close> or \<open>primrec\<close>, others have a termination proof; a loop over links, which does not end on
  a broken ring, is a \<open>partial_function\<close> into \<^typ>\<open>'a option\<close>, so that no fuel is chosen anywhere. Where the theorems say that such a
  loop gives a result they say that it returns: the value is stated with \<^const>\<open>Some\<close>. The exception is a bound on
  what is written, as in \<open>vsnprintf_bounded\<close>, which holds of every result; \<open>vsnprintf_prints\<close> says when there is one.

  \<^bold>\<open>Not modelled.\<close> Assembly, descriptor tables, interrupt controllers and the start of the machine; the register frames of system
  calls (\<^verbatim>\<open>arch/i386/process.c\<close>, \<^verbatim>\<open>signal.c\<close>, \<^verbatim>\<open>thread.c\<close>, \<^verbatim>\<open>scheduling.c\<close>), which fetch arguments for functions that are
  modelled; multiprocessor code; the disk and floppy drivers, the console, the bus manager and \<^verbatim>\<open>miscio\<close>, which work on ports;
  the partition table, which only the disk driver reads; \<^verbatim>\<open>balloc.c\<close>, \<^verbatim>\<open>ialloc.c\<close> and \<^verbatim>\<open>fat\<close>, which are not compiled; the system call
  stubs of the library, its streams, directories, pthreads and exec functions; \<^verbatim>\<open>ptmalloc.c\<close>, \<^verbatim>\<open>getopt.c\<close> and \<^verbatim>\<open>strtol.c\<close>; and
  the programs under \<^verbatim>\<open>src/soft\<close>. Of threads the saved registers, and of \<open>%f\<close> the floating point arithmetic, are left out.
\<close>

end
